theory Spec2Isabelle
  imports Complex_Main "HOL-Library.Word" "HOL-Library.AList"
begin

unbundle bit_operations_syntax

section \<open>Errors\<close>

text \<open>
  The C++ code signals every failure by throwing \<open>std::runtime_error\<close> with a message
  (the library call \<open>std::stoi\<close> throws \<open>std::invalid_argument\<close> or
  \<open>std::out_of_range\<close>). Each throw site is a constructor here, named after the
  error kind of the specification:
  \<^item> \<open>ParseError\<close>: "Problem parsing line", "Invalid seqId for line", "Unknown token found
    when parsing the index", "Parameter is not of form 'name=value'";
  \<^item> \<open>EmptyIndex\<close>: "There are no sequences in the input index file";
  \<^item> \<open>IndexOutOfRange\<close>: "Invalid seqId", "Invalid blockId", "Invalid fileId";
  \<^item> \<open>InvalidArgument\<close>: "Invalid percentileCutoff value";
  \<^item> \<open>InvalidNumKeys\<close>: "Invalid number of valid keys";
  \<^item> \<open>InvalidRange\<close>: "Invalid seqStart or seqEnd in a call to FetchTargetSubsequence_";
  \<^item> \<open>InvariantViolation\<close>: "The targetId of the first and last seed does not match";
  \<^item> \<open>StdInvalidArgument\<close>, \<open>StdOutOfRange\<close>: the library exceptions
    \<open>std::invalid_argument\<close> and \<open>std::out_of_range\<close> (thrown by \<open>std::stoi\<close> and
    \<open>std::string::substr\<close>);
  \<^item> \<open>StdLengthError\<close>, \<open>StdBadAlloc\<close>: the library exceptions \<open>std::length_error\<close>
    and \<open>std::bad_alloc\<close> (thrown by \<open>std::vector::reserve\<close>);
  \<^item> \<open>OutOfBounds\<close>: a read past the end of a \<open>std::vector\<close> or \<open>std::string\<close>
    (undefined behaviour in C++, made a visible result here);
  \<^item> \<open>BufferOverflow\<close>: a write past the end of a character array (undefined behaviour);
  \<^item> \<open>SignedOverflow\<close>: an overflow of a signed sum (undefined behaviour), where the
    model marks it;
  \<^item> \<open>Uninitialized\<close>: a read of a variable that was never assigned (undefined
    behaviour).
\<close>

datatype error =
    ParseError
  | EmptyIndex
  | IndexOutOfRange
  | InvalidArgument
  | InvalidNumKeys
  | InvalidRange
  | InvariantViolation
  | StdInvalidArgument
  | StdOutOfRange
  | StdLengthError
  | StdBadAlloc
  | OutOfBounds
  | BufferOverflow
  | SignedOverflow
  | Uninitialized

text \<open>
  Integers. The fixed-width signed types of the code (\<open>int32_t\<close>, \<open>int64_t\<close>) are
  modelled by \<^typ>\<open>int\<close>: signed overflow is undefined behaviour in C++, so the model
  describes the executions in which no signed arithmetic overflows. Where the code itself
  fixes a width (masks and shifts into a 64-bit or 128-bit word, conversions of parsed text
  to a 32-bit or 64-bit field) the width is written out, with \<^typ>\<open>64 word\<close> and
  \<^typ>\<open>128 word\<close> or with explicit range tests. The types \<open>float\<close> and \<open>double\<close> are
  idealised as \<^typ>\<open>real\<close>: rounding is not modelled.
\<close>

definition is_int32 :: "int \<Rightarrow> bool" where
  "is_int32 x \<longleftrightarrow> - (2 ^ 31) \<le> x \<and> x < 2 ^ 31"

definition is_int64 :: "int \<Rightarrow> bool" where
  "is_int64 x \<longleftrightarrow> - (2 ^ 63) \<le> x \<and> x < 2 ^ 63"

text \<open>Conversion of a floating-point value to an integer type truncates towards zero.\<close>

definition trunc_to_int :: "real \<Rightarrow> int" where
  "trunc_to_int x = (if 0 \<le> x then \<lfloor>x\<rfloor> else \<lceil>x\<rceil>)"

section \<open>Loops\<close>

text \<open>A loop over a list (of indices, lines or items) that stops at the first exception.\<close>

fun for_loop :: "('i \<Rightarrow> 's \<Rightarrow> error + 's) \<Rightarrow> 'i list \<Rightarrow> 's \<Rightarrow> error + 's" where
  "for_loop body [] st = Inr st"
| "for_loop body (i # is) st =
     (case body i st of Inl e \<Rightarrow> Inl e | Inr st' \<Rightarrow> for_loop body is st')"


section \<open>SeedDB index cache: the data model\<close>

text \<open>
  The three line classes are declared in \<open>include/pacbio/seeddb/SeedDBWriter.h\<close>. A field name
  used by several classes (\<open>fileId\<close>, \<open>numBytes\<close>) is written with its record name where it
  is read.
\<close>

record SeedDBFileLine =
  fileId :: int
  filename :: string
  numSequences :: int
  numBytes :: int

record SeedDBSeedsLine =
  seqId :: int
  header :: string
  fileId :: int
  fileOffset :: int
  numBytes :: int
  numBases :: int
  numSeeds :: int

record SeedDBBlockLine =
  blockId :: int
  startSeqId :: int
  endSeqId :: int
  numBytes :: int

definition Span :: "SeedDBBlockLine \<Rightarrow> int" where
  "Span bl = endSeqId bl - startSeqId bl"

text \<open>The default member initialisers of the three classes.\<close>

definition SeedDBFileLine_default :: SeedDBFileLine where
  "SeedDBFileLine_default =
     \<lparr>SeedDBFileLine.fileId = 0, filename = [], numSequences = 0, SeedDBFileLine.numBytes = 0\<rparr>"

definition SeedDBSeedsLine_default :: SeedDBSeedsLine where
  "SeedDBSeedsLine_default =
     \<lparr>seqId = 0, header = [], fileId = 0, fileOffset = 0, SeedDBSeedsLine.numBytes = 0,
      numBases = 0, numSeeds = 0\<rparr>"

definition SeedDBBlockLine_default :: SeedDBBlockLine where
  "SeedDBBlockLine_default = \<lparr>blockId = 0, startSeqId = - 1, endSeqId = - 1, numBytes = 0\<rparr>"

text \<open>
  \<open>SeedDBParameters\<close> and \<open>SeedDBIndexCache\<close> are declared in headers that are not among the
  sources; their fields are the ones the code reads and writes (\<open>hpc\<close> and \<open>rc\<close> are the
  0/1 flags of the text format). The members \<open>indexParentFolder\<close> and \<open>indexBasename\<close>,
  which \<open>SplitPath\<close> derives from the file name and no operation below reads, are left out.
  The values of a default-constructed \<open>SeedDBParameters\<close> and of the default version string
  are parameters of the loaders.
\<close>

record SeedDBParameters =
  KmerSize :: int
  MinimizerWindow :: int
  UseHPC :: bool
  MaxHPCLen :: int
  UseRC :: bool

record SeedDBIndexCache =
  indexFilename :: string
  version :: string
  seedParams :: SeedDBParameters
  fileLines :: "SeedDBFileLine list"
  seedLines :: "SeedDBSeedsLine list"
  blockLines :: "SeedDBBlockLine list"

definition GetSeedsLine :: "SeedDBIndexCache \<Rightarrow> int \<Rightarrow> error + SeedDBSeedsLine" where
  "GetSeedsLine cache seqId' =
     (if seqId' < 0 \<or> seqId' \<ge> int (length (seedLines cache)) then Inl IndexOutOfRange
      else Inr (seedLines cache ! nat seqId'))"

definition GetBlockLine :: "SeedDBIndexCache \<Rightarrow> int \<Rightarrow> error + SeedDBBlockLine" where
  "GetBlockLine cache blockId' =
     (if blockId' < 0 \<or> blockId' \<ge> int (length (blockLines cache)) then Inl IndexOutOfRange
      else Inr (blockLines cache ! nat blockId'))"

definition GetFileLine :: "SeedDBIndexCache \<Rightarrow> int \<Rightarrow> error + SeedDBFileLine" where
  "GetFileLine cache fileId' =
     (if fileId' < 0 \<or> fileId' \<ge> int (length (fileLines cache)) then Inl IndexOutOfRange
      else Inr (fileLines cache ! nat fileId'))"

section \<open>SeedDB index cache: text input and output\<close>

subsection \<open>Characters and decimal numbers\<close>

abbreviation TAB :: char where "TAB \<equiv> CHR 0x09"
abbreviation NL :: char where "NL \<equiv> CHR 0x0A"

text \<open>\<open>isspace\<close> and \<open>isdigit\<close> of the C locale.\<close>

definition isspace :: "char \<Rightarrow> bool" where
  "isspace c \<longleftrightarrow> c = CHR '' '' \<or> c = CHR 0x09 \<or> c = CHR 0x0A \<or> c = CHR 0x0B \<or> c = CHR 0x0C
                 \<or> c = CHR 0x0D"

definition isdigit :: "char \<Rightarrow> bool" where
  "isdigit c \<longleftrightarrow> (48 :: nat) \<le> of_char c \<and> (of_char c :: nat) \<le> 57"

definition digit_char :: "nat \<Rightarrow> char" where
  "digit_char n = char_of (48 + n)"

definition digit_value :: "char \<Rightarrow> nat" where
  "digit_value c = of_char c - 48"

text \<open>The decimal digits of a natural number, as \<open>operator<<\<close> writes them.\<close>

function dec_nat :: "nat \<Rightarrow> string" where
  "dec_nat n = (if n < 10 then [digit_char n] else dec_nat (n div 10) @ [digit_char (n mod 10)])"
  by pat_completeness auto
termination
  by (relation "measure id") auto

text \<open>\<open>os << value\<close> for the signed integer types and for \<open>bool\<close> (without \<open>boolalpha\<close>).\<close>

definition show_int :: "int \<Rightarrow> string" where
  "show_int i = (if i < 0 then CHR ''-'' # dec_nat (nat (- i)) else dec_nat (nat i))"

definition show_bool :: "bool \<Rightarrow> string" where
  "show_bool b = (if b then ''1'' else ''0'')"

text \<open>The value of a sequence of decimal digits.\<close>

definition digits_value :: "string \<Rightarrow> nat" where
  "digits_value ds = foldl (\<lambda>a c. 10 * a + digit_value c) 0 ds"

text \<open>
  The common core of \<open>strtol\<close>, of the \<open>scanf\<close> conversions \<open>%d\<close> and \<open>%lld\<close> and of the
  \<open>num_get\<close> facet behind \<open>operator>>\<close>: skip leading white space, take an optional sign and
  the longest run of decimal digits; there is no number without a digit. The result is the
  mathematical value and the text after the number.
\<close>

definition scan_sign :: "string \<Rightarrow> bool \<times> string" where
  "scan_sign s =
     (case s of
        [] \<Rightarrow> (False, [])
      | c # r \<Rightarrow> if c = CHR ''-'' then (True, r) else if c = CHR ''+'' then (False, r)
                 else (False, s))"

definition scan_decimal :: "string \<Rightarrow> (int \<times> string) option" where
  "scan_decimal s =
     (case scan_sign (dropWhile isspace s) of
        (neg, s1) \<Rightarrow>
          (let ds = takeWhile isdigit s1 in
           if ds = [] then None
           else Some (if neg then - int (digits_value ds) else int (digits_value ds),
                      drop (length ds) s1)))"

text \<open>
  \<open>std::getline(stream, token, delim)\<close> called until it fails: every call takes the text up
  to the next delimiter and drops the delimiter; at the end of the text it fails. So a text
  that ends with the delimiter has no empty last piece.
\<close>

function getlines :: "char \<Rightarrow> string \<Rightarrow> string list" where
  "getlines delim s =
     (if s = [] then []
      else (let tok = takeWhile (\<lambda>c. c \<noteq> delim) s
            in tok # getlines delim (drop (length tok + 1) s)))"
  by pat_completeness auto
termination
  by (relation "measure (\<lambda>(delim, s). length s)") auto

text \<open>
  Modelled from the spec: \<open>PacBio::Utility::Split\<close> of the library pbcopper, whose code is
  not among the sources. It cuts a delimiter-separated list (the "comma-separated list of
  \<open>key=value\<close>") into its pieces; the library does it with the loop of \<open>std::getline\<close>
  above on a string stream.
\<close>

definition Split :: "string \<Rightarrow> char \<Rightarrow> string list" where
  "Split line delim = getlines delim line"

subsection \<open>Parsing the parameters\<close>

text \<open>
  \<open>std::stoi\<close>: \<open>strtol\<close> in base 10, \<open>std::invalid_argument\<close> when there is no number,
  \<open>std::out_of_range\<close> when the value is not an \<open>int\<close>; text after the number is ignored.
\<close>

definition stoi :: "string \<Rightarrow> error + int" where
  "stoi s =
     (case scan_decimal s of
        None \<Rightarrow> Inl StdInvalidArgument
      | Some (v, rest) \<Rightarrow> if is_int32 v then Inr v else Inl StdOutOfRange)"

text \<open>The body of the loop of \<open>ParseSeedDBParams\<close>, for one parameter.\<close>

definition ParseSeedDBParams_param :: "string \<Rightarrow> SeedDBParameters \<Rightarrow> error + SeedDBParameters" where
  "ParseSeedDBParams_param param ret =
     (if param = [] then Inr ret
      else
        let values = Split param CHR ''='' in
        if length values \<noteq> 2 then Inl ParseError
        else if values ! 0 = ''k'' then
          (case stoi (values ! 1) of Inl e \<Rightarrow> Inl e | Inr v \<Rightarrow> Inr (ret\<lparr>KmerSize := v\<rparr>))
        else if values ! 0 = ''w'' then
          (case stoi (values ! 1) of Inl e \<Rightarrow> Inl e | Inr v \<Rightarrow> Inr (ret\<lparr>MinimizerWindow := v\<rparr>))
        else if values ! 0 = ''hpc'' then
          (case stoi (values ! 1) of Inl e \<Rightarrow> Inl e | Inr v \<Rightarrow> Inr (ret\<lparr>UseHPC := (v \<noteq> 0)\<rparr>))
        else if values ! 0 = ''hpc_len'' then
          (case stoi (values ! 1) of Inl e \<Rightarrow> Inl e | Inr v \<Rightarrow> Inr (ret\<lparr>MaxHPCLen := v\<rparr>))
        else if values ! 0 = ''rc'' then
          (case stoi (values ! 1) of Inl e \<Rightarrow> Inl e | Inr v \<Rightarrow> Inr (ret\<lparr>UseRC := (v \<noteq> 0)\<rparr>))
        else Inr ret)"

text \<open>
  \<open>ParseSeedDBParams\<close>; \<open>dflt\<close> is the default-constructed \<open>SeedDBParameters\<close> that the
  function starts from.
\<close>

definition ParseSeedDBParams :: "SeedDBParameters \<Rightarrow> string \<Rightarrow> error + SeedDBParameters" where
  "ParseSeedDBParams dflt paramsStr =
     for_loop ParseSeedDBParams_param (Split paramsStr CHR '','') dflt"

subsection \<open>The loader that reads a \<open>FILE*\<close>\<close>

text \<open>
  POSIX \<open>getline\<close> called until it returns \<open>-1\<close>: every line keeps its newline character
  (the last line has none when the file does not end with one).
\<close>

function file_lines :: "string \<Rightarrow> string list" where
  "file_lines s =
     (if s = [] then []
      else (let l = takeWhile (\<lambda>c. c \<noteq> NL) s in
            if length l < length s then (l @ [NL]) # file_lines (drop (length l + 1) s)
            else [l]))"
  by pat_completeness auto
termination
  by (relation "measure length") auto

text \<open>
  The conversions of \<open>sscanf\<close>. \<open>%s\<close> skips white space and takes the longest run of other
  characters, at least one; \<open>None\<close> is the conversion that fails. The loader gives \<open>%s\<close> the
  array \<open>char buff[2000]\<close>: the token and its terminating zero are written there, so a token
  of 2000 characters or more is written past the end of the array, which is the result
  \<open>BufferOverflow\<close>. \<open>%d\<close> and \<open>%lld\<close> take a decimal number; for a number outside the type
  the C standard leaves the behaviour undefined, and the model does what glibc does: the
  value is clamped to 64 bits, and \<open>%d\<close> keeps its low 32 bits.
\<close>

definition sscanf_s :: "string \<Rightarrow> error + (string \<times> string) option" where
  "sscanf_s s =
     (let s1 = dropWhile isspace s;
          tok = takeWhile (\<lambda>c. \<not> isspace c) s1
      in if tok = [] then Inr None
         else if length tok \<ge> 2000 then Inl BufferOverflow
         else Inr (Some (tok, drop (length tok) s1)))"

definition clamp_int64 :: "int \<Rightarrow> int" where
  "clamp_int64 v = max (- (2 ^ 63)) (min (2 ^ 63 - 1) v)"

definition sscanf_lld :: "string \<Rightarrow> (int \<times> string) option" where
  "sscanf_lld s = map_option (\<lambda>(v, rest). (clamp_int64 v, rest)) (scan_decimal s)"

definition sscanf_d :: "string \<Rightarrow> (int \<times> string) option" where
  "sscanf_d s = map_option (\<lambda>(v, rest). (signed_take_bit 31 (clamp_int64 v), rest)) (scan_decimal s)"

text \<open>
  The three fixed-arity records. The conversions run from left to right and the call stops
  at the first one that fails; it returns the expected number of items exactly when every
  conversion succeeds, and then the result is the record (\<open>None\<close> is a smaller number of
  items, which the loader answers with "Problem parsing line").
\<close>

definition sscanf_FileLine :: "string \<Rightarrow> error + SeedDBFileLine option" where
  "sscanf_FileLine s =
     (case sscanf_d s of None \<Rightarrow> Inr None | Some (a, s1) \<Rightarrow>
      case sscanf_s s1 of Inl e \<Rightarrow> Inl e | Inr None \<Rightarrow> Inr None | Inr (Some (buff, s2)) \<Rightarrow>
      case sscanf_d s2 of None \<Rightarrow> Inr None | Some (c, s3) \<Rightarrow>
      case sscanf_lld s3 of None \<Rightarrow> Inr None | Some (e, s4) \<Rightarrow>
        Inr (Some \<lparr>SeedDBFileLine.fileId = a, filename = buff, numSequences = c,
                   SeedDBFileLine.numBytes = e\<rparr>))"

definition sscanf_SeedsLine :: "string \<Rightarrow> error + SeedDBSeedsLine option" where
  "sscanf_SeedsLine s =
     (case sscanf_d s of None \<Rightarrow> Inr None | Some (a, s1) \<Rightarrow>
      case sscanf_s s1 of Inl e \<Rightarrow> Inl e | Inr None \<Rightarrow> Inr None | Inr (Some (buff, s2)) \<Rightarrow>
      case sscanf_d s2 of None \<Rightarrow> Inr None | Some (c, s3) \<Rightarrow>
      case sscanf_lld s3 of None \<Rightarrow> Inr None | Some (e, s4) \<Rightarrow>
      case sscanf_lld s4 of None \<Rightarrow> Inr None | Some (f, s5) \<Rightarrow>
      case sscanf_d s5 of None \<Rightarrow> Inr None | Some (g, s6) \<Rightarrow>
      case sscanf_d s6 of None \<Rightarrow> Inr None | Some (h, s7) \<Rightarrow>
        Inr (Some \<lparr>seqId = a, header = buff, fileId = c, fileOffset = e,
                   SeedDBSeedsLine.numBytes = f, numBases = g, numSeeds = h\<rparr>))"

definition sscanf_BlockLine :: "string \<Rightarrow> SeedDBBlockLine option" where
  "sscanf_BlockLine s =
     (case sscanf_d s of None \<Rightarrow> None | Some (a, s1) \<Rightarrow>
      case sscanf_d s1 of None \<Rightarrow> None | Some (b, s2) \<Rightarrow>
      case sscanf_d s2 of None \<Rightarrow> None | Some (c, s3) \<Rightarrow>
      case sscanf_lld s3 of None \<Rightarrow> None | Some (e, s4) \<Rightarrow>
        Some \<lparr>blockId = a, startSeqId = b, endSeqId = c, numBytes = e\<rparr>)"

text \<open>
  \<open>cache->seedLines.reserve(totalNumSeqs)\<close>: the \<open>int32_t\<close> argument is converted to
  \<open>size_t\<close>, so a negative total is a request above \<open>max_size()\<close> and throws
  \<open>std::length_error\<close>; a total that is not negative is below \<open>max_size()\<close> (on a 64-bit
  platform), and the request throws \<open>std::bad_alloc\<close> when the allocator cannot serve it.
  The allocator is the parameter \<open>reserve_ok\<close>: whether a request for \<open>n\<close> lines succeeds.
  (Memory exhaustion anywhere else is not modelled.)
\<close>

definition reserve :: "(nat \<Rightarrow> bool) \<Rightarrow> int \<Rightarrow> error + unit" where
  "reserve reserve_ok n =
     (if n < 0 then Inl StdLengthError
      else if reserve_ok (nat n) then Inr ()
      else Inl StdBadAlloc)"

text \<open>
  The loop that should find the first character after the white space of a \<open>P\<close> line:
  \<open>for (offset = 1; offset < lineLen && (offset == ' ' || offset == '\t'); ++offset) {}\<close>.
  The test compares the index \<open>offset\<close> itself with the two character codes.
\<close>

function P_offset_loop :: "nat \<Rightarrow> nat \<Rightarrow> nat" where
  "P_offset_loop lineLen offset =
     (if offset < lineLen \<and> (offset = of_char CHR '' '' \<or> offset = of_char TAB)
      then P_offset_loop lineLen (offset + 1) else offset)"
  by pat_completeness auto
termination
  by (relation "measure (\<lambda>(lineLen, offset). lineLen - offset)") auto

text \<open>
  The body of the reading loop, for one line returned by \<open>getline\<close>; \<open>lineLen\<close> is the size
  of the buffer that \<open>getline\<close> allocated for the line. The text \<open>&line[1]\<close> is the tail of
  the line, and \<open>line + offset\<close> the line without its first \<open>offset\<close> characters. The state
  of the loop is the cache, the running total \<open>totalNumSeqs\<close> and the array \<open>buff\<close>, which
  is \<open>None\<close> until a conversion \<open>%s\<close> has written it.

  In the case \<open>V\<close> the statement \<open>cache->version = buff\<close> comes before the test of the number
  of items: when the conversion fails and nothing has written \<open>buff\<close> yet, it reads an
  uninitialised array. The sum \<open>totalNumSeqs += fl.numSequences\<close> is an \<open>int32_t\<close> sum. The
  cast \<open>static_cast<int32_t>(cache->seedLines.size())\<close> keeps the low 32 bits.
\<close>

definition LoadFILE_line ::
  "SeedDBParameters \<Rightarrow> (nat \<Rightarrow> bool) \<Rightarrow> nat \<Rightarrow> string
     \<Rightarrow> SeedDBIndexCache \<times> int \<times> string option
     \<Rightarrow> error + (SeedDBIndexCache \<times> int \<times> string option)" where
  "LoadFILE_line dflt reserve_ok lineLen line st =
     (case st of (cache, totalNumSeqs, buff) \<Rightarrow>
      if lineLen \<le> 0 then Inr (cache, totalNumSeqs, buff)
      else
        let token = hd line in
        if token = CHR ''V'' then
          (case sscanf_s (tl line) of
             Inl e \<Rightarrow> Inl e
           | Inr None \<Rightarrow> (if buff = None then Inl Uninitialized else Inl ParseError)
           | Inr (Some (tok, rest)) \<Rightarrow> Inr (cache\<lparr>version := tok\<rparr>, totalNumSeqs, Some tok))
        else if token = CHR ''P'' then
          (let offset = P_offset_loop lineLen 1 in
           case ParseSeedDBParams dflt (drop offset line) of
             Inl e \<Rightarrow> Inl e
           | Inr ps \<Rightarrow> Inr (cache\<lparr>seedParams := ps\<rparr>, totalNumSeqs, buff))
        else if token = CHR ''F'' then
          (case sscanf_FileLine (tl line) of
             Inl e \<Rightarrow> Inl e
           | Inr None \<Rightarrow> Inl ParseError
           | Inr (Some fl) \<Rightarrow>
               (let totalNumSeqs' = totalNumSeqs + numSequences fl in
                if \<not> is_int32 totalNumSeqs' then Inl SignedOverflow
                else
                  case reserve reserve_ok totalNumSeqs' of
                    Inl e \<Rightarrow> Inl e
                  | Inr u \<Rightarrow>
                      Inr (cache\<lparr>fileLines := fileLines cache @ [fl]\<rparr>, totalNumSeqs',
                           Some (filename fl))))
        else if token = CHR ''S'' then
          (case sscanf_SeedsLine (tl line) of
             Inl e \<Rightarrow> Inl e
           | Inr None \<Rightarrow> Inl ParseError
           | Inr (Some sl) \<Rightarrow>
               if seqId sl \<noteq> signed_take_bit 31 (int (length (seedLines cache)))
               then Inl ParseError
               else Inr (cache\<lparr>seedLines := seedLines cache @ [sl]\<rparr>, totalNumSeqs,
                         Some (header sl)))
        else if token = CHR ''B'' then
          (case sscanf_BlockLine (tl line) of
             None \<Rightarrow> Inl ParseError
           | Some bl \<Rightarrow>
               Inr (cache\<lparr>blockLines := blockLines cache @ [bl]\<rparr>, totalNumSeqs, buff))
        else Inl ParseError)"

text \<open>
  \<open>LoadSeedDBIndexCache(FILE*, indexFilename)\<close>. The parameters are the version string and
  the seed parameters of a default-constructed cache, the allocator behind \<open>reserve\<close>, the
  buffer size that \<open>getline\<close> reports for a line, and the contents of the file. After the
  loop the cache is returned as it is.
\<close>

definition LoadSeedDBIndexCache_FILE ::
  "string \<Rightarrow> SeedDBParameters \<Rightarrow> (nat \<Rightarrow> bool) \<Rightarrow> (string \<Rightarrow> nat) \<Rightarrow> string \<Rightarrow> string
     \<Rightarrow> error + SeedDBIndexCache" where
  "LoadSeedDBIndexCache_FILE dfltVersion dflt reserve_ok bufsize fpIn indexFilename' =
     (let cache = \<lparr>indexFilename = indexFilename', version = dfltVersion, seedParams = dflt,
                   fileLines = [], seedLines = [], blockLines = []\<rparr>
      in case for_loop (\<lambda>line. LoadFILE_line dflt reserve_ok (bufsize line) line)
                (file_lines fpIn) (cache, 0, None) of
           Inl e \<Rightarrow> Inl e
         | Inr (cache', totalNumSeqs, buff) \<Rightarrow> Inr cache')"

subsection \<open>The loader that reads a stream\<close>

text \<open>
  A \<open>std::istringstream\<close> over one line: the text not yet read and the fail bit. Every
  extraction returns the value to assign, or \<open>None\<close> when it leaves the variable as it is,
  and the new stream. Every extraction begins with the sentry, which skips the white space:
  when the stream has failed, or when nothing is left after the white space, the sentry
  fails, the fail bit is set and the variable is left as it is.
\<close>

record istringstream =
  buf :: string
  failbit :: bool

text \<open>\<open>iss >> c\<close> for a \<open>char\<close>: the first character after the white space.\<close>

definition get_char :: "istringstream \<Rightarrow> char option \<times> istringstream" where
  "get_char iss =
     (if failbit iss then (None, iss)
      else case dropWhile isspace (buf iss) of
             [] \<Rightarrow> (None, \<lparr>buf = [], failbit = True\<rparr>)
           | c # r \<Rightarrow> (Some c, \<lparr>buf = r, failbit = False\<rparr>))"

text \<open>
  \<open>iss >> str\<close> for a \<open>std::string\<close>: after the sentry the string is erased and takes the
  characters up to the next white space (there is at least one).
\<close>

definition get_string :: "istringstream \<Rightarrow> string option \<times> istringstream" where
  "get_string iss =
     (if failbit iss then (None, iss)
      else
        let s1 = dropWhile isspace (buf iss) in
        if s1 = [] then (None, \<lparr>buf = [], failbit = True\<rparr>)
        else
          let tok = takeWhile (\<lambda>c. \<not> isspace c) s1
          in (Some tok, \<lparr>buf = drop (length tok) s1, failbit = False\<rparr>))"

text \<open>
  \<open>iss >> n\<close> for a signed integer type with the range \<open>[lo, hi]\<close>: after the sentry, text
  that is not a number gives the value 0 and sets the fail bit; a number outside the range
  gives the nearest bound and sets the fail bit. (A failed stream is not read again, so the
  text that a failed conversion leaves is of no consequence.)
\<close>

definition get_int :: "int \<Rightarrow> int \<Rightarrow> istringstream \<Rightarrow> int option \<times> istringstream" where
  "get_int lo hi iss =
     (if failbit iss then (None, iss)
      else
        let s1 = dropWhile isspace (buf iss) in
        if s1 = [] then (None, \<lparr>buf = [], failbit = True\<rparr>)
        else
          case scan_decimal s1 of
            None \<Rightarrow> (Some 0, \<lparr>buf = s1, failbit = True\<rparr>)
          | Some (v, rest) \<Rightarrow>
              if v < lo then (Some lo, \<lparr>buf = rest, failbit = True\<rparr>)
              else if v > hi then (Some hi, \<lparr>buf = rest, failbit = True\<rparr>)
              else (Some v, \<lparr>buf = rest, failbit = False\<rparr>))"

definition get_int32 :: "istringstream \<Rightarrow> int option \<times> istringstream" where
  "get_int32 = get_int (- (2 ^ 31)) (2 ^ 31 - 1)"

definition get_int64 :: "istringstream \<Rightarrow> int option \<times> istringstream" where
  "get_int64 = get_int (- (2 ^ 63)) (2 ^ 63 - 1)"

text \<open>The assignment of an extracted value to a variable with the old value \<open>old\<close>.\<close>

definition assign :: "'a option \<Rightarrow> 'a \<Rightarrow> 'a" where
  "assign v old = (case v of None \<Rightarrow> old | Some x \<Rightarrow> x)"

text \<open>The chains of extractions into a fresh record of each kind.\<close>

definition get_FileLine :: "istringstream \<Rightarrow> SeedDBFileLine" where
  "get_FileLine iss0 =
     (let fl = SeedDBFileLine_default;
          (a, iss1) = get_int32 iss0;
          (b, iss2) = get_string iss1;
          (c, iss3) = get_int32 iss2;
          (e, iss4) = get_int64 iss3
      in \<lparr>SeedDBFileLine.fileId = assign a (SeedDBFileLine.fileId fl),
          filename = assign b (filename fl),
          numSequences = assign c (numSequences fl),
          SeedDBFileLine.numBytes = assign e (SeedDBFileLine.numBytes fl)\<rparr>)"

definition get_SeedsLine :: "istringstream \<Rightarrow> SeedDBSeedsLine" where
  "get_SeedsLine iss0 =
     (let sl = SeedDBSeedsLine_default;
          (a, iss1) = get_int32 iss0;
          (b, iss2) = get_string iss1;
          (c, iss3) = get_int32 iss2;
          (e, iss4) = get_int64 iss3;
          (f, iss5) = get_int64 iss4;
          (g, iss6) = get_int32 iss5;
          (h, iss7) = get_int32 iss6
      in \<lparr>seqId = assign a (seqId sl), header = assign b (header sl),
          fileId = assign c (fileId sl), fileOffset = assign e (fileOffset sl),
          SeedDBSeedsLine.numBytes = assign f (SeedDBSeedsLine.numBytes sl),
          numBases = assign g (numBases sl), numSeeds = assign h (numSeeds sl)\<rparr>)"

definition get_BlockLine :: "istringstream \<Rightarrow> SeedDBBlockLine" where
  "get_BlockLine iss0 =
     (let bl = SeedDBBlockLine_default;
          (a, iss1) = get_int32 iss0;
          (b, iss2) = get_int32 iss1;
          (c, iss3) = get_int32 iss2;
          (e, iss4) = get_int64 iss3
      in \<lparr>blockId = assign a (blockId bl), startSeqId = assign b (startSeqId bl),
          endSeqId = assign c (endSeqId bl), numBytes = assign e (numBytes bl)\<rparr>)"

text \<open>
  The body of the reading loop for one line. The variable \<open>token\<close> is declared before the
  loop and never initialised: it is \<open>None\<close> until the first extraction that succeeds, it
  keeps its value on a line of white space only, and the \<open>switch\<close> on it before it has a
  value is the result \<open>Uninitialized\<close>. The cast
  \<open>static_cast<int32_t>(cache->seedLines.size())\<close> keeps the low 32 bits.
\<close>

definition LoadStream_line ::
  "SeedDBParameters \<Rightarrow> string \<Rightarrow> SeedDBIndexCache \<times> char option
     \<Rightarrow> error + (SeedDBIndexCache \<times> char option)" where
  "LoadStream_line dflt line st =
     (case st of (cache, token0) \<Rightarrow>
      if line = [] then Inr (cache, token0)
      else
        case get_char \<lparr>buf = line, failbit = False\<rparr> of (t, iss) \<Rightarrow>
        case (case t of None \<Rightarrow> token0 | Some c \<Rightarrow> Some c) of
          None \<Rightarrow> Inl Uninitialized
        | Some token \<Rightarrow>
            if token = CHR ''V'' then
              Inr (cache\<lparr>version := assign (fst (get_string iss)) (version cache)\<rparr>, Some token)
            else if token = CHR ''P'' then
              (let paramsStr = assign (fst (get_string iss)) [] in
               case ParseSeedDBParams dflt paramsStr of
                 Inl e \<Rightarrow> Inl e
               | Inr ps \<Rightarrow> Inr (cache\<lparr>seedParams := ps\<rparr>, Some token))
            else if token = CHR ''F'' then
              Inr (cache\<lparr>fileLines := fileLines cache @ [get_FileLine iss]\<rparr>, Some token)
            else if token = CHR ''S'' then
              (let sl = get_SeedsLine iss in
               if seqId sl \<noteq> signed_take_bit 31 (int (length (seedLines cache)))
               then Inl ParseError
               else Inr (cache\<lparr>seedLines := seedLines cache @ [sl]\<rparr>, Some token))
            else if token = CHR ''B'' then
              Inr (cache\<lparr>blockLines := blockLines cache @ [get_BlockLine iss]\<rparr>, Some token)
            else Inl ParseError)"

text \<open>\<open>LoadSeedDBIndexCache(std::istream&, indexFilename)\<close>, with the contents of the stream.\<close>

definition LoadSeedDBIndexCache_stream ::
  "string \<Rightarrow> SeedDBParameters \<Rightarrow> string \<Rightarrow> string \<Rightarrow> error + SeedDBIndexCache" where
  "LoadSeedDBIndexCache_stream dfltVersion dflt is indexFilename' =
     (let cache = \<lparr>indexFilename = indexFilename', version = dfltVersion, seedParams = dflt,
                   fileLines = [], seedLines = [], blockLines = []\<rparr>
      in case for_loop (LoadStream_line dflt) (getlines NL is) (cache, None) of
           Inl e \<Rightarrow> Inl e
         | Inr (cache', token) \<Rightarrow>
             if seedLines cache' = [] then Inl EmptyIndex else Inr cache')"

subsection \<open>The serializer\<close>

text \<open>
  \<open>operator<<(std::ostream&, const SeedDBIndexCache&)\<close>: the stream is the text written so
  far, and every \<open>os << x\<close> appends the text of \<open>x\<close>.
\<close>

definition emit_FileLine :: "string \<Rightarrow> SeedDBFileLine \<Rightarrow> string" where
  "emit_FileLine os fl =
     os @ ''F'' @ [TAB] @ show_int (SeedDBFileLine.fileId fl) @ [TAB] @ filename fl @ [TAB]
        @ show_int (numSequences fl) @ [TAB] @ show_int (SeedDBFileLine.numBytes fl) @ [NL]"

definition emit_SeedsLine :: "string \<Rightarrow> SeedDBSeedsLine \<Rightarrow> string" where
  "emit_SeedsLine os sl =
     os @ ''S'' @ [TAB] @ show_int (seqId sl) @ [TAB] @ header sl @ [TAB] @ show_int (fileId sl)
        @ [TAB] @ show_int (fileOffset sl) @ [TAB] @ show_int (SeedDBSeedsLine.numBytes sl)
        @ [TAB] @ show_int (numBases sl) @ [TAB] @ show_int (numSeeds sl) @ [NL]"

definition emit_BlockLine :: "string \<Rightarrow> SeedDBBlockLine \<Rightarrow> string" where
  "emit_BlockLine os bl =
     os @ ''B'' @ [TAB] @ show_int (blockId bl) @ [TAB] @ show_int (startSeqId bl) @ [TAB]
        @ show_int (endSeqId bl) @ [TAB] @ show_int (numBytes bl) @ [NL]"

definition emit_SeedDBIndexCache :: "string \<Rightarrow> SeedDBIndexCache \<Rightarrow> string" where
  "emit_SeedDBIndexCache os0 r =
     (let os1 = os0 @ ''V'' @ [TAB] @ version r @ [NL];
          os2 = os1 @ ''P'' @ [TAB] @ ''k='' @ show_int (KmerSize (seedParams r))
                  @ '',w='' @ show_int (MinimizerWindow (seedParams r))
                  @ '',hpc='' @ show_bool (UseHPC (seedParams r))
                  @ '',hpc_len='' @ show_int (MaxHPCLen (seedParams r))
                  @ '',rc='' @ show_bool (UseRC (seedParams r)) @ [NL];
          os3 = foldl emit_FileLine os2 (fileLines r);
          os4 = foldl emit_SeedsLine os3 (seedLines r);
          os5 = foldl emit_BlockLine os4 (blockLines r)
      in os5)"

subsection \<open>The text format in the words of the specification\<close>

text \<open>
  The emitter "writes \<open>V\<close>, then exactly one \<open>P\<close> line in a canonical order
  (\<open>k,w,hpc,hpc_len,rc\<close>), then all \<open>F\<close>, then all \<open>S\<close>, then all \<open>B\<close>, each on its own line,
  fields tab-separated". These definitions follow that sentence; the serializer above follows
  the source.
\<close>

fun join :: "char \<Rightarrow> string list \<Rightarrow> string" where
  "join d [] = []"
| "join d [x] = x"
| "join d (x # y # ys) = x @ d # join d (y # ys)"

definition spec_params_text :: "SeedDBParameters \<Rightarrow> string" where
  "spec_params_text ps =
     join CHR '',''
       [''k='' @ show_int (KmerSize ps), ''w='' @ show_int (MinimizerWindow ps),
        ''hpc='' @ show_bool (UseHPC ps), ''hpc_len='' @ show_int (MaxHPCLen ps),
        ''rc='' @ show_bool (UseRC ps)]"

definition spec_V_line :: "SeedDBIndexCache \<Rightarrow> string" where
  "spec_V_line c = join TAB [''V'', version c]"

definition spec_P_line :: "SeedDBIndexCache \<Rightarrow> string" where
  "spec_P_line c = join TAB [''P'', spec_params_text (seedParams c)]"

definition spec_F_line :: "SeedDBFileLine \<Rightarrow> string" where
  "spec_F_line fl =
     join TAB [''F'', show_int (SeedDBFileLine.fileId fl), filename fl,
               show_int (numSequences fl), show_int (SeedDBFileLine.numBytes fl)]"

definition spec_S_line :: "SeedDBSeedsLine \<Rightarrow> string" where
  "spec_S_line sl =
     join TAB [''S'', show_int (seqId sl), header sl, show_int (fileId sl),
               show_int (fileOffset sl), show_int (SeedDBSeedsLine.numBytes sl),
               show_int (numBases sl), show_int (numSeeds sl)]"

definition spec_B_line :: "SeedDBBlockLine \<Rightarrow> string" where
  "spec_B_line bl =
     join TAB [''B'', show_int (blockId bl), show_int (startSeqId bl), show_int (endSeqId bl),
               show_int (numBytes bl)]"

definition spec_index_text :: "SeedDBIndexCache \<Rightarrow> string" where
  "spec_index_text c =
     concat (map (\<lambda>l. l @ [NL])
       ([spec_V_line c, spec_P_line c] @ map spec_F_line (fileLines c)
          @ map spec_S_line (seedLines c) @ map spec_B_line (blockLines c)))"

text \<open>
  The caches whose text can be read back: the integer fields have values of their C++
  types, the three kinds of strings are non-empty and free of white space (the format
  separates fields by white space), and every sequence id is the ordinal of its line.
\<close>

definition token_ok :: "string \<Rightarrow> bool" where
  "token_ok s \<longleftrightarrow> s \<noteq> [] \<and> (\<forall>c \<in> set s. \<not> isspace c)"

definition wf_Params :: "SeedDBParameters \<Rightarrow> bool" where
  "wf_Params ps \<longleftrightarrow> is_int32 (KmerSize ps) \<and> is_int32 (MinimizerWindow ps) \<and> is_int32 (MaxHPCLen ps)"

definition wf_FileLine :: "SeedDBFileLine \<Rightarrow> bool" where
  "wf_FileLine fl \<longleftrightarrow>
     is_int32 (SeedDBFileLine.fileId fl) \<and> token_ok (filename fl) \<and> is_int32 (numSequences fl) \<and>
     is_int64 (SeedDBFileLine.numBytes fl)"

definition wf_SeedsLine :: "SeedDBSeedsLine \<Rightarrow> bool" where
  "wf_SeedsLine sl \<longleftrightarrow>
     is_int32 (seqId sl) \<and> token_ok (header sl) \<and> is_int32 (fileId sl) \<and> is_int64 (fileOffset sl) \<and>
     is_int64 (SeedDBSeedsLine.numBytes sl) \<and> is_int32 (numBases sl) \<and> is_int32 (numSeeds sl)"

definition wf_BlockLine :: "SeedDBBlockLine \<Rightarrow> bool" where
  "wf_BlockLine bl \<longleftrightarrow>
     is_int32 (blockId bl) \<and> is_int32 (startSeqId bl) \<and> is_int32 (endSeqId bl) \<and>
     is_int64 (numBytes bl)"

definition canonical_cache :: "SeedDBIndexCache \<Rightarrow> bool" where
  "canonical_cache c \<longleftrightarrow>
     token_ok (version c) \<and> wf_Params (seedParams c) \<and>
     list_all wf_FileLine (fileLines c) \<and> list_all wf_SeedsLine (seedLines c) \<and>
     list_all wf_BlockLine (blockLines c) \<and>
     (\<forall>i < length (seedLines c). seqId (seedLines c ! i) = int i)"

text \<open>
  The loader that reads a \<open>FILE*\<close> needs more of the text: the three kinds of strings
  must fit the array \<open>buff\<close> with their terminating zero, and every running total of the
  \<open>numSequences\<close> of the \<open>F\<close> lines must be an \<open>int32_t\<close> value that is not negative and
  that the allocator serves.
\<close>

definition fits_buff :: "SeedDBIndexCache \<Rightarrow> bool" where
  "fits_buff c \<longleftrightarrow>
     length (version c) < 2000 \<and> list_all (\<lambda>fl. length (filename fl) < 2000) (fileLines c) \<and>
     list_all (\<lambda>sl. length (header sl) < 2000) (seedLines c)"

fun totals_ok :: "(nat \<Rightarrow> bool) \<Rightarrow> int \<Rightarrow> SeedDBFileLine list \<Rightarrow> bool" where
  "totals_ok reserve_ok t [] = True"
| "totals_ok reserve_ok t (fl # fls) =
     (0 \<le> t + numSequences fl \<and> is_int32 (t + numSequences fl) \<and>
      reserve_ok (nat (t + numSequences fl)) \<and> totals_ok reserve_ok (t + numSequences fl) fls)"

section \<open>Mapper: sequences, seed hits and overlaps\<close>

text \<open>
  \<open>FastaSequenceId\<close> (declared in \<open>seqdb/FastaSequenceId.h\<close>): a named sequence with its
  bases and its numeric id; the code reads it through \<open>Name()\<close>, \<open>Bases()\<close> and
  \<open>Id()\<close>.
\<close>

record FastaSequenceId =
  Name :: string
  Bases :: string
  SeqId :: int

text \<open>
  \<open>SeedHit\<close>: the five fields in the order of the aggregate initialiser
  \<open>SeedHit hit{seqID, isRev, targetPos, 0, queryPos}\<close> of \<open>SeedIndex::CollectHits\<close>.
\<close>

record SeedHit =
  targetId :: int
  targetRev :: bool
  targetPos :: int
  flags :: int
  queryPos :: int

definition Diagonal :: "SeedHit \<Rightarrow> int" where
  "Diagonal sh = targetPos sh - queryPos sh"

text \<open>
  \<open>Overlap\<close>, with the fields in the argument order of \<open>createOverlap\<close> as called in
  \<open>Mapper::MakeOverlap_\<close>.
\<close>

record Overlap =
  Aid :: int
  Bid :: int
  Score :: real
  Identity :: real
  Arev :: bool
  Astart :: int
  Aend :: int
  Alen :: int
  Brev :: bool
  Bstart :: int
  Bend :: int
  Blen :: int
  EditDistance :: int
  NumSeeds :: int

definition createOverlap ::
  "int \<Rightarrow> int \<Rightarrow> real \<Rightarrow> real \<Rightarrow> bool \<Rightarrow> int \<Rightarrow> int \<Rightarrow> int \<Rightarrow> bool \<Rightarrow> int \<Rightarrow> int \<Rightarrow> int
     \<Rightarrow> int \<Rightarrow> int \<Rightarrow> Overlap" where
  "createOverlap aid bid score identity arev astart aend alen brev bstart bend blen editDist
       numSeeds' =
     \<lparr>Aid = aid, Bid = bid, Score = score, Identity = identity, Arev = arev, Astart = astart,
      Aend = aend, Alen = alen, Brev = brev, Bstart = bstart, Bend = bend, Blen = blen,
      EditDistance = editDist, NumSeeds = numSeeds'\<rparr>"

definition ASpan :: "Overlap \<Rightarrow> int" where
  "ASpan ovl = Aend ovl - Astart ovl"

definition BSpan :: "Overlap \<Rightarrow> int" where
  "BSpan ovl = Bend ovl - Bstart ovl"

subsection \<open>Fetching a target subsequence\<close>

text \<open>
  \<open>std::string::substr(pos, n)\<close> throws \<open>std::out_of_range\<close> when \<open>pos\<close> exceeds the size.
\<close>

definition substr :: "string \<Rightarrow> nat \<Rightarrow> nat \<Rightarrow> error + string" where
  "substr s pos n = (if pos > length s then Inl StdOutOfRange else Inr (take n (drop pos s)))"

text \<open>
  \<open>Mapper::FetchTargetSubsequence_\<close>. The helper \<open>ReverseComplement\<close> of
  \<open>pacbio/seqdb/Util.h\<close> is the parameter \<open>revcmp\<close>.
\<close>

definition FetchTargetSubsequence ::
  "(string \<Rightarrow> int \<Rightarrow> int \<Rightarrow> string) \<Rightarrow> FastaSequenceId \<Rightarrow> int \<Rightarrow> int \<Rightarrow> bool
     \<Rightarrow> error + string" where
  "FetchTargetSubsequence revcmp targetSeq seqStart seqEnd revCmp =
     (let seqLen = int (length (Bases targetSeq)) in
      if seqEnd = seqStart then Inr []
      else if seqStart < 0 \<or> seqEnd < 0 \<or> seqStart > seqLen \<or> seqEnd > seqLen
              \<or> seqEnd < seqStart
      then Inl InvalidRange
      else
        let seqEnd' = (if seqEnd = 0 then seqLen else seqEnd) in
        if revCmp then Inr (revcmp (Bases targetSeq) seqStart seqEnd')
        else substr (Bases targetSeq) (nat seqStart) (nat (seqEnd' - seqStart)))"

text \<open>
  Modelled from the spec: \<open>ReverseComplement(bases, start, end)\<close>, whose source file is not
  among the sources; the reverse complement of the bases in \<open>[start, end)\<close>. It instantiates
  the parameter \<open>revcmp\<close> in the concrete examples only.
\<close>

definition complement_base :: "char \<Rightarrow> char" where
  "complement_base c =
     (if c = CHR ''A'' then CHR ''T'' else if c = CHR ''T'' then CHR ''A''
      else if c = CHR ''C'' then CHR ''G'' else if c = CHR ''G'' then CHR ''C'' else CHR ''N'')"

definition ReverseComplement :: "string \<Rightarrow> int \<Rightarrow> int \<Rightarrow> string" where
  "ReverseComplement bases start end =
     rev (map complement_base (take (nat (end - start)) (drop (nat start) bases)))"

subsection \<open>Sorting the hits\<close>

text \<open>
  Modelled from the spec: the constant \<open>MASK_32bit\<close> of a header that is not among the
  sources, the mask of a 32-bit slot.
\<close>

definition MASK_32bit :: "128 word" where
  "MASK_32bit = 0xFFFFFFFF"

text \<open>
  \<open>Mapper::PackSeedHitWithDiagonalTo128_\<close>. \<open>static_cast<__int128>\<close> of a signed value
  extends its sign, which is what \<^const>\<open>word_of_int\<close> into 128 bits does; the shifts and
  the mask work on the 128-bit word.
\<close>

definition PackSeedHitWithDiagonalTo128 :: "SeedHit \<Rightarrow> 128 word" where
  "PackSeedHitWithDiagonalTo128 sh =
     (let diag = targetPos sh - queryPos sh in
      push_bit 97 (word_of_int (targetId sh) AND MASK_32bit) OR
      push_bit 96 (word_of_int (if targetRev sh then 1 else 0) AND MASK_32bit) OR
      push_bit 64 (word_of_int diag AND MASK_32bit) OR
      push_bit 32 (word_of_int (targetPos sh) AND MASK_32bit) OR
      (word_of_int (queryPos sh) AND MASK_32bit))"

text \<open>
  The hit sort of \<open>Mapper::Map\<close>: \<open>std::sort\<close> with the comparison
  \<open>Pack(a) < Pack(b)\<close> on the signed type \<open>__int128\<close>. The order of hits with equal
  packed values is unspecified in C++; this sort keeps their input order.
\<close>

definition sort_hits :: "SeedHit list \<Rightarrow> SeedHit list" where
  "sort_hits hits = sort_key (\<lambda>sh. sint (PackSeedHitWithDiagonalTo128 sh)) hits"

subsection \<open>Chaining on diagonals\<close>

text \<open>\<open>Mapper::MakeOverlap_\<close>. A read outside \<open>sortedHits\<close> is the result \<open>OutOfBounds\<close>.\<close>

definition MakeOverlap ::
  "SeedHit list \<Rightarrow> FastaSequenceId \<Rightarrow> SeedDBIndexCache \<Rightarrow> int \<Rightarrow> int \<Rightarrow> int \<Rightarrow> int
     \<Rightarrow> error + Overlap" where
  "MakeOverlap sortedHits querySeq indexCache beginId endId minTargetPosId maxTargetPosId =
     (if minTargetPosId < 0 \<or> minTargetPosId \<ge> int (length sortedHits)
         \<or> maxTargetPosId < 0 \<or> maxTargetPosId \<ge> int (length sortedHits)
      then Inl OutOfBounds
      else
        let beginHit = sortedHits ! nat minTargetPosId;
            endHit = sortedHits ! nat maxTargetPosId;
            targetId' = targetId beginHit;
            numSeeds' = endId - beginId
        in
        if targetId endHit \<noteq> targetId beginHit then Inl InvariantViolation
        else
          let score = real_of_int numSeeds';
              identity = 0;
              editDist = - 1
          in case GetSeedsLine indexCache targetId' of
               Inl e \<Rightarrow> Inl e
             | Inr sl \<Rightarrow>
                 (let targetLen = numBases sl
                  in Inr (createOverlap (SeqId querySeq) targetId' score identity False
                            (queryPos beginHit) (queryPos endHit)
                            (int (length (Bases querySeq))) (targetRev beginHit)
                            (targetPos beginHit) (targetPos endHit) targetLen editDist
                            numSeeds')))"

text \<open>
  The combination of \<open>targetPos\<close> and \<open>queryPos\<close> in one unsigned 64-bit value:
  \<open>(static_cast<uint64_t>(targetPos) << 32) | static_cast<uint64_t>(queryPos)\<close>.
\<close>

definition TargetQueryPosCombo :: "SeedHit \<Rightarrow> 64 word" where
  "TargetQueryPosCombo sh = push_bit 32 (word_of_int (targetPos sh)) OR word_of_int (queryPos sh)"

text \<open>The local variables of \<open>Mapper::FormDiagonalAnchors_\<close> that live across iterations.\<close>

record ChainState =
  overlaps :: "Overlap list"
  beginId :: int
  beginDiag :: int
  minTargetQueryPosCombo :: "64 word"
  maxTargetQueryPosCombo :: "64 word"
  minPosId :: int
  maxPosId :: int

text \<open>The admission test, written twice in the source (in the loop and after it).\<close>

definition admit_overlap :: "Overlap \<Rightarrow> int \<Rightarrow> int \<Rightarrow> bool \<Rightarrow> bool \<Rightarrow> bool" where
  "admit_overlap ovl minNumSeeds minChainSpan skipSelfHits skipSymmetricOverlaps \<longleftrightarrow>
     NumSeeds ovl \<ge> minNumSeeds \<and> ASpan ovl > minChainSpan \<and> BSpan ovl > minChainSpan \<and>
     (skipSelfHits = False \<or> (skipSelfHits \<and> Bid ovl \<noteq> Aid ovl)) \<and>
     (skipSymmetricOverlaps = False \<or> (skipSymmetricOverlaps \<and> Bid ovl < Aid ovl))"

text \<open>One iteration of the \<open>for\<close> loop, for the index \<open>i\<close>.\<close>

definition chain_step ::
  "SeedHit list \<Rightarrow> FastaSequenceId \<Rightarrow> SeedDBIndexCache \<Rightarrow> int \<Rightarrow> int \<Rightarrow> int \<Rightarrow> bool \<Rightarrow> bool
     \<Rightarrow> int \<Rightarrow> ChainState \<Rightarrow> error + ChainState" where
  "chain_step sortedHits querySeq indexCache chainBandwidth minNumSeeds minChainSpan skipSelfHits
       skipSymmetricOverlaps i st =
     (let prevHit = sortedHits ! nat (beginId st);
          currHit = sortedHits ! nat i;
          currDiag = Diagonal currHit;
          diagDiff = \<bar>currDiag - beginDiag st\<bar>;
          targetQueryPosCombo = TargetQueryPosCombo (sortedHits ! nat i)
      in case
           (if targetId currHit \<noteq> targetId prevHit \<or> targetRev currHit \<noteq> targetRev prevHit
               \<or> diagDiff > chainBandwidth
            then
              (case MakeOverlap sortedHits querySeq indexCache (beginId st) i (minPosId st)
                      (maxPosId st) of
                 Inl e \<Rightarrow> Inl e
               | Inr ovl \<Rightarrow>
                   Inr (st\<lparr>beginId := i, beginDiag := currDiag,
                           overlaps :=
                             (if admit_overlap ovl minNumSeeds minChainSpan skipSelfHits
                                   skipSymmetricOverlaps
                              then overlaps st @ [ovl] else overlaps st),
                           minPosId := i, maxPosId := i,
                           minTargetQueryPosCombo := targetQueryPosCombo,
                           maxTargetQueryPosCombo := targetQueryPosCombo\<rparr>))
            else Inr st) of
           Inl e \<Rightarrow> Inl e
         | Inr st1 \<Rightarrow>
             (let st2 = (if targetQueryPosCombo < minTargetQueryPosCombo st1
                         then st1\<lparr>minPosId := i, minTargetQueryPosCombo := targetQueryPosCombo\<rparr>
                         else st1);
                  st3 = (if targetQueryPosCombo > maxTargetQueryPosCombo st2
                         then st2\<lparr>maxPosId := i, maxTargetQueryPosCombo := targetQueryPosCombo\<rparr>
                         else st2)
              in Inr st3))"

text \<open>\<open>Mapper::FormDiagonalAnchors_\<close>.\<close>

definition FormDiagonalAnchors ::
  "SeedHit list \<Rightarrow> FastaSequenceId \<Rightarrow> SeedDBIndexCache \<Rightarrow> int \<Rightarrow> int \<Rightarrow> int \<Rightarrow> bool \<Rightarrow> bool
     \<Rightarrow> error + Overlap list" where
  "FormDiagonalAnchors sortedHits querySeq indexCache chainBandwidth minNumSeeds minChainSpan
       skipSelfHits skipSymmetricOverlaps =
     (if sortedHits = [] then Inr []
      else
        let numHits = int (length sortedHits);
            st0 = \<lparr>overlaps = [], beginId = 0, beginDiag = Diagonal (sortedHits ! 0),
                   minTargetQueryPosCombo = TargetQueryPosCombo (sortedHits ! 0),
                   maxTargetQueryPosCombo = TargetQueryPosCombo (sortedHits ! 0),
                   minPosId = 0, maxPosId = 0\<rparr>
        in case for_loop
                  (chain_step sortedHits querySeq indexCache chainBandwidth minNumSeeds
                     minChainSpan skipSelfHits skipSymmetricOverlaps)
                  (map int [0..<length sortedHits]) st0 of
             Inl e \<Rightarrow> Inl e
           | Inr st \<Rightarrow>
               if numHits - beginId st > 0
               then
                 (case MakeOverlap sortedHits querySeq indexCache (beginId st) numHits
                         (minPosId st) (maxPosId st) of
                    Inl e \<Rightarrow> Inl e
                  | Inr ovl \<Rightarrow>
                      if admit_overlap ovl minNumSeeds minChainSpan skipSelfHits
                           skipSymmetricOverlaps
                      then Inr (overlaps st @ [ovl]) else Inr (overlaps st))
               else Inr (overlaps st))"

subsection \<open>Banded alignment of one overlap\<close>

text \<open>
  The banded edit-distance routine \<open>SESDistanceBanded\<close> is an external black box: it is the
  parameter \<open>ses\<close>, called with the query text from the start pointer on, the query span,
  the target text, the target span, \<open>dMax\<close> and the bandwidth.
\<close>

record SesResults =
  lastQueryPos :: int
  lastTargetPos :: int
  diffs :: int

type_synonym ses_fn = "string \<Rightarrow> int \<Rightarrow> string \<Rightarrow> int \<Rightarrow> int \<Rightarrow> int \<Rightarrow> SesResults"

text \<open>The forward pass of \<open>Mapper::AlignOverlap_\<close> (the first block of the function).\<close>

definition AlignOverlap_forward ::
  "ses_fn \<Rightarrow> (string \<Rightarrow> int \<Rightarrow> int \<Rightarrow> string) \<Rightarrow> FastaSequenceId \<Rightarrow> FastaSequenceId \<Rightarrow> Overlap
     \<Rightarrow> real \<Rightarrow> real \<Rightarrow> error + (Overlap \<times> int)" where
  "AlignOverlap_forward ses revcmp targetSeq querySeq ovl alignBandwidth alignMaxDiff =
     (let ret = ovl;
          qStart = Astart ovl;
          qEnd = Alen ovl;
          qSpan = qEnd - qStart;
          tStartFwd = (if Brev ovl then Blen ovl - Bend ovl else Bstart ovl);
          tEndFwd = (if Brev ovl then Blen ovl - Bstart ovl else Bend ovl)
      in case (if Brev ovl then FetchTargetSubsequence revcmp targetSeq 0 tEndFwd (Brev ovl)
               else FetchTargetSubsequence revcmp targetSeq tStartFwd (Blen ovl) (Brev ovl)) of
           Inl e \<Rightarrow> Inl e
         | Inr tseq \<Rightarrow>
             (let tSpan = int (length tseq);
                  dMax = trunc_to_int (real_of_int (Alen ovl) * alignMaxDiff);
                  bandwidth =
                    trunc_to_int (real_of_int (min (Blen ovl) (Alen ovl)) * alignBandwidth);
                  sesResult =
                    ses (drop (nat qStart) (Bases querySeq)) qSpan tseq tSpan dMax bandwidth;
                  ret = ret\<lparr>Aend := lastQueryPos sesResult\<rparr>;
                  ret = ret\<lparr>Bend := lastTargetPos sesResult\<rparr>;
                  ret = ret\<lparr>Aend := Aend ret + Astart ovl\<rparr>;
                  ret = ret\<lparr>Bend := Bend ret + Bstart ovl\<rparr>;
                  ret = ret\<lparr>EditDistance := diffs sesResult\<rparr>;
                  ret = ret\<lparr>Score := real_of_int (- max (ASpan ret) (BSpan ret))\<rparr>;
                  diffsRight = diffs sesResult
              in Inr (ret, diffsRight)))"

text \<open>The reverse pass of \<open>Mapper::AlignOverlap_\<close> (the second block), with the finalisation.\<close>

definition AlignOverlap_reverse ::
  "ses_fn \<Rightarrow> (string \<Rightarrow> int \<Rightarrow> int \<Rightarrow> string) \<Rightarrow> FastaSequenceId \<Rightarrow> string \<Rightarrow> Overlap
     \<Rightarrow> Overlap \<Rightarrow> int \<Rightarrow> real \<Rightarrow> real \<Rightarrow> error + Overlap" where
  "AlignOverlap_reverse ses revcmp targetSeq reverseQuerySeq ovl ret diffsRight alignBandwidth
       alignMaxDiff =
     (let qStart = Alen ret - Astart ret;
          qEnd = Alen ret;
          qSpan = qEnd - qStart;
          tStartFwd = (if Brev ret then Blen ret - Bend ret else Bstart ret);
          tEndFwd = (if Brev ret then Blen ret - Bstart ret else Bend ret)
      in case (if Brev ovl
               then FetchTargetSubsequence revcmp targetSeq tEndFwd (Blen ret) (\<not> Brev ret)
               else FetchTargetSubsequence revcmp targetSeq 0 tStartFwd (\<not> Brev ret)) of
           Inl e \<Rightarrow> Inl e
         | Inr tSeq \<Rightarrow>
             (let tSpan = int (length tSeq);
                  dMax = trunc_to_int
                    (real_of_int (Alen ovl) * alignMaxDiff - real_of_int diffsRight);
                  bandwidth =
                    trunc_to_int (real_of_int (min (Blen ovl) (Alen ovl)) * alignBandwidth);
                  sesResult =
                    ses (drop (nat qStart) reverseQuerySeq) qSpan tSeq tSpan dMax bandwidth;
                  ret = ret\<lparr>Astart := Astart ovl - lastQueryPos sesResult\<rparr>;
                  ret = ret\<lparr>Bstart := Bstart ovl - lastTargetPos sesResult\<rparr>;
                  ret = ret\<lparr>EditDistance := diffsRight + diffs sesResult\<rparr>;
                  ret = ret\<lparr>Score := real_of_int (- max (ASpan ret) (BSpan ret))\<rparr>;
                  span = real_of_int (max (ASpan ret) (BSpan ret));
                  ret = ret\<lparr>Identity :=
                    100 * (if span \<noteq> 0 then (span - real_of_int (EditDistance ret)) / span
                           else - 2)\<rparr>
              in Inr ret))"

text \<open>
  \<open>Mapper::AlignOverlap_\<close>: a null overlap pointer is returned as it is, otherwise the copy
  \<open>ret\<close> of the overlap goes through the two passes.
\<close>

definition AlignOverlap ::
  "ses_fn \<Rightarrow> (string \<Rightarrow> int \<Rightarrow> int \<Rightarrow> string) \<Rightarrow> FastaSequenceId \<Rightarrow> FastaSequenceId \<Rightarrow> string
     \<Rightarrow> Overlap option \<Rightarrow> real \<Rightarrow> real \<Rightarrow> error + Overlap option" where
  "AlignOverlap ses revcmp targetSeq querySeq reverseQuerySeq ovlp alignBandwidth alignMaxDiff =
     (case ovlp of
        None \<Rightarrow> Inr None
      | Some ovl \<Rightarrow>
          (case AlignOverlap_forward ses revcmp targetSeq querySeq ovl alignBandwidth
                  alignMaxDiff of
             Inl e \<Rightarrow> Inl e
           | Inr (ret, diffsRight) \<Rightarrow>
               (case AlignOverlap_reverse ses revcmp targetSeq reverseQuerySeq ovl ret diffsRight
                       alignBandwidth alignMaxDiff of
                  Inl e \<Rightarrow> Inl e
                | Inr ret' \<Rightarrow> Inr (Some ret'))))"

text \<open>
  A stand-in for the black box in the concrete examples: a routine that reports the same
  end positions and number of differences on every call.
\<close>

definition SES_fixed :: "SesResults \<Rightarrow> ses_fn" where
  "SES_fixed r q qLen t tLen dMax bandwidth = r"


section \<open>Seed index\<close>

text \<open>
  A raw seed is one 128-bit word (\<open>SeedRaw\<close>); the key of a seed is an unsigned 64-bit
  value. The class \<open>Seed\<close> of \<open>pacbio/seeddb/Seed.h\<close>, which decodes a raw seed, is not among
  the sources: the index takes the two decoders it calls as parameters, \<open>DecodeKey\<close>
  (the static \<open>Seed::DecodeKey\<close>) and \<open>decode\<close> (the constructor \<open>Seed(raw)\<close>, giving the
  fields \<open>key\<close>, \<open>seqID\<close>, \<open>pos\<close> and the strand read by \<open>IsRev()\<close>).
\<close>

type_synonym SeedRaw = "128 word"

record Seed =
  key :: "64 word"
  seqID :: int
  pos :: int
  IsRev :: bool

text \<open>
  The index: the shared cache, the owned seed array, and the hash from a key to the pair
  \<open>(start, end)\<close>. The hash is an association list read with \<^const>\<open>map_of\<close> and written
  with \<^const>\<open>AList.update\<close>, which replaces the entry of a key that is present, as
  \<open>hash_[key] = value\<close> does.
\<close>

record SeedIndex =
  seedDBCache :: SeedDBIndexCache
  seeds :: "SeedRaw list"
  hash :: "(64 word \<times> (int \<times> int)) list"

text \<open>
  Modelled from the spec: \<open>kx::radix_sort\<close> of the library \<open>lib/kxsort\<close>, which sorts the
  seed array by the full packed word in unsigned integer order, and a vector of frequencies
  in increasing order.
\<close>

definition radix_sort :: "'a::linorder list \<Rightarrow> 'a list" where
  "radix_sort xs = sort xs"

text \<open>The local variables of the scan of \<open>SeedIndex::BuildHash_\<close>.\<close>

record HashScan =
  scan_hash :: "(64 word \<times> (int \<times> int)) list"
  scan_start :: int
  scan_end :: int
  prevKey :: "64 word"

text \<open>One iteration of the scan, for the index \<open>i\<close> of the sorted array \<open>seeds1\<close>.\<close>

definition BuildHash_step :: "(SeedRaw \<Rightarrow> 64 word) \<Rightarrow> SeedRaw list \<Rightarrow> HashScan \<Rightarrow> nat \<Rightarrow> HashScan" where
  "BuildHash_step DecodeKey seeds1 st i =
     (let key' = DecodeKey (seeds1 ! i);
          st' = (if key' = prevKey st then st\<lparr>scan_end := scan_end st + 1\<rparr>
                 else st\<lparr>scan_hash :=
                           AList.update (prevKey st) (scan_start st, scan_end st) (scan_hash st),
                         scan_start := int i, scan_end := int i + 1\<rparr>)
      in st'\<lparr>prevKey := key'\<rparr>)"

text \<open>\<open>SeedIndex::BuildHash_\<close>.\<close>

definition BuildHash :: "(SeedRaw \<Rightarrow> 64 word) \<Rightarrow> SeedIndex \<Rightarrow> SeedIndex" where
  "BuildHash DecodeKey idx =
     (if seeds idx = [] then idx
      else
        let seeds1 = radix_sort (seeds idx);
            st0 = \<lparr>scan_hash = [], scan_start = 0, scan_end = 0,
                   prevKey = DecodeKey (seeds1 ! 0)\<rparr>;
            st = foldl (BuildHash_step DecodeKey seeds1) st0 [0..<length seeds1];
            h = (if scan_end st > scan_start st
                 then AList.update (prevKey st) (scan_start st, scan_end st) (scan_hash st)
                 else scan_hash st)
        in idx\<lparr>seeds := seeds1, hash := h\<rparr>)"

text \<open>The constructor: it takes the cache and the seeds, and builds the hash.\<close>

definition SeedIndex_new ::
  "(SeedRaw \<Rightarrow> 64 word) \<Rightarrow> SeedDBIndexCache \<Rightarrow> SeedRaw list \<Rightarrow> SeedIndex" where
  "SeedIndex_new DecodeKey cache seeds0 =
     BuildHash DecodeKey \<lparr>seedDBCache = cache, seeds = seeds0, hash = []\<rparr>"

text \<open>
  \<open>SeedIndex::GetSeeds\<close>: the number of seeds of the key and the copy of the range
  \<open>[seeds_.begin() + start, seeds_.begin() + end)\<close>.
\<close>

definition GetSeeds :: "SeedIndex \<Rightarrow> 64 word \<Rightarrow> int \<times> SeedRaw list" where
  "GetSeeds idx key' =
     (case map_of (hash idx) key' of
        None \<Rightarrow> (0, [])
      | Some (start, end') \<Rightarrow>
          (end' - start, take (nat (end' - start)) (drop (nat start) (seeds idx))))"

text \<open>
  The body of the inner loop of \<open>SeedIndex::CollectHits\<close>, for the target seed at index
  \<open>i\<close>; a read outside the seed array is the result \<open>OutOfBounds\<close>.
\<close>

definition CollectHits_target ::
  "(SeedRaw \<Rightarrow> Seed) \<Rightarrow> SeedIndex \<Rightarrow> int \<Rightarrow> Seed \<Rightarrow> int \<Rightarrow> SeedHit list
     \<Rightarrow> error + SeedHit list" where
  "CollectHits_target decode idx kmerSize decodedQuery i hits =
     (if i < 0 \<or> i \<ge> int (length (seeds idx)) then Inl OutOfBounds
      else
        let decodedTarget = decode (seeds idx ! nat i);
            isRev = False;
            targetPos' = pos decodedTarget
        in
        if IsRev decodedQuery \<noteq> IsRev decodedTarget
        then
          (case GetSeedsLine (seedDBCache idx) (seqID decodedTarget) of
             Inl e \<Rightarrow> Inl e
           | Inr sl \<Rightarrow>
               (let isRev = True;
                    targetPos' = numBases sl - (pos decodedTarget + kmerSize)
                in Inr (hits @ [\<lparr>targetId = seqID decodedTarget, targetRev = isRev,
                                  targetPos = targetPos', flags = 0,
                                  queryPos = pos decodedQuery\<rparr>])))
        else Inr (hits @ [\<lparr>targetId = seqID decodedTarget, targetRev = isRev,
                          targetPos = targetPos', flags = 0, queryPos = pos decodedQuery\<rparr>]))"

text \<open>The body of the outer loop, for one query seed.\<close>

definition CollectHits_query ::
  "(SeedRaw \<Rightarrow> Seed) \<Rightarrow> SeedIndex \<Rightarrow> int \<Rightarrow> int \<Rightarrow> SeedRaw \<Rightarrow> SeedHit list
     \<Rightarrow> error + SeedHit list" where
  "CollectHits_query decode idx kmerSize freqCutoff querySeed hits =
     (let decodedQuery = decode querySeed in
      case map_of (hash idx) (key decodedQuery) of
        None \<Rightarrow> Inr hits
      | Some (start, end') \<Rightarrow>
          if freqCutoff > 0 \<and> end' - start > freqCutoff then Inr hits
          else for_loop (CollectHits_target decode idx kmerSize decodedQuery)
                 [start..end' - 1] hits)"

text \<open>
  \<open>SeedIndex::CollectHits\<close>: the result is the returned flag \<open>hits.size() > 0\<close> with the
  hits written to the output vector.
\<close>

definition CollectHits ::
  "(SeedRaw \<Rightarrow> Seed) \<Rightarrow> SeedIndex \<Rightarrow> SeedRaw list \<Rightarrow> int \<Rightarrow> error + (bool \<times> SeedHit list)" where
  "CollectHits decode idx querySeeds freqCutoff =
     (let kmerSize = KmerSize (seedParams (seedDBCache idx)) in
      case for_loop (CollectHits_query decode idx kmerSize freqCutoff) querySeeds [] of
        Inl e \<Rightarrow> Inl e
      | Inr hits \<Rightarrow> Inr (length hits > 0, hits))"

text \<open>
  The collection loop of \<open>SeedIndex::ComputeFrequencyStats\<close> over the entries of the hash:
  the nonzero spans, their sum as a \<open>double\<close>, and their number.
\<close>

fun collect_freqs ::
  "(64 word \<times> (int \<times> int)) list \<Rightarrow> int list \<times> real \<times> int \<Rightarrow> int list \<times> real \<times> int" where
  "collect_freqs [] acc = acc"
| "collect_freqs ((k, (start, end')) # rest) (freqs, sumFreqs, numValidKeys) =
     (let span = end' - start in
      if span = 0 then collect_freqs rest (freqs, sumFreqs, numValidKeys)
      else collect_freqs rest (freqs @ [span], sumFreqs + real_of_int span, numValidKeys + 1))"

text \<open>A read of a vector element; outside the vector it is the result \<open>OutOfBounds\<close>.\<close>

definition vec_at :: "'a list \<Rightarrow> int \<Rightarrow> error + 'a" where
  "vec_at xs i = (if i < 0 \<or> i \<ge> int (length xs) then Inl OutOfBounds else Inr (xs ! nat i))"

text \<open>
  \<open>SeedIndex::ComputeFrequencyStats\<close>; the result is
  \<open>(retFreqMax, retFreqAvg, retFreqMedian, retFreqCutoff)\<close>. Integer division of the
  non-negative \<open>numValidKeys\<close> by 2 is \<open>div\<close>. The \<open>double\<close> arithmetic is exact
  arithmetic on \<^typ>\<open>real\<close> here, which is what the code computes when no operation
  rounds: so it is for \<open>percentileCutoff = 0\<close> and for \<open>percentileCutoff = 1/2\<close> with a
  small number of keys, the values at which the model is evaluated below. Where the code
  rounds (for a \<open>percentileCutoff\<close> below \<open>2^-53\<close> the difference \<open>1.0 - percentileCutoff\<close>
  is \<open>1.0\<close>) the rank of the code can differ from the rank of the model.
\<close>

definition ComputeFrequencyStats :: "SeedIndex \<Rightarrow> real \<Rightarrow> error + (int \<times> real \<times> real \<times> int)" where
  "ComputeFrequencyStats idx percentileCutoff =
     (if percentileCutoff < 0 \<or> percentileCutoff > 1 then Inl InvalidArgument
      else if hash idx = [] then Inr (0, 0, 0, 0)
      else
        case collect_freqs (hash idx) ([], 0, 0) of
          (freqs0, sumFreqs, numValidKeys) \<Rightarrow>
            if numValidKeys \<le> 0 then Inl InvalidNumKeys
            else
              let freqs = radix_sort freqs0;
                  numKeys = real_of_int numValidKeys;
                  cutoffId = \<lfloor>numKeys * (1 - percentileCutoff)\<rfloor>
              in case vec_at freqs (int (length freqs) - 1) of
                   Inl e \<Rightarrow> Inl e
                 | Inr retFreqMax \<Rightarrow>
                     (case vec_at freqs cutoffId of
                        Inl e \<Rightarrow> Inl e
                      | Inr retFreqCutoff \<Rightarrow>
                          (case vec_at freqs (numValidKeys div 2) of
                             Inl e \<Rightarrow> Inl e
                           | Inr m1 \<Rightarrow>
                               (case vec_at freqs ((numValidKeys - 1) div 2) of
                                  Inl e \<Rightarrow> Inl e
                                | Inr m2 \<Rightarrow>
                                    Inr (retFreqMax, sumFreqs / numKeys,
                                         (real_of_int m1 + real_of_int m2) / 2,
                                         retFreqCutoff)))))"

text \<open>
  Modelled from the spec: the packed seed codec of \<open>pacbio/seeddb/Seed.h\<close>, with the storage
  layout \<open>[key | seqId | pos | strand]\<close>: the key in the upper 64 bits, then the sequence
  id in a 31-bit slot, the position in a 32-bit slot, and the strand in the lowest bit. It
  instantiates the decoder parameters in the concrete examples only.
\<close>

definition Seed_Encode :: "64 word \<Rightarrow> int \<Rightarrow> int \<Rightarrow> bool \<Rightarrow> SeedRaw" where
  "Seed_Encode k sid p r =
     push_bit 64 (ucast k) OR push_bit 33 (word_of_int sid AND mask 31) OR
     push_bit 1 (word_of_int p AND MASK_32bit) OR (if r then 1 else 0)"

definition Seed_DecodeKey :: "SeedRaw \<Rightarrow> 64 word" where
  "Seed_DecodeKey s = ucast (drop_bit 64 s)"

definition Seed_decode :: "SeedRaw \<Rightarrow> Seed" where
  "Seed_decode s =
     \<lparr>key = Seed_DecodeKey s,
      seqID = uint (drop_bit 33 s AND mask 31),
      pos = sint (ucast (drop_bit 1 s AND MASK_32bit) :: 32 word),
      IsRev = bit s 0\<rparr>"

subsection \<open>Predicates for the chaining stage\<close>

text \<open>
  The hits lie inside their sequences: the query position inside the query, the target
  position inside the target named by \<open>targetId\<close> (when the cache knows that target).
\<close>

definition hits_in_range :: "SeedHit list \<Rightarrow> FastaSequenceId \<Rightarrow> SeedDBIndexCache \<Rightarrow> bool" where
  "hits_in_range hits querySeq cache \<longleftrightarrow>
     (\<forall>h \<in> set hits.
        0 \<le> queryPos h \<and> queryPos h \<le> int (length (Bases querySeq)) \<and> 0 \<le> targetPos h \<and>
        (case GetSeedsLine cache (targetId h) of
           Inl e \<Rightarrow> True
         | Inr sl \<Rightarrow> targetPos h \<le> numBases sl))"

text \<open>
  The overlap \<open>ovl\<close> was made from a group of consecutive hits: \<open>MakeOverlap\<close> built it from
  the hits \<open>[b, e)\<close> with the end points \<open>mn\<close> and \<open>mx\<close> inside the group, and every hit of
  the group has the target and the strand of the overlap. (When the band width is negative
  the sweep closes an empty group \<open>[0, 0)\<close> at the first hit, whose end points are that hit;
  hence \<open>mn = b\<close> as the alternative to \<open>mn < e\<close>.)
\<close>

definition group_of :: "SeedHit list \<Rightarrow> FastaSequenceId \<Rightarrow> SeedDBIndexCache \<Rightarrow> Overlap \<Rightarrow> bool" where
  "group_of hits querySeq cache ovl \<longleftrightarrow>
     (\<exists>b e mn mx.
        0 \<le> b \<and> b \<le> e \<and> e \<le> int (length hits) \<and>
        b \<le> mn \<and> (mn < e \<or> mn = b) \<and> b \<le> mx \<and> (mx < e \<or> mx = b) \<and>
        MakeOverlap hits querySeq cache b e mn mx = Inr ovl \<and>
        (\<forall>j. b \<le> j \<and> (j < e \<or> j = b) \<longrightarrow>
           targetId (hits ! nat j) = Bid ovl \<and> targetRev (hits ! nat j) = Brev ovl))"

text \<open>The coordinates of an overlap are ordered and inside the two sequences.\<close>

definition overlap_in_range :: "Overlap \<Rightarrow> bool" where
  "overlap_in_range ovl \<longleftrightarrow>
     0 \<le> Astart ovl \<and> Astart ovl \<le> Aend ovl \<and> Aend ovl \<le> Alen ovl \<and>
     0 \<le> Bstart ovl \<and> Bstart ovl \<le> Bend ovl \<and> Bend ovl \<le> Blen ovl"

text \<open>
  The invariant of the sweep before the iteration \<open>i\<close>: the current group starts at
  \<open>beginId\<close>, the two trackers point into it, its hits share target and strand, and the
  overlaps emitted so far are in range and made from groups.
\<close>

definition chain_inv ::
  "SeedHit list \<Rightarrow> FastaSequenceId \<Rightarrow> SeedDBIndexCache \<Rightarrow> nat \<Rightarrow> ChainState \<Rightarrow> bool" where
  "chain_inv hits querySeq cache i st \<longleftrightarrow>
     0 \<le> beginId st \<and> beginId st \<le> int i \<and> beginId st < int (length hits) \<and>
     beginId st \<le> minPosId st \<and> (minPosId st < int i \<or> minPosId st = beginId st) \<and>
     beginId st \<le> maxPosId st \<and> (maxPosId st < int i \<or> maxPosId st = beginId st) \<and>
     (\<forall>j. beginId st \<le> j \<and> (j < int i \<or> j = beginId st) \<longrightarrow>
        targetId (hits ! nat j) = targetId (hits ! nat (beginId st)) \<and>
        targetRev (hits ! nat j) = targetRev (hits ! nat (beginId st))) \<and>
     (\<forall>ovl \<in> set (overlaps st). overlap_in_range ovl \<and> group_of hits querySeq cache ovl)"


subsection \<open>Predicates for the seed index\<close>

text \<open>
  The invariant of the scan of \<open>BuildHash_\<close> before the iteration \<open>i\<close>: the current run
  \<open>[start, i)\<close> has the key \<open>prevKey\<close>, and every entry written so far is a non-empty range
  of seeds of its key.
\<close>

definition scan_inv :: "(SeedRaw \<Rightarrow> 64 word) \<Rightarrow> SeedRaw list \<Rightarrow> nat \<Rightarrow> HashScan \<Rightarrow> bool" where
  "scan_inv DecodeKey seeds1 i st \<longleftrightarrow>
     scan_end st = int i \<and> 0 \<le> scan_start st \<and>
     (if i = 0 then scan_start st = 0 \<and> prevKey st = DecodeKey (seeds1 ! 0)
      else scan_start st < int i) \<and>
     (\<forall>j. scan_start st \<le> j \<and> j < int i \<longrightarrow> DecodeKey (seeds1 ! nat j) = prevKey st) \<and>
     distinct (map fst (scan_hash st)) \<and>
     (\<forall>k s e. (k, (s, e)) \<in> set (scan_hash st) \<longrightarrow>
        0 \<le> s \<and> s < e \<and> e \<le> int i \<and>
        (\<forall>j. s \<le> j \<and> j < e \<longrightarrow> DecodeKey (seeds1 ! nat j) = k))"


text \<open>
  The state of an index that \<open>CollectHits\<close> reads without leaving the seed array: every
  range of the hash lies inside the array. The constructor establishes it.
\<close>

definition hash_in_range :: "SeedIndex \<Rightarrow> bool" where
  "hash_in_range idx \<longleftrightarrow>
     list_all (\<lambda>(k, (s, e)). 0 \<le> s \<and> e \<le> int (length (seeds idx))) (hash idx)"

text \<open>The cache has a line for the sequence of every seed of the index.\<close>

definition targets_known :: "(SeedRaw \<Rightarrow> Seed) \<Rightarrow> SeedIndex \<Rightarrow> bool" where
  "targets_known decode idx \<longleftrightarrow>
     list_all (\<lambda>t. 0 \<le> seqID (decode t) \<and>
                   seqID (decode t) < int (length (seedLines (seedDBCache idx)))) (seeds idx)"

text \<open>
  The hit that the strand reconciliation of the specification prescribes for a query seed
  \<open>q\<close> and a target seed \<open>t\<close>: reverse, with the position reflected to
  \<open>numBases - (rawPos + kmerSize)\<close>, when the strands differ; forward, with the raw position,
  when they agree.
\<close>

definition spec_hit :: "SeedDBIndexCache \<Rightarrow> int \<Rightarrow> Seed \<Rightarrow> Seed \<Rightarrow> SeedHit" where
  "spec_hit cache kmerSize q t =
     (if IsRev q \<noteq> IsRev t
      then \<lparr>targetId = seqID t, targetRev = True,
            targetPos = numBases (seedLines cache ! nat (seqID t)) - (pos t + kmerSize),
            flags = 0, queryPos = pos q\<rparr>
      else \<lparr>targetId = seqID t, targetRev = False, targetPos = pos t, flags = 0,
            queryPos = pos q\<rparr>)"

text \<open>
  The hits that the specification prescribes for one query seed: none when its key is not in
  the hash or when its bucket is larger than a positive \<open>freqCutoff\<close>, else one hit for each
  target seed of the bucket, in the order of the seed array.
\<close>

definition spec_query_hits ::
  "(SeedRaw \<Rightarrow> Seed) \<Rightarrow> SeedIndex \<Rightarrow> int \<Rightarrow> SeedRaw \<Rightarrow> SeedHit list" where
  "spec_query_hits decode idx freqCutoff querySeed =
     (case map_of (hash idx) (key (decode querySeed)) of
        None \<Rightarrow> []
      | Some (start, end') \<Rightarrow>
          if freqCutoff > 0 \<and> end' - start > freqCutoff then []
          else map (\<lambda>i. spec_hit (seedDBCache idx) (KmerSize (seedParams (seedDBCache idx)))
                           (decode querySeed) (decode (seeds idx ! nat i)))
                 [start..end' - 1])"


subsection \<open>Concrete inputs of the examples\<close>

definition ex_query :: FastaSequenceId where
  "ex_query = \<lparr>Name = ''q'', Bases = replicate 100 CHR ''A'', SeqId = 7\<rparr>"

definition ex_params :: SeedDBParameters where
  "ex_params =
     \<lparr>KmerSize = 30, MinimizerWindow = 80, UseHPC = False, MaxHPCLen = 10, UseRC = True\<rparr>"

definition ex_cache :: SeedDBIndexCache where
  "ex_cache =
     \<lparr>indexFilename = ''x.seeddb'', version = ''0.1.0'', seedParams = ex_params, fileLines = [],
      seedLines =
        [\<lparr>seqId = 0, header = ''t0'', fileId = 0, fileOffset = 0,
          SeedDBSeedsLine.numBytes = 32, numBases = 100, numSeeds = 2\<rparr>],
      blockLines = []\<rparr>"

definition ex_index_S6 :: SeedDBIndexCache where
  "ex_index_S6 =
     \<lparr>indexFilename = ''x.seeddb'', version = ''0.1.0'', seedParams = ex_params,
      fileLines =
        [\<lparr>SeedDBFileLine.fileId = 0, filename = ''x.0.seeds'', numSequences = 2,
          SeedDBFileLine.numBytes = 48\<rparr>,
         \<lparr>SeedDBFileLine.fileId = 1, filename = ''x.1.seeds'', numSequences = 1,
          SeedDBFileLine.numBytes = 16\<rparr>],
      seedLines =
        [\<lparr>seqId = 0, header = ''read/0'', fileId = 0, fileOffset = 0,
          SeedDBSeedsLine.numBytes = 32, numBases = 1200, numSeeds = 2\<rparr>,
         \<lparr>seqId = 1, header = ''read/1'', fileId = 0, fileOffset = 32,
          SeedDBSeedsLine.numBytes = 16, numBases = 900, numSeeds = 1\<rparr>,
         \<lparr>seqId = 2, header = ''read/2'', fileId = 1, fileOffset = 0,
          SeedDBSeedsLine.numBytes = 16, numBases = 1000, numSeeds = 1\<rparr>],
      blockLines = [\<lparr>blockId = 0, startSeqId = 0, endSeqId = 3, numBytes = 64\<rparr>]\<rparr>"

definition ex_index_ws :: SeedDBIndexCache where
  "ex_index_ws =
     \<lparr>indexFilename = ''x.seeddb'', version = ''0.1.0'', seedParams = ex_params, fileLines = [],
      seedLines =
        [\<lparr>seqId = 0, header = ''read 1'', fileId = 0, fileOffset = 0,
          SeedDBSeedsLine.numBytes = 32, numBases = 100, numSeeds = 2\<rparr>],
      blockLines = []\<rparr>"

definition ex_index_noS :: SeedDBIndexCache where
  "ex_index_noS =
     \<lparr>indexFilename = ''x.seeddb'', version = ''0.1.0'', seedParams = ex_params,
      fileLines = [\<lparr>SeedDBFileLine.fileId = 0, filename = ''x.0.seeds'', numSequences = 0,
                    SeedDBFileLine.numBytes = 0\<rparr>],
      seedLines = [],
      blockLines = [\<lparr>blockId = 0, startSeqId = 0, endSeqId = 0, numBytes = 0\<rparr>]\<rparr>"

definition ex_params_file :: SeedDBParameters where
  "ex_params_file =
     \<lparr>KmerSize = 19, MinimizerWindow = 40, UseHPC = True, MaxHPCLen = 5, UseRC = False\<rparr>"

text \<open>A buffer size as \<open>getline\<close> may report it: room for the line, at least 120 bytes.\<close>

definition ex_bufsize :: "string \<Rightarrow> nat" where
  "ex_bufsize line = max 120 (length line + 1)"

text \<open>An allocator that serves every request of up to a million lines.\<close>

definition ex_reserve_ok :: "nat \<Rightarrow> bool" where
  "ex_reserve_ok n \<longleftrightarrow> n \<le> 1000000"

definition ex_seeds :: "SeedRaw list" where
  "ex_seeds = [Seed_Encode 5 1 10 False, Seed_Encode 3 0 7 True, Seed_Encode 5 0 2 False]"

definition ex_cache5 :: SeedDBIndexCache where
  "ex_cache5 =
     \<lparr>indexFilename = ''x.seeddb'', version = ''0.1.0'', seedParams = ex_params, fileLines = [],
      seedLines =
        [\<lparr>seqId = 0, header = ''t0'', fileId = 0, fileOffset = 0,
          SeedDBSeedsLine.numBytes = 16, numBases = 60, numSeeds = 1\<rparr>,
         \<lparr>seqId = 1, header = ''t1'', fileId = 0, fileOffset = 16,
          SeedDBSeedsLine.numBytes = 16, numBases = 70, numSeeds = 1\<rparr>,
         \<lparr>seqId = 2, header = ''t2'', fileId = 0, fileOffset = 32,
          SeedDBSeedsLine.numBytes = 16, numBases = 80, numSeeds = 1\<rparr>,
         \<lparr>seqId = 3, header = ''t3'', fileId = 0, fileOffset = 48,
          SeedDBSeedsLine.numBytes = 16, numBases = 90, numSeeds = 1\<rparr>,
         \<lparr>seqId = 4, header = ''t4'', fileId = 0, fileOffset = 64,
          SeedDBSeedsLine.numBytes = 16, numBases = 100, numSeeds = 1\<rparr>],
      blockLines = []\<rparr>"


definition ex_target_seeds :: "SeedRaw list" where
  "ex_target_seeds = [Seed_Encode 7 4 20 True, Seed_Encode 7 2 7 False, Seed_Encode 9 1 3 True]"

definition ex_query_seeds :: "SeedRaw list" where
  "ex_query_seeds = [Seed_Encode 7 0 10 False]"

definition ex_hits :: "SeedHit list" where
  "ex_hits =
     [\<lparr>targetId = 0, targetRev = False, targetPos = 10, flags = 0, queryPos = 5\<rparr>,
      \<lparr>targetId = 0, targetRev = False, targetPos = 60, flags = 0, queryPos = 55\<rparr>]"

definition ex_hits_far :: "SeedHit list" where
  "ex_hits_far =
     [\<lparr>targetId = 0, targetRev = False, targetPos = 0, flags = 0, queryPos = 0\<rparr>,
      \<lparr>targetId = 0, targetRev = False, targetPos = 150, flags = 0, queryPos = 150\<rparr>]"

definition ex_hits_crossing :: "SeedHit list" where
  "ex_hits_crossing =
     [\<lparr>targetId = 0, targetRev = False, targetPos = 10, flags = 0, queryPos = 5\<rparr>,
      \<lparr>targetId = 0, targetRev = False, targetPos = 11, flags = 0, queryPos = 3\<rparr>]"

definition ex_hits_mixed :: "SeedHit list" where
  "ex_hits_mixed =
     [\<lparr>targetId = 0, targetRev = False, targetPos = 0, flags = 0, queryPos = 1\<rparr>,
      \<lparr>targetId = 0, targetRev = False, targetPos = 1, flags = 0, queryPos = 0\<rparr>]"

definition ex_target1000 :: FastaSequenceId where
  "ex_target1000 = \<lparr>Name = ''target'', Bases = replicate 1000 CHR ''A'', SeqId = 4\<rparr>"

definition ex_query1000 :: FastaSequenceId where
  "ex_query1000 = \<lparr>Name = ''query'', Bases = replicate 1000 CHR ''A'', SeqId = 7\<rparr>"

definition ex_target4 :: FastaSequenceId where
  "ex_target4 = \<lparr>Name = ''t'', Bases = ''ACGT'', SeqId = 4\<rparr>"

definition ex_query4 :: FastaSequenceId where
  "ex_query4 = \<lparr>Name = ''q'', Bases = ''ACGT'', SeqId = 7\<rparr>"

section \<open>Properties\<close>

subsection \<open>The target subsequence fetcher\<close>

lemma substr_in_range: "p \<le> length s \<Longrightarrow> \<exists>r. substr s p n = Inr r"
  by (simp add: substr_def)

text \<open>
  C7, as the code has it. The test for an empty range comes first, so a call with
  \<open>seqStart = seqEnd\<close> returns the empty string whatever the two values are, and the
  fetcher fails with \<open>InvalidRange\<close> exactly when the range is not empty and
  \<open>start < 0 || end < 0 || start > len || end > len || end < start\<close>. It fails in no
  other way.
\<close>

theorem FetchTargetSubsequence_fails_iff:
  "(FetchTargetSubsequence revcmp targetSeq seqStart seqEnd revCmp = Inl InvalidRange) =
     (seqStart \<noteq> seqEnd \<and>
      (seqStart < 0 \<or> seqEnd < 0 \<or> seqStart > int (length (Bases targetSeq))
       \<or> seqEnd > int (length (Bases targetSeq)) \<or> seqEnd < seqStart))
   \<and> ((\<exists>e. FetchTargetSubsequence revcmp targetSeq seqStart seqEnd revCmp = Inl e) =
        (FetchTargetSubsequence revcmp targetSeq seqStart seqEnd revCmp = Inl InvalidRange))
   \<and> FetchTargetSubsequence revcmp targetSeq seqStart seqStart revCmp = Inr []"
proof -
  let ?len = "int (length (Bases targetSeq))"
  let ?bad = "seqStart < 0 \<or> seqEnd < 0 \<or> seqStart > ?len \<or> seqEnd > ?len \<or> seqEnd < seqStart"
  have empty: "FetchTargetSubsequence revcmp targetSeq seqStart seqStart revCmp = Inr []"
    by (simp add: FetchTargetSubsequence_def ex_target4_def)
  have bad: "FetchTargetSubsequence revcmp targetSeq seqStart seqEnd revCmp = Inl InvalidRange"
    if "seqStart \<noteq> seqEnd" "?bad"
    using that by (auto simp: FetchTargetSubsequence_def Let_def)
  have good: "\<exists>r. FetchTargetSubsequence revcmp targetSeq seqStart seqEnd revCmp = Inr r"
    if "seqStart = seqEnd \<or> \<not> ?bad"
  proof (cases "seqStart = seqEnd")
    case True
    then show ?thesis using empty by simp
  next
    case False
    with that have nb: "\<not> ?bad" by blast
    then have "nat seqStart \<le> length (Bases targetSeq)" by linarith
    then obtain r where "substr (Bases targetSeq) (nat seqStart)
        (nat ((if seqEnd = 0 then ?len else seqEnd) - seqStart)) = Inr r"
      using substr_in_range by blast
    with False nb show ?thesis
      by (cases revCmp) (auto simp: FetchTargetSubsequence_def Let_def)
  qed
  show ?thesis
    using empty bad good by (metis Inl_Inr_False)
qed

text \<open>
  C7 as stated fails: with \<open>seqStart = seqEnd = -1\<close> the condition \<open>start < 0\<close> holds, yet
  the fetcher returns the empty string and no error.
\<close>

theorem FetchTargetSubsequence_negative_empty_range:
  "\<not> ((FetchTargetSubsequence ReverseComplement
          ex_target4 (- 1) (- 1) False = Inl InvalidRange) =
        ((- 1 :: int) < 0 \<or> (- 1 :: int) < 0 \<or> (- 1 :: int) > int (length (Bases ex_target4))
         \<or> (- 1 :: int) > int (length (Bases ex_target4)) \<or> (- 1 :: int) < - 1))"
  by (simp add: FetchTargetSubsequence_def ex_target4_def)

subsection \<open>The chaining sweep\<close>

lemma for_loop_append:
  "for_loop body (xs @ ys) st =
     (case for_loop body xs st of Inl e \<Rightarrow> Inl e | Inr st' \<Rightarrow> for_loop body ys st')"
  by (induction xs arbitrary: st) (auto split: sum.splits)

lemma for_loop_invariant:
  assumes "for_loop body (map int [0..<n]) st0 = Inr st"
    and "I 0 st0"
    and "\<And>i s s'. i < n \<Longrightarrow> I i s \<Longrightarrow> body (int i) s = Inr s' \<Longrightarrow> I (Suc i) s'"
  shows "I n st"
  using assms
proof (induction n arbitrary: st)
  case 0
  then show ?case by simp
next
  case (Suc n)
  from Suc.prems(1) obtain s where
    s: "for_loop body (map int [0..<n]) st0 = Inr s" and b: "body (int n) s = Inr st"
    by (auto simp: for_loop_append split: sum.splits)
  have "I n s"
    using Suc.IH [OF s Suc.prems(2)] Suc.prems(3) by simp
  then show ?case using Suc.prems(3) [of n s st] b by simp
qed

lemma MakeOverlap_fields:
  assumes "MakeOverlap hits q cache b e mn mx = Inr ovl"
  shows "0 \<le> mn \<and> mn < int (length hits) \<and> 0 \<le> mx \<and> mx < int (length hits)
       \<and> targetId (hits ! nat mx) = targetId (hits ! nat mn)
       \<and> Bid ovl = targetId (hits ! nat mn) \<and> Brev ovl = targetRev (hits ! nat mn)
       \<and> Astart ovl = queryPos (hits ! nat mn) \<and> Aend ovl = queryPos (hits ! nat mx)
       \<and> Bstart ovl = targetPos (hits ! nat mn) \<and> Bend ovl = targetPos (hits ! nat mx)
       \<and> Alen ovl = int (length (Bases q)) \<and> NumSeeds ovl = e - b
       \<and> (\<exists>sl. GetSeedsLine cache (targetId (hits ! nat mn)) = Inr sl \<and> Blen ovl = numBases sl)"
  using assms
  by (auto simp: MakeOverlap_def Let_def createOverlap_def split: if_splits sum.splits)

lemma MakeOverlap_ok:
  assumes mk: "MakeOverlap hits q cache b e mn mx = Inr ovl"
    and rng: "hits_in_range hits q cache"
    and adm: "ASpan ovl > minChainSpan" "BSpan ovl > minChainSpan" "- 1 \<le> minChainSpan"
  shows "overlap_in_range ovl"
proof -
  note f = MakeOverlap_fields [OF mk]
  from f obtain sl where sl: "GetSeedsLine cache (targetId (hits ! nat mn)) = Inr sl"
    "Blen ovl = numBases sl" by blast
  have mn: "hits ! nat mn \<in> set hits" and mx: "hits ! nat mx \<in> set hits"
    using f by (simp_all add: nat_less_iff)
  have "targetId (hits ! nat mx) = targetId (hits ! nat mn)" using f by simp
  with sl have slx: "GetSeedsLine cache (targetId (hits ! nat mx)) = Inr sl" by simp
  from rng mn have a: "0 \<le> queryPos (hits ! nat mn)" "0 \<le> targetPos (hits ! nat mn)"
    by (auto simp: hits_in_range_def)
  from rng mx slx have b: "queryPos (hits ! nat mx) \<le> int (length (Bases q))"
    "targetPos (hits ! nat mx) \<le> numBases sl"
    by (auto simp: hits_in_range_def split: sum.splits)
  show ?thesis
    using adm f sl a b by (simp add: overlap_in_range_def ASpan_def BSpan_def)
qed


lemma chain_invD:
  assumes "chain_inv hits q cache i st"
  shows "0 \<le> beginId st" "beginId st \<le> int i" "beginId st < int (length hits)"
    "beginId st \<le> minPosId st" "minPosId st < int i \<or> minPosId st = beginId st"
    "beginId st \<le> maxPosId st" "maxPosId st < int i \<or> maxPosId st = beginId st"
    "\<And>j. beginId st \<le> j \<Longrightarrow> j < int i \<or> j = beginId st \<Longrightarrow>
        targetId (hits ! nat j) = targetId (hits ! nat (beginId st)) \<and>
        targetRev (hits ! nat j) = targetRev (hits ! nat (beginId st))"
    "\<And>ovl. ovl \<in> set (overlaps st) \<Longrightarrow> overlap_in_range ovl \<and> group_of hits q cache ovl"
  using assms unfolding chain_inv_def by blast+
lemma chain_invI:
  assumes "0 \<le> beginId st" "beginId st \<le> int i" "beginId st < int (length hits)"
    "beginId st \<le> minPosId st" "minPosId st < int i \<or> minPosId st = beginId st"
    "beginId st \<le> maxPosId st" "maxPosId st < int i \<or> maxPosId st = beginId st"
    "\<And>j. beginId st \<le> j \<Longrightarrow> j < int i \<or> j = beginId st \<Longrightarrow>
        targetId (hits ! nat j) = targetId (hits ! nat (beginId st)) \<and>
        targetRev (hits ! nat j) = targetRev (hits ! nat (beginId st))"
    "\<And>ovl. ovl \<in> set (overlaps st) \<Longrightarrow> overlap_in_range ovl \<and> group_of hits q cache ovl"
  shows "chain_inv hits q cache i st"
  unfolding chain_inv_def using assms by blast

lemma chain_inv_min:
  assumes "chain_inv hits q cache (Suc i) st" and "beginId st \<le> int i"
  shows "chain_inv hits q cache (Suc i) (st\<lparr>minPosId := int i, minTargetQueryPosCombo := c\<rparr>)"
proof -
  note d = chain_invD [OF assms(1)]
  show ?thesis
  proof (rule chain_invI)
    fix j
    assume "beginId (st\<lparr>minPosId := int i, minTargetQueryPosCombo := c\<rparr>) \<le> j"
      "j < int (Suc i) \<or> j = beginId (st\<lparr>minPosId := int i, minTargetQueryPosCombo := c\<rparr>)"
    then have "beginId st \<le> j" "j < int (Suc i) \<or> j = beginId st" by simp_all
    from d(8) [OF this]
    show "targetId (hits ! nat j) =
         targetId (hits ! nat (beginId (st\<lparr>minPosId := int i, minTargetQueryPosCombo := c\<rparr>))) \<and>
         targetRev (hits ! nat j) =
         targetRev (hits ! nat (beginId (st\<lparr>minPosId := int i, minTargetQueryPosCombo := c\<rparr>)))"
      by simp
  next
    fix ovl assume "ovl \<in> set (overlaps (st\<lparr>minPosId := int i, minTargetQueryPosCombo := c\<rparr>))"
    then have "ovl \<in> set (overlaps st)" by simp
    from d(9) [OF this] show "overlap_in_range ovl \<and> group_of hits q cache ovl" .
  qed (use d(1-7) assms(2) in simp_all)
qed
lemma chain_inv_max:
  assumes "chain_inv hits q cache (Suc i) st" and "beginId st \<le> int i"
  shows "chain_inv hits q cache (Suc i) (st\<lparr>maxPosId := int i, maxTargetQueryPosCombo := c\<rparr>)"
proof -
  note d = chain_invD [OF assms(1)]
  show ?thesis
  proof (rule chain_invI)
    fix j
    assume "beginId (st\<lparr>maxPosId := int i, maxTargetQueryPosCombo := c\<rparr>) \<le> j"
      "j < int (Suc i) \<or> j = beginId (st\<lparr>maxPosId := int i, maxTargetQueryPosCombo := c\<rparr>)"
    then have "beginId st \<le> j" "j < int (Suc i) \<or> j = beginId st" by simp_all
    from d(8) [OF this]
    show "targetId (hits ! nat j) =
         targetId (hits ! nat (beginId (st\<lparr>maxPosId := int i, maxTargetQueryPosCombo := c\<rparr>))) \<and>
         targetRev (hits ! nat j) =
         targetRev (hits ! nat (beginId (st\<lparr>maxPosId := int i, maxTargetQueryPosCombo := c\<rparr>)))"
      by simp
  next
    fix ovl assume "ovl \<in> set (overlaps (st\<lparr>maxPosId := int i, maxTargetQueryPosCombo := c\<rparr>))"
    then have "ovl \<in> set (overlaps st)" by simp
    from d(9) [OF this] show "overlap_in_range ovl \<and> group_of hits q cache ovl" .
  qed (use d(1-7) assms(2) in simp_all)
qed

lemma chain_inv_minmax:
  assumes "chain_inv hits q cache (Suc i) st" and "beginId st \<le> int i"
  shows "chain_inv hits q cache (Suc i)
           (let st2 = (if c < minTargetQueryPosCombo st
                       then st\<lparr>minPosId := int i, minTargetQueryPosCombo := c\<rparr> else st);
                st3 = (if c > maxTargetQueryPosCombo st2
                       then st2\<lparr>maxPosId := int i, maxTargetQueryPosCombo := c\<rparr> else st2)
            in st3)"
proof -
  define st2 where "st2 = (if c < minTargetQueryPosCombo st
                       then st\<lparr>minPosId := int i, minTargetQueryPosCombo := c\<rparr> else st)"
  have 2: "chain_inv hits q cache (Suc i) st2" and b2: "beginId st2 \<le> int i"
    using assms chain_inv_min [OF assms] by (simp_all add: st2_def)
  have "chain_inv hits q cache (Suc i) (if c > maxTargetQueryPosCombo st2
                       then st2\<lparr>maxPosId := int i, maxTargetQueryPosCombo := c\<rparr> else st2)"
    using 2 chain_inv_max [OF 2 b2] by simp
  then show ?thesis unfolding Let_def st2_def .
qed

lemma chain_close_inv:
  assumes mk: "MakeOverlap hits q cache (beginId st) (int i) (minPosId st) (maxPosId st) = Inr ovl"
    and i: "i < length hits"
    and inv: "chain_inv hits q cache i st"
    and rng: "hits_in_range hits q cache"
    and mcs: "- 1 \<le> minChainSpan"
  shows "chain_inv hits q cache (Suc i)
           (st\<lparr>beginId := int i, beginDiag := d,
               overlaps := (if admit_overlap ovl minNumSeeds minChainSpan ss sy
                            then overlaps st @ [ovl] else overlaps st),
               minPosId := int i, maxPosId := int i,
               minTargetQueryPosCombo := c, maxTargetQueryPosCombo := c\<rparr>)"
    (is "chain_inv _ _ _ _ ?st'")
proof -
  note f = MakeOverlap_fields [OF mk]
  note d = chain_invD [OF inv]
  have tgt: "targetId (hits ! nat (minPosId st)) = targetId (hits ! nat (beginId st))
      \<and> targetRev (hits ! nat (minPosId st)) = targetRev (hits ! nat (beginId st))"
    by (rule d(8) [OF d(4) d(5)])
  have grp: "group_of hits q cache ovl"
    unfolding group_of_def
  proof (intro exI conjI allI impI)
    show "MakeOverlap hits q cache (beginId st) (int i) (minPosId st) (maxPosId st) = Inr ovl"
      by (rule mk)
    fix j assume j: "beginId st \<le> j \<and> (j < int i \<or> j = beginId st)"
    then have "targetId (hits ! nat j) = targetId (hits ! nat (beginId st)) \<and>
        targetRev (hits ! nat j) = targetRev (hits ! nat (beginId st))"
      using d(8) by blast
    then show "targetId (hits ! nat j) = Bid ovl" "targetRev (hits ! nat j) = Brev ovl"
      using f tgt by simp_all
  qed (use d(1-7) i in simp_all)
  have rngo: "overlap_in_range ovl" if "admit_overlap ovl minNumSeeds minChainSpan ss sy"
    using MakeOverlap_ok [OF mk rng _ _ mcs] that by (simp add: admit_overlap_def)
  show ?thesis
  proof (rule chain_invI)
    fix ovl' assume "ovl' \<in> set (overlaps ?st')"
    then have "ovl' \<in> set (overlaps st) \<or>
      (ovl' = ovl \<and> admit_overlap ovl minNumSeeds minChainSpan ss sy)"
      by (simp split: if_splits) blast
    then show "overlap_in_range ovl' \<and> group_of hits q cache ovl'"
      using d(9) grp rngo by blast
  next
    fix j assume "beginId ?st' \<le> j" "j < int (Suc i) \<or> j = beginId ?st'"
    then have "j = int i" by simp linarith
    then show "targetId (hits ! nat j) = targetId (hits ! nat (beginId ?st')) \<and>
         targetRev (hits ! nat j) = targetRev (hits ! nat (beginId ?st'))"
      by simp
  qed (use i in simp_all)
qed

lemma chain_step_inv:
  assumes step: "chain_step hits q cache bw minNumSeeds minChainSpan ss sy (int i) st = Inr st'"
    and i: "i < length hits"
    and inv: "chain_inv hits q cache i st"
    and rng: "hits_in_range hits q cache"
    and mcs: "- 1 \<le> minChainSpan"
  shows "chain_inv hits q cache (Suc i) st'"
proof -
  let ?c = "TargetQueryPosCombo (hits ! i)"
  let ?close = "targetId (hits ! i) \<noteq> targetId (hits ! nat (beginId st))
      \<or> targetRev (hits ! i) \<noteq> targetRev (hits ! nat (beginId st))
      \<or> \<bar>Diagonal (hits ! i) - beginDiag st\<bar> > bw"
  let ?upd = "\<lambda>st1. (let st2 = (if ?c < minTargetQueryPosCombo st1
                       then st1\<lparr>minPosId := int i, minTargetQueryPosCombo := ?c\<rparr> else st1);
                st3 = (if ?c > maxTargetQueryPosCombo st2
                       then st2\<lparr>maxPosId := int i, maxTargetQueryPosCombo := ?c\<rparr> else st2)
            in st3)"
  note d = chain_invD [OF inv]
  have "\<exists>st1. chain_inv hits q cache (Suc i) st1 \<and> beginId st1 \<le> int i \<and> st' = ?upd st1"
  proof (cases ?close)
    case True
    with step obtain ovl where
      mk: "MakeOverlap hits q cache (beginId st) (int i) (minPosId st) (maxPosId st) = Inr ovl"
      unfolding chain_step_def Let_def by (simp split: sum.splits)
    let ?st1 = "st\<lparr>beginId := int i, beginDiag := Diagonal (hits ! i),
               overlaps := (if admit_overlap ovl minNumSeeds minChainSpan ss sy
                            then overlaps st @ [ovl] else overlaps st),
               minPosId := int i, maxPosId := int i,
               minTargetQueryPosCombo := ?c, maxTargetQueryPosCombo := ?c\<rparr>"
    have 1: "chain_inv hits q cache (Suc i) ?st1"
      by (rule chain_close_inv [OF mk i inv rng mcs])
    have "chain_step hits q cache bw minNumSeeds minChainSpan ss sy (int i) st = Inr (?upd ?st1)"
      using True mk unfolding chain_step_def Let_def by simp
    with step have "st' = ?upd ?st1" by (simp only: sum.inject)
    moreover have "beginId ?st1 \<le> int i" by simp
    ultimately show ?thesis using 1 by blast
  next
    case False
    then have cur: "targetId (hits ! i) = targetId (hits ! nat (beginId st))"
      "targetRev (hits ! i) = targetRev (hits ! nat (beginId st))"
      by blast+
    have same': "targetId (hits ! nat j) = targetId (hits ! nat (beginId st)) \<and>
        targetRev (hits ! nat j) = targetRev (hits ! nat (beginId st))"
      if j: "beginId st \<le> j" "j < int (Suc i) \<or> j = beginId st" for j
    proof (cases "j = int i")
      case True
      then show ?thesis using cur by simp
    next
      case False
      with j have "j < int i \<or> j = beginId st" by auto
      with j(1) show ?thesis by (rule d(8))
    qed
    have 1: "chain_inv hits q cache (Suc i) st"
    proof (rule chain_invI)
      show "\<And>ovl. ovl \<in> set (overlaps st) \<Longrightarrow> overlap_in_range ovl \<and> group_of hits q cache ovl"
        by (rule d(9))
      show "\<And>j. beginId st \<le> j \<Longrightarrow> j < int (Suc i) \<or> j = beginId st \<Longrightarrow>
         targetId (hits ! nat j) = targetId (hits ! nat (beginId st)) \<and>
         targetRev (hits ! nat j) = targetRev (hits ! nat (beginId st))"
        by (rule same')
    qed (use d(1-7) in auto)
    have "chain_step hits q cache bw minNumSeeds minChainSpan ss sy (int i) st = Inr (?upd st)"
      using False unfolding chain_step_def Let_def by simp
    with step have "st' = ?upd st" by (simp only: sum.inject)
    with 1 d(2) show ?thesis by blast
  qed
  then obtain st1 where "chain_inv hits q cache (Suc i) st1" "beginId st1 \<le> int i"
    "st' = ?upd st1" by blast
  then show ?thesis using chain_inv_minmax [of hits q cache i st1 ?c] by simp
qed

lemma FormDiagonalAnchors_inv:
  assumes run: "FormDiagonalAnchors hits q cache bw minNumSeeds minChainSpan ss sy = Inr ovls"
    and rng: "hits_in_range hits q cache"
    and mcs: "- 1 \<le> minChainSpan"
    and ovl: "ovl \<in> set ovls"
  shows "overlap_in_range ovl \<and> group_of hits q cache ovl"
proof (cases "hits = []")
  case True
  with run ovl show ?thesis by (simp add: FormDiagonalAnchors_def)
next
  case False
  let ?st0 = "\<lparr>overlaps = [], beginId = 0, beginDiag = Diagonal (hits ! 0),
                   minTargetQueryPosCombo = TargetQueryPosCombo (hits ! 0),
                   maxTargetQueryPosCombo = TargetQueryPosCombo (hits ! 0),
                   minPosId = 0, maxPosId = 0\<rparr>"
  let ?body = "chain_step hits q cache bw minNumSeeds minChainSpan ss sy"
  from run False obtain st where
    loop: "for_loop ?body (map int [0..<length hits]) ?st0 = Inr st"
    unfolding FormDiagonalAnchors_def Let_def by (simp split: sum.splits)
  have inv0: "chain_inv hits q cache 0 ?st0"
    using False by (intro chain_invI) simp_all
  have inv: "chain_inv hits q cache (length hits) st"
    by (rule for_loop_invariant [OF loop, where I = "chain_inv hits q cache", OF inv0])
       (rule chain_step_inv [OF _ _ _ rng mcs])
  note d = chain_invD [OF inv]
  have "\<exists>o'. MakeOverlap hits q cache (beginId st) (int (length hits)) (minPosId st)
                 (maxPosId st) = Inr o'"
    using run False loop d(3) unfolding FormDiagonalAnchors_def Let_def
    by (cases "MakeOverlap hits q cache (beginId st) (int (length hits)) (minPosId st)
                 (maxPosId st)") simp_all
  then obtain o' where
    mk: "MakeOverlap hits q cache (beginId st) (int (length hits)) (minPosId st) (maxPosId st)
           = Inr o'"
    by blast
  have "FormDiagonalAnchors hits q cache bw minNumSeeds minChainSpan ss sy =
      Inr (if admit_overlap o' minNumSeeds minChainSpan ss sy
                       then overlaps st @ [o'] else overlaps st)"
    using False loop d(3) mk unfolding FormDiagonalAnchors_def Let_def by simp
  with run have ovls: "ovls = (if admit_overlap o' minNumSeeds minChainSpan ss sy
                       then overlaps st @ [o'] else overlaps st)"
    by (simp only: sum.inject)
  from ovl ovls have "ovl \<in> set (overlaps st) \<or>
      (ovl = o' \<and> admit_overlap o' minNumSeeds minChainSpan ss sy)"
    by (simp split: if_splits) blast
  then show ?thesis
  proof
    assume "ovl \<in> set (overlaps st)"
    then show ?thesis by (rule d(9))
  next
    assume last: "ovl = o' \<and> admit_overlap o' minNumSeeds minChainSpan ss sy"
    note f = MakeOverlap_fields [OF mk]
    have tgt: "targetId (hits ! nat (minPosId st)) = targetId (hits ! nat (beginId st))
        \<and> targetRev (hits ! nat (minPosId st)) = targetRev (hits ! nat (beginId st))"
      by (rule d(8) [OF d(4) d(5)])
    have grp: "group_of hits q cache o'"
      unfolding group_of_def
    proof (intro exI conjI allI impI)
      show "MakeOverlap hits q cache (beginId st) (int (length hits)) (minPosId st) (maxPosId st)
              = Inr o'"
        by (rule mk)
      fix j assume j: "beginId st \<le> j \<and> (j < int (length hits) \<or> j = beginId st)"
      then have "targetId (hits ! nat j) = targetId (hits ! nat (beginId st)) \<and>
          targetRev (hits ! nat j) = targetRev (hits ! nat (beginId st))"
        using d(8) by blast
      then show "targetId (hits ! nat j) = Bid o'" "targetRev (hits ! nat j) = Brev o'"
        using f tgt by simp_all
    qed (use d(1-7) in simp_all)
    have "overlap_in_range o'"
      using MakeOverlap_ok [OF mk rng _ _ mcs] last by (simp add: admit_overlap_def)
    with grp last show ?thesis by simp
  qed
qed


text \<open>
  C3, as the code has it. The chaining stage copies the coordinates of an overlap from two
  hits of the group and checks none of them, so the bounds hold when the hits lie inside
  their sequences, and the order \<open>start \<le> end\<close> comes from the admission test
  \<open>span > minChainSpan\<close>, hence needs \<open>minChainSpan \<ge> -1\<close>. Under these two conditions,
  for every hit list (sorted or not), every emitted overlap satisfies
  \<open>0 \<le> Astart \<le> Aend \<le> Alen\<close> and \<open>0 \<le> Bstart \<le> Bend \<le> Blen\<close>, and it is made from a
  group of consecutive hits that all have the \<open>(Bid, Brev)\<close> of the overlap.
\<close>

theorem FormDiagonalAnchors_overlaps_in_range:
  assumes "FormDiagonalAnchors sortedHits querySeq indexCache chainBandwidth minNumSeeds
             minChainSpan skipSelfHits skipSymmetricOverlaps = Inr ovls"
    and "hits_in_range sortedHits querySeq indexCache"
    and "- 1 \<le> minChainSpan"
    and "ovl \<in> set ovls"
  shows "0 \<le> Astart ovl \<and> Astart ovl \<le> Aend ovl \<and> Aend ovl \<le> Alen ovl \<and>
         0 \<le> Bstart ovl \<and> Bstart ovl \<le> Bend ovl \<and> Bend ovl \<le> Blen ovl \<and>
         group_of sortedHits querySeq indexCache ovl"
  using FormDiagonalAnchors_inv [OF assms] by (simp add: overlap_in_range_def)

lemma ex_hits_run:
  "FormDiagonalAnchors (sort_hits ex_hits) ex_query ex_cache 100 2 10 True False =
     Inr [createOverlap 7 0 2 0 False 5 55 100 False 10 60 100 (- 1) 2]"
  by (simp add: sort_hits_def PackSeedHitWithDiagonalTo128_def MASK_32bit_def
      FormDiagonalAnchors_def ex_hits_def ex_query_def ex_cache_def chain_step_def
      MakeOverlap_def GetSeedsLine_def createOverlap_def admit_overlap_def ASpan_def BSpan_def
      Diagonal_def TargetQueryPosCombo_def Let_def upt_conv_Cons)

lemma ex_hits_in_range: "hits_in_range (sort_hits ex_hits) ex_query ex_cache"
  by (simp add: sort_hits_def PackSeedHitWithDiagonalTo128_def MASK_32bit_def hits_in_range_def
      ex_hits_def ex_query_def ex_cache_def GetSeedsLine_def)

theorem FormDiagonalAnchors_overlaps_in_range_witness:
  "FormDiagonalAnchors (sort_hits ex_hits) ex_query ex_cache 100 2 10 True False =
     Inr [createOverlap 7 0 2 0 False 5 55 100 False 10 60 100 (- 1) 2]
   \<and> hits_in_range (sort_hits ex_hits) ex_query ex_cache
   \<and> (0 :: int) \<le> 5 \<and> (5 :: int) \<le> 55 \<and> (55 :: int) \<le> 100
   \<and> (0 :: int) \<le> 10 \<and> (10 :: int) \<le> 60 \<and> (60 :: int) \<le> 100
   \<and> group_of (sort_hits ex_hits) ex_query ex_cache
         (createOverlap 7 0 2 0 False 5 55 100 False 10 60 100 (- 1) 2)"
proof -
  have m: "createOverlap 7 0 2 0 False 5 55 100 False 10 60 100 (- 1) 2
      \<in> set [createOverlap 7 0 2 0 False 5 55 100 False 10 60 100 (- 1) 2]"
    by simp
  have c: "- 1 \<le> (10 :: int)" by simp
  show ?thesis
    using FormDiagonalAnchors_overlaps_in_range [OF ex_hits_run ex_hits_in_range c m]
      ex_hits_run ex_hits_in_range
    by (simp add: createOverlap_def)
qed

text \<open>
  C3 as stated fails on sorted hit lists. First list: a hit beyond the ends of the query
  and of the target (both of length 100) gives an emitted overlap with \<open>Aend = 150 > Alen\<close>
  and \<open>Bend = 150 > Blen\<close>. Second list: two hits inside the sequences whose query
  positions decrease while the target positions increase, with \<open>minChainSpan = -10\<close>,
  give an emitted overlap with \<open>Astart = 5 > Aend = 3\<close>.
\<close>

theorem FormDiagonalAnchors_out_of_range:
  "sort_hits ex_hits_far = ex_hits_far
   \<and> FormDiagonalAnchors ex_hits_far ex_query ex_cache 100 2 0 True False =
       Inr [createOverlap 7 0 2 0 False 0 150 100 False 0 150 100 (- 1) 2]
   \<and> \<not> (150 :: int) \<le> 100
   \<and> sort_hits ex_hits_crossing = ex_hits_crossing
   \<and> hits_in_range ex_hits_crossing ex_query ex_cache
   \<and> FormDiagonalAnchors ex_hits_crossing ex_query ex_cache 100 2 (- 10) True False =
       Inr [createOverlap 7 0 2 0 False 5 3 100 False 10 11 100 (- 1) 2]
   \<and> \<not> (5 :: int) \<le> 3"
  by (simp add: sort_hits_def PackSeedHitWithDiagonalTo128_def MASK_32bit_def
      FormDiagonalAnchors_def ex_hits_far_def ex_hits_crossing_def ex_query_def ex_cache_def
      chain_step_def MakeOverlap_def GetSeedsLine_def createOverlap_def admit_overlap_def
      ASpan_def BSpan_def Diagonal_def TargetQueryPosCombo_def Let_def upt_conv_Cons
      hits_in_range_def)

subsection \<open>The hit sort\<close>

text \<open>
  C4 at a failing input. Two hits on the same target and strand, with diagonals \<open>-1\<close> and
  \<open>1\<close>: the diagonal \<open>-1\<close> is stored in its 32-bit slot as \<open>0xFFFFFFFF\<close>, above every
  non-negative diagonal, so the sort puts the hit of diagonal \<open>1\<close> first and the diagonals
  of the group decrease.
\<close>

theorem sort_hits_mixed_sign_diagonals:
  "sort_hits ex_hits_mixed = rev ex_hits_mixed
   \<and> map targetId (sort_hits ex_hits_mixed) = [0, 0]
   \<and> map targetRev (sort_hits ex_hits_mixed) = [False, False]
   \<and> map Diagonal (sort_hits ex_hits_mixed) = [1, - 1]"
  unfolding sort_hits_def ex_hits_mixed_def PackSeedHitWithDiagonalTo128_def MASK_32bit_def
    Let_def Diagonal_def
  by (simp del: push_bit_and)

subsection \<open>Finalisation of an aligned overlap\<close>

lemma finalize_fields:
  fixes r :: Overlap and a b e :: int
  defines "ret1 \<equiv> r\<lparr>Astart := a, Bstart := b, EditDistance := e\<rparr>"
  defines "ret2 \<equiv> ret1\<lparr>Score := real_of_int (- max (ASpan ret1) (BSpan ret1))\<rparr>"
  defines "ret3 \<equiv> ret2\<lparr>Identity :=
                    100 * (if real_of_int (max (ASpan ret2) (BSpan ret2)) \<noteq> 0
                           then (real_of_int (max (ASpan ret2) (BSpan ret2))
                                   - real_of_int (EditDistance ret2))
                                / real_of_int (max (ASpan ret2) (BSpan ret2))
                           else - 2)\<rparr>"
  shows "Score ret3 = - real_of_int (max (ASpan ret3) (BSpan ret3))
       \<and> Identity ret3 =
           (if max (ASpan ret3) (BSpan ret3) \<noteq> 0
            then 100 * (real_of_int (max (ASpan ret3) (BSpan ret3)) - real_of_int (EditDistance ret3))
                   / real_of_int (max (ASpan ret3) (BSpan ret3))
            else - 200)"
  by (simp add: ret1_def ret2_def ret3_def ASpan_def BSpan_def)

lemma AlignOverlap_reverse_final:
  assumes "AlignOverlap_reverse ses revcmp targetSeq rq ovl ret0 dr bw md = Inr ret"
  shows "Score ret = - real_of_int (max (ASpan ret) (BSpan ret))
       \<and> Identity ret =
           (if max (ASpan ret) (BSpan ret) \<noteq> 0
            then 100 * (real_of_int (max (ASpan ret) (BSpan ret)) - real_of_int (EditDistance ret))
                   / real_of_int (max (ASpan ret) (BSpan ret))
            else - 200)"
proof -
  define fetched where "fetched =
    (if Brev ovl
     then FetchTargetSubsequence revcmp targetSeq
            (if Brev ret0 then Blen ret0 - Bstart ret0 else Bend ret0) (Blen ret0) (\<not> Brev ret0)
     else FetchTargetSubsequence revcmp targetSeq 0
            (if Brev ret0 then Blen ret0 - Bend ret0 else Bstart ret0) (\<not> Brev ret0))"
  show ?thesis
  proof (cases fetched)
    case (Inl e)
    then have False
      using assms unfolding AlignOverlap_reverse_def Let_def fetched_def [symmetric] by simp
    then show ?thesis ..
  next
    case (Inr tSeq)
    then show ?thesis
      using assms unfolding AlignOverlap_reverse_def Let_def fetched_def [symmetric]
      apply (simp only: sum.case sum.inject)
      apply hypsubst
      apply (rule finalize_fields)
      done
  qed
qed

text \<open>
  C6, as the code has it. After the two passes, with \<open>span = max(ASpan, BSpan)\<close>:
  \<open>Score = -span\<close>, and \<open>Identity = 100 * (span - EditDistance) / span\<close> when
  \<open>span \<noteq> 0\<close>; when \<open>span = 0\<close> the sentinel \<open>-2.0\<close> is inside the multiplication by 100,
  so \<open>Identity = -200\<close>. In particular \<open>ASpan = BSpan = 1000\<close> with \<open>EditDistance = 10\<close>
  gives \<open>Identity = 99\<close> and \<open>Score = -1000\<close>.
\<close>

theorem AlignOverlap_finalize:
  assumes "AlignOverlap ses revcmp targetSeq querySeq reverseQuerySeq (Some ovl) alignBandwidth
             alignMaxDiff = Inr (Some ret)"
  shows "Score ret = - real_of_int (max (ASpan ret) (BSpan ret))
       \<and> Identity ret =
           (if max (ASpan ret) (BSpan ret) \<noteq> 0
            then 100 * (real_of_int (max (ASpan ret) (BSpan ret)) - real_of_int (EditDistance ret))
                   / real_of_int (max (ASpan ret) (BSpan ret))
            else - 200)
       \<and> (ASpan ret = 1000 \<and> BSpan ret = 1000 \<and> EditDistance ret = 10
            \<longrightarrow> Identity ret = 99 \<and> Score ret = - 1000)"
proof -
  from assms obtain ret0 dr where
    "AlignOverlap_reverse ses revcmp targetSeq reverseQuerySeq ovl ret0 dr alignBandwidth
       alignMaxDiff = Inr ret"
    by (auto simp: AlignOverlap_def split: sum.splits prod.splits)
  from AlignOverlap_reverse_final [OF this]
  have sc: "Score ret = - real_of_int (max (ASpan ret) (BSpan ret))"
    and idn: "Identity ret =
           (if max (ASpan ret) (BSpan ret) \<noteq> 0
            then 100 * (real_of_int (max (ASpan ret) (BSpan ret)) - real_of_int (EditDistance ret))
                   / real_of_int (max (ASpan ret) (BSpan ret))
            else - 200)"
    by blast+
  have "Identity ret = 99 \<and> Score ret = - 1000"
    if "ASpan ret = 1000" "BSpan ret = 1000" "EditDistance ret = 10"
    using sc idn that by simp
  with sc idn show ?thesis by blast
qed


lemma ex_target1000_length: "length (Bases ex_target1000) = 1000"
  by (simp add: ex_target1000_def)

lemma ex_align_run:
  "AlignOverlap (SES_fixed \<lparr>lastQueryPos = 500, lastTargetPos = 500, diffs = 5\<rparr>)
      ReverseComplement ex_target1000 ex_query1000
      (ReverseComplement (Bases ex_query1000) 0 1000)
      (Some (createOverlap 7 4 12 0 False 500 600 1000 False 500 600 1000 (- 1) 12))
      (1 / 100) (5 / 100)
   = Inr (Some (createOverlap 7 4 (- 1000) 99 False 0 1000 1000 False 0 1000 1000 10 12))"
  by (simp add: AlignOverlap_def AlignOverlap_forward_def AlignOverlap_reverse_def Let_def
      FetchTargetSubsequence_def substr_def ex_target1000_length
      createOverlap_def SES_fixed_def ASpan_def BSpan_def)

theorem AlignOverlap_finalize_witness:
  "AlignOverlap (SES_fixed \<lparr>lastQueryPos = 500, lastTargetPos = 500, diffs = 5\<rparr>)
      ReverseComplement ex_target1000 ex_query1000
      (ReverseComplement (Bases ex_query1000) 0 1000)
      (Some (createOverlap 7 4 12 0 False 500 600 1000 False 500 600 1000 (- 1) 12))
      (1 / 100) (5 / 100)
   = Inr (Some (createOverlap 7 4 (- 1000) 99 False 0 1000 1000 False 0 1000 1000 10 12))
   \<and> ASpan (createOverlap 7 4 (- 1000) 99 False 0 1000 1000 False 0 1000 1000 10 12) = 1000
   \<and> BSpan (createOverlap 7 4 (- 1000) 99 False 0 1000 1000 False 0 1000 1000 10 12) = 1000
   \<and> EditDistance (createOverlap 7 4 (- 1000) 99 False 0 1000 1000 False 0 1000 1000 10 12) = 10
   \<and> Identity (createOverlap 7 4 (- 1000) 99 False 0 1000 1000 False 0 1000 1000 10 12) = 99
   \<and> Score (createOverlap 7 4 (- 1000) 99 False 0 1000 1000 False 0 1000 1000 10 12) = - 1000"
  using AlignOverlap_finalize [OF ex_align_run] ex_align_run
  by (simp add: createOverlap_def ASpan_def BSpan_def)

text \<open>
  C6 as stated fails when the span is zero: the routine reports no progress in either
  pass, both spans are \<open>0\<close>, and the identity is \<open>100 * (-2) = -200\<close>, not \<open>-2\<close>.
\<close>

theorem AlignOverlap_zero_span_identity:
  "AlignOverlap (SES_fixed \<lparr>lastQueryPos = 0, lastTargetPos = 0, diffs = 0\<rparr>)
      ReverseComplement ex_target4 ex_query4 ''ACGT''
      (Some (createOverlap 7 4 1 0 False 1 2 4 False 1 2 4 (- 1) 1)) (1 / 100) (5 / 100)
   = Inr (Some (createOverlap 7 4 0 (- 200) False 1 1 4 False 1 1 4 0 1))
   \<and> max (ASpan (createOverlap 7 4 0 (- 200) False 1 1 4 False 1 1 4 0 1))
         (BSpan (createOverlap 7 4 0 (- 200) False 1 1 4 False 1 1 4 0 1)) = 0
   \<and> Identity (createOverlap 7 4 0 (- 200) False 1 1 4 False 1 1 4 0 1) \<noteq> - 2"
  by (simp add: AlignOverlap_def AlignOverlap_forward_def AlignOverlap_reverse_def Let_def
      FetchTargetSubsequence_def substr_def createOverlap_def ex_target4_def ex_query4_def
      SES_fixed_def ASpan_def BSpan_def)

subsection \<open>The seed index: hash entries and lookups\<close>

lemma foldl_upt_invariant:
  assumes "I 0 s0" and "\<And>i s. i < n \<Longrightarrow> I i s \<Longrightarrow> I (Suc i) (f s i)"
  shows "I n (foldl f s0 [0..<n])"
  using assms by (induction n) simp_all

lemma set_update_entry:
  assumes "distinct (map fst al)" and "(k, v) \<in> set (AList.update k' v' al)"
  shows "(k = k' \<and> v = v') \<or> (k, v) \<in> set al"
proof -
  have d: "distinct (map fst (AList.update k' v' al))"
    using assms(1) by (simp add: distinct_update)
  from assms(2) d have "map_of (AList.update k' v' al) k = Some v"
    by simp
  then have "((map_of al)(k' \<mapsto> v')) k = Some v"
    by (simp add: update_conv')
  then show ?thesis
    using assms(1) by (auto split: if_splits dest: map_of_SomeD)
qed

lemma BuildHash_step_inv:
  assumes inv: "scan_inv DecodeKey seeds1 i st" and i: "i < length seeds1"
  shows "scan_inv DecodeKey seeds1 (Suc i) (BuildHash_step DecodeKey seeds1 st i)"
proof (cases "DecodeKey (seeds1 ! i) = prevKey st")
  case True
  have "\<And>j. scan_start st \<le> j \<Longrightarrow> j < int (Suc i) \<Longrightarrow> DecodeKey (seeds1 ! nat j) = prevKey st"
  proof -
    fix j assume j: "scan_start st \<le> j" "j < int (Suc i)"
    show "DecodeKey (seeds1 ! nat j) = prevKey st"
    proof (cases "j = int i")
      case True
      then show ?thesis using \<open>DecodeKey (seeds1 ! i) = prevKey st\<close> by simp
    next
      case False
      with j have "j < int i" by simp
      with j(1) inv show ?thesis unfolding scan_inv_def by blast
    qed
  qed
  moreover have "\<And>k s e. (k, (s, e)) \<in> set (scan_hash st) \<Longrightarrow>
        0 \<le> s \<and> s < e \<and> e \<le> int (Suc i) \<and>
        (\<forall>j. s \<le> j \<and> j < e \<longrightarrow> DecodeKey (seeds1 ! nat j) = k)"
  proof -
    fix k s e assume "(k, (s, e)) \<in> set (scan_hash st)"
    with inv have "0 \<le> s \<and> s < e \<and> e \<le> int i \<and>
        (\<forall>j. s \<le> j \<and> j < e \<longrightarrow> DecodeKey (seeds1 ! nat j) = k)"
      unfolding scan_inv_def by blast
    then show "0 \<le> s \<and> s < e \<and> e \<le> int (Suc i) \<and>
        (\<forall>j. s \<le> j \<and> j < e \<longrightarrow> DecodeKey (seeds1 ! nat j) = k)"
      by simp
  qed
  moreover have "scan_end st = int i" "0 \<le> scan_start st" "scan_start st \<le> int i"
    "distinct (map fst (scan_hash st))"
    using inv unfolding scan_inv_def by (auto split: if_splits)
  ultimately show ?thesis
    using True unfolding scan_inv_def BuildHash_step_def Let_def
    by (simp del: of_nat_Suc)
next
  case False
  have e: "scan_end st = int i" and s0: "0 \<le> scan_start st"
    and d: "distinct (map fst (scan_hash st))"
    using inv unfolding scan_inv_def by blast+
  have ipos: "i \<noteq> 0"
    using inv False unfolding scan_inv_def by (auto split: if_splits)
  then have s1: "scan_start st < int i"
    using inv unfolding scan_inv_def by (auto split: if_splits)
  have run: "\<And>j. scan_start st \<le> j \<Longrightarrow> j < int i \<Longrightarrow> DecodeKey (seeds1 ! nat j) = prevKey st"
    using inv unfolding scan_inv_def by blast
  have old: "\<And>k s e. (k, (s, e)) \<in> set (scan_hash st) \<Longrightarrow>
        0 \<le> s \<and> s < e \<and> e \<le> int i \<and>
        (\<forall>j. s \<le> j \<and> j < e \<longrightarrow> DecodeKey (seeds1 ! nat j) = k)"
    using inv unfolding scan_inv_def by blast
  let ?h = "AList.update (prevKey st) (scan_start st, int i) (scan_hash st)"
  have new: "0 \<le> s \<and> s < e \<and> e \<le> int (Suc i) \<and>
        (\<forall>j. s \<le> j \<and> j < e \<longrightarrow> DecodeKey (seeds1 ! nat j) = k)"
    if "(k, (s, e)) \<in> set ?h" for k s e
  proof -
    from set_update_entry [OF d that]
    consider "k = prevKey st" "s = scan_start st" "e = int i" | "(k, (s, e)) \<in> set (scan_hash st)"
      by auto
    then show ?thesis
    proof cases
      case 1
      then show ?thesis using s0 s1 run by simp
    next
      case 2
      from old [OF this] show ?thesis by simp
    qed
  qed
  have st': "BuildHash_step DecodeKey seeds1 st i =
      st\<lparr>scan_hash := ?h, scan_start := int i, scan_end := int i + 1,
         prevKey := DecodeKey (seeds1 ! i)\<rparr>"
    using False e by (simp add: BuildHash_step_def Let_def)
  have cur: "\<And>j. int i \<le> j \<Longrightarrow> j < int (Suc i) \<Longrightarrow> DecodeKey (seeds1 ! nat j) = DecodeKey (seeds1 ! i)"
  proof -
    fix j assume "int i \<le> j" "j < int (Suc i)"
    then have "j = int i" by simp
    then show "DecodeKey (seeds1 ! nat j) = DecodeKey (seeds1 ! i)" by simp
  qed
  show ?thesis
    unfolding st' scan_inv_def
    using new cur d by (simp add: distinct_update del: of_nat_Suc)
qed

lemma BuildHash_entries:
  assumes "hash idx = []"
  shows "(\<forall>k s e. (k, (s, e)) \<in> set (hash (BuildHash DecodeKey idx)) \<longrightarrow>
          0 \<le> s \<and> s < e \<and> e \<le> int (length (seeds (BuildHash DecodeKey idx))) \<and>
         (\<forall>j. s \<le> j \<and> j < e \<longrightarrow> DecodeKey (seeds (BuildHash DecodeKey idx) ! nat j) = k))
       \<and> distinct (map fst (hash (BuildHash DecodeKey idx)))"
  proof (cases "seeds idx = []")
    case True
    then show ?thesis using assms by (simp add: BuildHash_def)
  next
    case False
    define seeds1 where "seeds1 = radix_sort (seeds idx)"
    define st0 where "st0 = \<lparr>scan_hash = [], scan_start = 0, scan_end = 0,
                   prevKey = DecodeKey (seeds1 ! 0)\<rparr>"
    define st where "st = foldl (BuildHash_step DecodeKey seeds1) st0 [0..<length seeds1]"
    define h where "h = (if scan_end st > scan_start st
                 then AList.update (prevKey st) (scan_start st, scan_end st) (scan_hash st)
                 else scan_hash st)"
    have res: "BuildHash DecodeKey idx = idx\<lparr>seeds := seeds1, hash := h\<rparr>"
      using False by (simp add: BuildHash_def Let_def seeds1_def st0_def st_def h_def)
    have n: "length seeds1 > 0"
      using False by (simp add: seeds1_def radix_sort_def)
    have "scan_inv DecodeKey seeds1 0 st0"
      by (simp add: scan_inv_def st0_def)
    then have inv: "scan_inv DecodeKey seeds1 (length seeds1) st"
      unfolding st_def
      by (rule foldl_upt_invariant [where I = "scan_inv DecodeKey seeds1"])
         (rule BuildHash_step_inv)
    have e: "scan_end st = int (length seeds1)" and s0: "0 \<le> scan_start st"
      and s1: "scan_start st < int (length seeds1)"
      and d: "distinct (map fst (scan_hash st))"
      using inv n unfolding scan_inv_def by (auto split: if_splits)
    have run: "\<And>j. scan_start st \<le> j \<Longrightarrow> j < int (length seeds1) \<Longrightarrow>
        DecodeKey (seeds1 ! nat j) = prevKey st"
      using inv unfolding scan_inv_def by blast
    have old: "\<And>k s e. (k, (s, e)) \<in> set (scan_hash st) \<Longrightarrow>
        0 \<le> s \<and> s < e \<and> e \<le> int (length seeds1) \<and>
        (\<forall>j. s \<le> j \<and> j < e \<longrightarrow> DecodeKey (seeds1 ! nat j) = k)"
      using inv unfolding scan_inv_def by blast
    have h: "h = AList.update (prevKey st) (scan_start st, int (length seeds1)) (scan_hash st)"
      using e s1 by (simp add: h_def)
    have new: "0 \<le> s \<and> s < e \<and> e \<le> int (length seeds1) \<and>
        (\<forall>j. s \<le> j \<and> j < e \<longrightarrow> DecodeKey (seeds1 ! nat j) = k)"
      if "(k, (s, e)) \<in> set h" for k s e
    proof -
      from set_update_entry [OF d that [unfolded h]]
      consider "k = prevKey st" "s = scan_start st" "e = int (length seeds1)"
        | "(k, (s, e)) \<in> set (scan_hash st)"
        by auto
      then show ?thesis
      proof cases
        case 1
        then show ?thesis using s0 s1 run by simp
      next
        case 2
        from old [OF this] show ?thesis .
      qed
    qed
    have "distinct (map fst h)"
      using d by (simp add: h distinct_update)
    with new show ?thesis
      unfolding res by simp
  qed

lemma BuildHash_seeds: "set (seeds (BuildHash DecodeKey idx)) = set (seeds idx)"
  by (simp add: BuildHash_def Let_def radix_sort_def)

lemma slice_nth:
  assumes "x \<in> set (take (nat (e - s)) (drop (nat s) xs))" and "0 \<le> s"
  shows "\<exists>j. s \<le> j \<and> j < e \<and> nat j < length xs \<and> x = xs ! nat j"
proof -
  from assms(1) obtain t where t: "t < length (take (nat (e - s)) (drop (nat s) xs))"
    and x: "x = take (nat (e - s)) (drop (nat s) xs) ! t"
    by (auto simp: in_set_conv_nth)
  from t have t1: "t < nat (e - s)" and t2: "nat s + t < length xs" by auto
  from x t1 t2 have "x = xs ! (nat s + t)" by simp
  moreover have "nat (s + int t) = nat s + t" using assms(2) by (simp add: nat_add_distrib)
  ultimately have "x = xs ! nat (s + int t)" by simp
  moreover have "s \<le> s + int t" "s + int t < e" using t1 by auto
  moreover have "nat (s + int t) < length xs"
    using t2 \<open>nat (s + int t) = nat s + t\<close> by simp
  ultimately show ?thesis by blast
qed

text \<open>
  C1. For every index built from a seed array, with any key decoder: every hash entry
  \<open>(start, end)\<close> of a key \<open>k\<close> satisfies \<open>0 \<le> start < end \<le> len(seeds)\<close> and all seeds in
  \<open>[start, end)\<close> decode to \<open>k\<close>; every element of \<open>GetSeeds(k)\<close> decodes to \<open>k\<close>, the
  returned count is the length of the slice, and the slice is empty when no seed of the
  array has the key \<open>k\<close>.
\<close>

theorem SeedIndex_hash_entries:
  "(\<forall>k s e. (k, (s, e)) \<in> set (hash (SeedIndex_new DecodeKey cache seeds0)) \<longrightarrow>
      0 \<le> s \<and> s < e \<and> e \<le> int (length (seeds (SeedIndex_new DecodeKey cache seeds0))) \<and>
      (\<forall>j. s \<le> j \<and> j < e \<longrightarrow>
         DecodeKey (seeds (SeedIndex_new DecodeKey cache seeds0) ! nat j) = k))
   \<and> (\<forall>k. \<forall>x \<in> set (snd (GetSeeds (SeedIndex_new DecodeKey cache seeds0) k)).
          DecodeKey x = k)
   \<and> (\<forall>k. fst (GetSeeds (SeedIndex_new DecodeKey cache seeds0) k) =
          int (length (snd (GetSeeds (SeedIndex_new DecodeKey cache seeds0) k))))
   \<and> (\<forall>k. k \<notin> DecodeKey ` set seeds0 \<longrightarrow>
          GetSeeds (SeedIndex_new DecodeKey cache seeds0) k = (0, []))"
proof -
  define idx where "idx = SeedIndex_new DecodeKey cache seeds0"
  have idx: "idx = BuildHash DecodeKey \<lparr>seedDBCache = cache, seeds = seeds0, hash = []\<rparr>"
    by (simp add: idx_def SeedIndex_new_def)
  have h0: "hash \<lparr>seedDBCache = cache, seeds = seeds0, hash = []\<rparr> = []" by simp
  have ent: "\<And>k s e. (k, (s, e)) \<in> set (hash idx) \<Longrightarrow>
      0 \<le> s \<and> s < e \<and> e \<le> int (length (seeds idx)) \<and>
      (\<forall>j. s \<le> j \<and> j < e \<longrightarrow> DecodeKey (seeds idx ! nat j) = k)"
    and dist: "distinct (map fst (hash idx))"
    using BuildHash_entries [OF h0, of DecodeKey] unfolding idx by blast+
  have set_seeds: "set (seeds idx) = set seeds0"
    unfolding idx by (simp add: BuildHash_seeds)
  have look: "(k, (s, e)) \<in> set (hash idx)" if "map_of (hash idx) k = Some (s, e)" for k s e
    using that by (rule map_of_SomeD)
  have keys: "DecodeKey x = k" if "x \<in> set (snd (GetSeeds idx k))" for k x
  proof (cases "map_of (hash idx) k")
    case None
    with that show ?thesis by (simp add: GetSeeds_def)
  next
    case (Some p)
    obtain s e where p: "p = (s, e)" by (cases p)
    from Some p have m: "(k, (s, e)) \<in> set (hash idx)" by (simp add: look)
    from that Some p have x: "x \<in> set (take (nat (e - s)) (drop (nat s) (seeds idx)))"
      by (simp add: GetSeeds_def)
    from ent [OF m] have s0: "0 \<le> s"
      and all: "\<And>j. s \<le> j \<Longrightarrow> j < e \<Longrightarrow> DecodeKey (seeds idx ! nat j) = k"
      by blast+
    from slice_nth [OF x s0] obtain j where "s \<le> j" "j < e" "x = seeds idx ! nat j"
      by blast
    then show ?thesis using all by simp
  qed
  have len: "fst (GetSeeds idx k) = int (length (snd (GetSeeds idx k)))" for k
  proof (cases "map_of (hash idx) k")
    case None
    then show ?thesis by (simp add: GetSeeds_def)
  next
    case (Some p)
    obtain s e where p: "p = (s, e)" by (cases p)
    from Some p have m: "(k, (s, e)) \<in> set (hash idx)" by (simp add: look)
    from ent [OF m] have "0 \<le> s" "s < e" "e \<le> int (length (seeds idx))" by blast+
    then have "int (length (take (nat (e - s)) (drop (nat s) (seeds idx)))) = e - s"
      by (simp add: min_def) linarith
    with Some p show ?thesis by (simp add: GetSeeds_def)
  qed
  have absent: "GetSeeds idx k = (0, [])" if "k \<notin> DecodeKey ` set seeds0" for k
  proof (cases "map_of (hash idx) k")
    case None
    then show ?thesis by (simp add: GetSeeds_def)
  next
    case (Some p)
    obtain s e where p: "p = (s, e)" by (cases p)
    from Some p have m: "(k, (s, e)) \<in> set (hash idx)" by (simp add: look)
    from ent [OF m] have s: "0 \<le> s" "s < e" "e \<le> int (length (seeds idx))"
      and all: "\<And>j. s \<le> j \<Longrightarrow> j < e \<Longrightarrow> DecodeKey (seeds idx ! nat j) = k"
      by blast+
    from all [of s] s have k: "DecodeKey (seeds idx ! nat s) = k" by simp
    from s have "seeds idx ! nat s \<in> set (seeds idx)" by (simp add: nat_less_iff)
    with k set_seeds that show ?thesis by blast
  qed
  show ?thesis
    unfolding idx_def [symmetric]
  proof (intro conjI allI impI ballI)
    fix k s e assume "(k, (s, e)) \<in> set (hash idx)"
    from ent [OF this] show "0 \<le> s" "s < e" "e \<le> int (length (seeds idx))" by blast+
    fix j assume "s \<le> j \<and> j < e"
    with ent [OF \<open>(k, (s, e)) \<in> set (hash idx)\<close>] show "DecodeKey (seeds idx ! nat j) = k"
      by blast
  qed (use keys len absent in blast)+
qed

lemma ex_seeds_value: "ex_seeds = [92233720377137692692, 55340232221128654863, 92233720368547758084]"
  unfolding ex_seeds_def Seed_Encode_def MASK_32bit_def
  by (simp del: push_bit_and add: mask_eq_exp_minus_1)

lemma ex_seeds_keys: "Seed_DecodeKey 92233720377137692692 = 5" "Seed_DecodeKey 55340232221128654863 = 3"
  "Seed_DecodeKey 92233720368547758084 = 5"
  by (simp_all add: Seed_DecodeKey_def)

lemma ex_index: "SeedIndex_new Seed_DecodeKey ex_cache ex_seeds =
  \<lparr>seedDBCache = ex_cache, seeds = [55340232221128654863, 92233720368547758084, 92233720377137692692],
   hash = [(3, (0, 1)), (5, (1, 3))]\<rparr>"
  by (simp add: SeedIndex_new_def BuildHash_def ex_seeds_value radix_sort_def Let_def
      BuildHash_step_def ex_seeds_keys upt_conv_Cons)


theorem SeedIndex_hash_entries_witness:
  "(5, (1, 3)) \<in> set (hash (SeedIndex_new Seed_DecodeKey ex_cache ex_seeds))
   \<and> (0 :: int) \<le> 1 \<and> (1 :: int) < 3
   \<and> 3 \<le> int (length (seeds (SeedIndex_new Seed_DecodeKey ex_cache ex_seeds)))
   \<and> Seed_DecodeKey (seeds (SeedIndex_new Seed_DecodeKey ex_cache ex_seeds) ! nat 1) = 5
   \<and> Seed_DecodeKey (seeds (SeedIndex_new Seed_DecodeKey ex_cache ex_seeds) ! nat 2) = 5
   \<and> GetSeeds (SeedIndex_new Seed_DecodeKey ex_cache ex_seeds) 5 =
         (2, [92233720368547758084, 92233720377137692692])
   \<and> 9 \<notin> Seed_DecodeKey ` set ex_seeds
   \<and> GetSeeds (SeedIndex_new Seed_DecodeKey ex_cache ex_seeds) 9 = (0, [])"
proof -
  have m: "(5, (1, 3)) \<in> set (hash (SeedIndex_new Seed_DecodeKey ex_cache ex_seeds))"
    by (simp add: ex_index)
  have absent: "9 \<notin> Seed_DecodeKey ` set ex_seeds"
    by (simp add: ex_seeds_value ex_seeds_keys)
  from SeedIndex_hash_entries [of Seed_DecodeKey ex_cache ex_seeds] m absent
  have r: "(0 :: int) \<le> 1 \<and> (1 :: int) < 3
      \<and> 3 \<le> int (length (seeds (SeedIndex_new Seed_DecodeKey ex_cache ex_seeds)))
      \<and> (\<forall>j. 1 \<le> j \<and> j < 3 \<longrightarrow>
            Seed_DecodeKey (seeds (SeedIndex_new Seed_DecodeKey ex_cache ex_seeds) ! nat j) = 5)
      \<and> GetSeeds (SeedIndex_new Seed_DecodeKey ex_cache ex_seeds) 9 = (0, [])"
    by blast
  from r have "(1 :: int) \<le> 1 \<and> (1 :: int) < 3 \<longrightarrow>
      Seed_DecodeKey (seeds (SeedIndex_new Seed_DecodeKey ex_cache ex_seeds) ! nat 1) = 5"
    by blast
  then have j1:
    "Seed_DecodeKey (seeds (SeedIndex_new Seed_DecodeKey ex_cache ex_seeds) ! nat 1) = 5"
    by simp
  from r have "(1 :: int) \<le> 2 \<and> (2 :: int) < 3 \<longrightarrow>
      Seed_DecodeKey (seeds (SeedIndex_new Seed_DecodeKey ex_cache ex_seeds) ! nat 2) = 5"
    by blast
  then have j2:
    "Seed_DecodeKey (seeds (SeedIndex_new Seed_DecodeKey ex_cache ex_seeds) ! nat 2) = 5"
    by simp
  have g5: "GetSeeds (SeedIndex_new Seed_DecodeKey ex_cache ex_seeds) 5 =
         (2, [92233720368547758084, 92233720377137692692])"
    by (simp add: ex_index GetSeeds_def)
  from r have "(0 :: int) \<le> 1 \<and> (1 :: int) < 3
      \<and> 3 \<le> int (length (seeds (SeedIndex_new Seed_DecodeKey ex_cache ex_seeds)))
      \<and> GetSeeds (SeedIndex_new Seed_DecodeKey ex_cache ex_seeds) 9 = (0, [])"
    by blast
  with m absent j1 j2 g5 show ?thesis by blast
qed

subsection \<open>The seed index: collecting hits\<close>

lemma for_loop_appends:
  assumes "\<And>x a. x \<in> set xs \<Longrightarrow> body x a = Inr (a @ [F x])"
  shows "for_loop body xs acc = Inr (acc @ map F xs)"
  using assms
proof (induction xs arbitrary: acc)
  case Nil
  then show ?case by simp
next
  case (Cons x xs)
  have "body x acc = Inr (acc @ [F x])" by (rule Cons.prems) simp
  moreover have "for_loop body xs (acc @ [F x]) = Inr ((acc @ [F x]) @ map F xs)"
    by (rule Cons.IH) (simp add: Cons.prems)
  ultimately show ?case by simp
qed

lemma for_loop_concat:
  assumes "\<And>x a. x \<in> set xs \<Longrightarrow> body x a = Inr (a @ G x)"
  shows "for_loop body xs acc = Inr (acc @ concat (map G xs))"
  using assms
proof (induction xs arbitrary: acc)
  case Nil
  then show ?case by simp
next
  case (Cons x xs)
  have "body x acc = Inr (acc @ G x)" by (rule Cons.prems) simp
  moreover have "for_loop body xs (acc @ G x) = Inr ((acc @ G x) @ concat (map G xs))"
    by (rule Cons.IH) (simp add: Cons.prems)
  ultimately show ?case by simp
qed

text \<open>The constructor leaves every range of the hash inside the seed array.\<close>

lemma SeedIndex_new_hash_in_range: "hash_in_range (SeedIndex_new DecodeKey cache seeds0)"
proof -
  let ?idx = "\<lparr>seedDBCache = cache, seeds = seeds0, hash = []\<rparr>"
  have "hash ?idx = []" by simp
  from BuildHash_entries [OF this, of DecodeKey]
  show ?thesis
    unfolding hash_in_range_def SeedIndex_new_def list_all_iff by blast
qed

text \<open>The body of the inner loop appends the hit of the specification.\<close>

lemma CollectHits_target_hit:
  assumes "0 \<le> i" "i < int (length (seeds idx))" "targets_known decode idx"
  shows "CollectHits_target decode idx kmerSize q i hits =
     Inr (hits @ [spec_hit (seedDBCache idx) kmerSize q (decode (seeds idx ! nat i))])"
proof -
  have "seeds idx ! nat i \<in> set (seeds idx)" using assms(1,2) by simp
  with assms(3) have "0 \<le> seqID (decode (seeds idx ! nat i))"
    "seqID (decode (seeds idx ! nat i)) < int (length (seedLines (seedDBCache idx)))"
    unfolding targets_known_def list_all_iff by blast+
  then show ?thesis
    using assms(1,2)
    by (simp add: CollectHits_target_def GetSeedsLine_def Let_def spec_hit_def)
qed

lemma CollectHits_query_hits:
  assumes "hash_in_range idx" "targets_known decode idx"
  shows "CollectHits_query decode idx (KmerSize (seedParams (seedDBCache idx))) freqCutoff
       querySeed hits =
     Inr (hits @ spec_query_hits decode idx freqCutoff querySeed)"
proof (cases "map_of (hash idx) (key (decode querySeed))")
  case None
  then show ?thesis by (simp add: CollectHits_query_def spec_query_hits_def)
next
  case (Some p)
  obtain start end' where p: "p = (start, end')" by (cases p)
  let ?k = "KmerSize (seedParams (seedDBCache idx))"
  from Some p have "(key (decode querySeed), (start, end')) \<in> set (hash idx)"
    by (simp add: map_of_SomeD)
  with assms(1) have r: "0 \<le> start" "end' \<le> int (length (seeds idx))"
    unfolding hash_in_range_def list_all_iff by blast+
  have "for_loop (CollectHits_target decode idx ?k (decode querySeed)) [start..end' - 1] hits =
      Inr (hits @ map (\<lambda>i. spec_hit (seedDBCache idx) ?k (decode querySeed)
                              (decode (seeds idx ! nat i))) [start..end' - 1])"
  proof (rule for_loop_appends)
    fix x a assume "x \<in> set [start..end' - 1]"
    then have "0 \<le> x" "x < int (length (seeds idx))" using r by simp_all
    then show "CollectHits_target decode idx ?k (decode querySeed) x a =
        Inr (a @ [spec_hit (seedDBCache idx) ?k (decode querySeed) (decode (seeds idx ! nat x))])"
      by (rule CollectHits_target_hit) (rule assms(2))
  qed
  then show ?thesis
    using Some p by (simp add: CollectHits_query_def spec_query_hits_def Let_def)
qed

text \<open>
  The whole of \<open>CollectHits\<close>: it returns, with the hits of the query seeds one after the
  other, and the flag says whether there is a hit.
\<close>

lemma CollectHits_hits:
  assumes "hash_in_range idx" "targets_known decode idx"
  shows "CollectHits decode idx querySeeds freqCutoff =
     Inr (concat (map (spec_query_hits decode idx freqCutoff) querySeeds) \<noteq> [],
          concat (map (spec_query_hits decode idx freqCutoff) querySeeds))"
proof -
  have "for_loop (CollectHits_query decode idx (KmerSize (seedParams (seedDBCache idx)))
      freqCutoff) querySeeds [] =
    Inr ([] @ concat (map (spec_query_hits decode idx freqCutoff) querySeeds))"
    by (rule for_loop_concat) (rule CollectHits_query_hits [OF assms])
  then show ?thesis by (simp add: CollectHits_def Let_def)
qed

text \<open>
  Claim C5. For an index whose hash ranges lie inside the seed array (as the constructor
  leaves them) and whose seeds belong to sequences known to the cache, \<open>CollectHits\<close>
  returns, and for every query seed and every target seed of its bucket, a bucket that the
  frequency filter does not skip (\<open>freqCutoff \<le> 0\<close> or at most \<open>freqCutoff\<close> seeds), the hit
  of the pair is among the collected hits: when the strands differ, the hit with
  \<open>targetRev = true\<close> and the target position reflected to \<open>numBases - (pos + kmerSize)\<close>,
  \<open>numBases\<close> read from the cache line of the target; when the strands agree, the hit with
  \<open>targetRev = false\<close> and the raw target position.
\<close>

theorem CollectHits_strand_reflection:
  assumes rng: "hash_in_range idx" and known: "targets_known decode idx"
    and q: "querySeed \<in> set querySeeds"
    and look: "map_of (hash idx) (key (decode querySeed)) = Some (start, end')"
    and freq: "\<not> (freqCutoff > 0 \<and> end' - start > freqCutoff)"
    and i: "start \<le> i" "i < end'"
  shows "\<exists>hits. CollectHits decode idx querySeeds freqCutoff = Inr (True, hits) \<and>
     (if IsRev (decode querySeed) \<noteq> IsRev (decode (seeds idx ! nat i))
      then \<lparr>targetId = seqID (decode (seeds idx ! nat i)), targetRev = True,
            targetPos = numBases (seedLines (seedDBCache idx)
                                    ! nat (seqID (decode (seeds idx ! nat i))))
                        - (pos (decode (seeds idx ! nat i))
                           + KmerSize (seedParams (seedDBCache idx))),
            flags = 0, queryPos = pos (decode querySeed)\<rparr>
      else \<lparr>targetId = seqID (decode (seeds idx ! nat i)), targetRev = False,
            targetPos = pos (decode (seeds idx ! nat i)), flags = 0,
            queryPos = pos (decode querySeed)\<rparr>) \<in> set hits"
proof -
  let ?k = "KmerSize (seedParams (seedDBCache idx))"
  let ?h = "spec_hit (seedDBCache idx) ?k (decode querySeed) (decode (seeds idx ! nat i))"
  define hits where "hits = concat (map (spec_query_hits decode idx freqCutoff) querySeeds)"
  have "i \<in> set [start..end' - 1]" using i by simp
  then have "?h \<in> set (spec_query_hits decode idx freqCutoff querySeed)"
    using look freq by (simp add: spec_query_hits_def)
  with q have mem: "?h \<in> set hits" by (auto simp: hits_def)
  then have "hits \<noteq> []" by (cases hits) simp_all
  then have "CollectHits decode idx querySeeds freqCutoff = Inr (True, hits)"
    unfolding hits_def by (simp add: CollectHits_hits [OF rng known])
  with mem show ?thesis by (auto simp: spec_hit_def)
qed

lemma ex_S4_seeds:
  "ex_target_seeds = [129127208550326599721, 129127208533146730510, 166020696671975899143]"
  "ex_query_seeds = [129127208515966861332]"
  unfolding ex_target_seeds_def ex_query_seeds_def Seed_Encode_def MASK_32bit_def
  by (simp_all del: push_bit_and add: mask_eq_exp_minus_1)

lemma ex_S4_decode:
  "Seed_DecodeKey 129127208550326599721 = 7"
  "Seed_DecodeKey 129127208533146730510 = 7"
  "Seed_DecodeKey 166020696671975899143 = 9"
  "Seed_decode 129127208550326599721 = \<lparr>key = 7, seqID = 4, pos = 20, IsRev = True\<rparr>"
  "Seed_decode 129127208533146730510 = \<lparr>key = 7, seqID = 2, pos = 7, IsRev = False\<rparr>"
  "Seed_decode 166020696671975899143 = \<lparr>key = 9, seqID = 1, pos = 3, IsRev = True\<rparr>"
  "Seed_decode 129127208515966861332 = \<lparr>key = 7, seqID = 0, pos = 10, IsRev = False\<rparr>"
  by (simp_all add: Seed_decode_def Seed_DecodeKey_def MASK_32bit_def mask_eq_exp_minus_1)

lemma ex_S4_index:
  "SeedIndex_new Seed_DecodeKey ex_cache5 ex_target_seeds =
     \<lparr>seedDBCache = ex_cache5,
      seeds = [129127208533146730510, 129127208550326599721, 166020696671975899143],
      hash = [(7, (0, 2)), (9, (2, 3))]\<rparr>"
  by (simp add: SeedIndex_new_def BuildHash_def ex_S4_seeds radix_sort_def Let_def
      BuildHash_step_def ex_S4_decode)

lemma ex_S4_run:
  "CollectHits Seed_decode (SeedIndex_new Seed_DecodeKey ex_cache5 ex_target_seeds)
     ex_query_seeds 2 =
   Inr (True, [\<lparr>targetId = 2, targetRev = False, targetPos = 7, flags = 0, queryPos = 10\<rparr>,
              \<lparr>targetId = 4, targetRev = True, targetPos = 50, flags = 0, queryPos = 10\<rparr>])"
  unfolding ex_S4_index
  by (simp add: ex_S4_seeds CollectHits_def CollectHits_query_def
      CollectHits_target_def ex_S4_decode Let_def GetSeedsLine_def ex_cache5_def ex_params_def
      upto.simps)

text \<open>
  The scenario of C5: query seed \<open>(key = 7, pos = 10, forward)\<close>, target seed
  \<open>(key = 7, seqId = 4, pos = 20, reverse)\<close>, \<open>numBases = 100\<close> for the target 4 and
  \<open>kmerSize = 30\<close>; the emitted hit is \<open>(targetId = 4, isRev = true, targetPos = 50,
  queryPos = 10)\<close>. The bucket of the key holds a second target seed
  \<open>(seqId = 2, pos = 7, forward)\<close>, whose hit is \<open>(targetId = 2, isRev = false, targetPos = 7,
  queryPos = 10)\<close>; the bucket has 2 seeds and \<open>freqCutoff = 2\<close> does not skip it.
\<close>

theorem CollectHits_strand_reflection_witness:
  "hash_in_range (SeedIndex_new Seed_DecodeKey ex_cache5 ex_target_seeds)
   \<and> targets_known Seed_decode (SeedIndex_new Seed_DecodeKey ex_cache5 ex_target_seeds)
   \<and> 129127208515966861332 \<in> set ex_query_seeds
   \<and> map_of (hash (SeedIndex_new Seed_DecodeKey ex_cache5 ex_target_seeds))
        (key (Seed_decode 129127208515966861332)) = Some (0, 2)
   \<and> \<not> ((2 :: int) > 0 \<and> (2 :: int) - 0 > 2)
   \<and> map (\<lambda>t. (IsRev t, seqID t, pos t))
        (map Seed_decode (seeds (SeedIndex_new Seed_DecodeKey ex_cache5 ex_target_seeds)))
      = [(False, 2, 7), (True, 4, 20), (True, 1, 3)]
   \<and> IsRev (Seed_decode 129127208515966861332) = False
   \<and> map numBases (seedLines ex_cache5) ! 4 = 100
   \<and> KmerSize (seedParams ex_cache5) = 30
   \<and> CollectHits Seed_decode (SeedIndex_new Seed_DecodeKey ex_cache5 ex_target_seeds)
        ex_query_seeds 2 =
       Inr (True, [\<lparr>targetId = 2, targetRev = False, targetPos = 7, flags = 0, queryPos = 10\<rparr>,
                  \<lparr>targetId = 4, targetRev = True, targetPos = 50, flags = 0, queryPos = 10\<rparr>])
   \<and> (\<exists>hits. CollectHits Seed_decode (SeedIndex_new Seed_DecodeKey ex_cache5 ex_target_seeds)
                ex_query_seeds 2 = Inr (True, hits)
         \<and> \<lparr>targetId = 4, targetRev = True, targetPos = 100 - (20 + 30), flags = 0,
             queryPos = 10\<rparr> \<in> set hits
         \<and> \<lparr>targetId = 2, targetRev = False, targetPos = 7, flags = 0,
             queryPos = 10\<rparr> \<in> set hits)"
proof -
  let ?idx = "SeedIndex_new Seed_DecodeKey ex_cache5 ex_target_seeds"
  have rng: "hash_in_range ?idx"
    by (simp add: ex_S4_index hash_in_range_def)
  have known: "targets_known Seed_decode ?idx"
    unfolding ex_S4_index by (simp add: targets_known_def ex_S4_decode ex_cache5_def)
  have q: "129127208515966861332 \<in> set ex_query_seeds"
    by (simp add: ex_S4_seeds)
  have look: "map_of (hash ?idx) (key (Seed_decode 129127208515966861332)) = Some (0, 2)"
    by (simp add: ex_S4_index ex_S4_decode)
  have freq: "\<not> ((2 :: int) > 0 \<and> (2 :: int) - 0 > 2)" by simp
  have i0: "(0 :: int) \<le> 0" "(0 :: int) < 2" and i1: "(0 :: int) \<le> 1" "(1 :: int) < 2"
    by simp_all
  have tg: "map (\<lambda>t. (IsRev t, seqID t, pos t)) (map Seed_decode (seeds ?idx))
      = [(False, 2, 7), (True, 4, 20), (True, 1, 3)]"
    by (simp add: ex_S4_index ex_S4_decode)
  have c: "map numBases (seedLines ex_cache5) ! 4 = 100" "KmerSize (seedParams ex_cache5) = 30"
    by (simp_all add: ex_cache5_def ex_params_def)
  have h0: "\<exists>hits. CollectHits Seed_decode ?idx ex_query_seeds 2 = Inr (True, hits) \<and>
      \<lparr>targetId = 2, targetRev = False, targetPos = 7, flags = 0, queryPos = 10\<rparr> \<in> set hits"
    using CollectHits_strand_reflection [OF rng known q look freq i0]
    unfolding ex_S4_index by (simp add: ex_S4_decode)
  have h1: "\<exists>hits. CollectHits Seed_decode ?idx ex_query_seeds 2 = Inr (True, hits) \<and>
      \<lparr>targetId = 4, targetRev = True, targetPos = 100 - (20 + 30), flags = 0, queryPos = 10\<rparr>
        \<in> set hits"
    using CollectHits_strand_reflection [OF rng known q look freq i1]
    unfolding ex_S4_index by (simp add: ex_S4_decode ex_cache5_def ex_params_def)
  from h0 h1 have "\<exists>hits. CollectHits Seed_decode ?idx ex_query_seeds 2 = Inr (True, hits)
         \<and> \<lparr>targetId = 4, targetRev = True, targetPos = 100 - (20 + 30), flags = 0,
             queryPos = 10\<rparr> \<in> set hits
         \<and> \<lparr>targetId = 2, targetRev = False, targetPos = 7, flags = 0,
             queryPos = 10\<rparr> \<in> set hits"
    by auto
  with rng known q look freq tg c ex_S4_run show ?thesis
    by (simp add: ex_S4_decode)
qed

text \<open>
  With \<open>freqCutoff = 1\<close> the bucket of the key 7, which has 2 seeds, is skipped: the query
  seed and the target seed \<open>(seqId = 4, pos = 20, reverse)\<close> have the same key and different
  strands, and no hit is emitted.
\<close>

theorem CollectHits_frequent_bucket_skipped:
  "CollectHits Seed_decode (SeedIndex_new Seed_DecodeKey ex_cache5 ex_target_seeds)
     ex_query_seeds 1 = Inr (False, [])
   \<and> Seed_decode (hd ex_query_seeds) = \<lparr>key = 7, seqID = 0, pos = 10, IsRev = False\<rparr>
   \<and> Seed_decode (seeds (SeedIndex_new Seed_DecodeKey ex_cache5 ex_target_seeds) ! 1)
       = \<lparr>key = 7, seqID = 4, pos = 20, IsRev = True\<rparr>
   \<and> GetSeeds (SeedIndex_new Seed_DecodeKey ex_cache5 ex_target_seeds) 7
       = (2, [129127208533146730510, 129127208550326599721])"
  unfolding ex_S4_index
  by (simp add: ex_S4_seeds CollectHits_def CollectHits_query_def ex_S4_decode Let_def GetSeeds_def)

subsection \<open>The seed index: frequency statistics\<close>

lemma collect_freqs_length:
  assumes "collect_freqs h (freqs, sumFreqs, n) = (freqs', sumFreqs', n')"
    and "n = int (length freqs)"
  shows "n' = int (length freqs')"
  using assms
proof (induction h arbitrary: freqs sumFreqs n)
  case Nil
  then show ?case by auto
next
  case (Cons a h)
  obtain k start end' where a: "a = (k, (start, end'))" by (cases a) auto
  show ?case
  proof (cases "end' - start = 0")
    case True
    with Cons.prems a have "collect_freqs h (freqs, sumFreqs, n) = (freqs', sumFreqs', n')"
      by simp
    from Cons.IH [OF this Cons.prems(2)] show ?thesis .
  next
    case False
    with Cons.prems a have "collect_freqs h (freqs @ [end' - start],
        sumFreqs + real_of_int (end' - start), n + 1) = (freqs', sumFreqs', n')"
      by (simp add: Let_def)
    moreover have "n + 1 = int (length (freqs @ [end' - start]))"
      using Cons.prems(2) by simp
    ultimately show ?thesis by (rule Cons.IH)
  qed
qed

lemma ComputeFrequencyStats_cutoff_zero:
  assumes c: "collect_freqs (hash idx) ([], 0, 0) = (freqs0, sumFreqs, n)" and n: "n > 0"
  shows "ComputeFrequencyStats idx 0 = Inl OutOfBounds"
proof -
  have len: "n = int (length freqs0)"
    using collect_freqs_length [OF c] by simp
  have ne: "hash idx \<noteq> []"
    using c n by auto
  have last: "vec_at (radix_sort freqs0) (int (length (radix_sort freqs0)) - 1)
      = Inr (radix_sort freqs0 ! nat (n - 1))"
    using len n by (simp add: vec_at_def radix_sort_def)
  have cut: "vec_at (radix_sort freqs0) \<lfloor>real_of_int n * (1 - 0)\<rfloor> = Inl OutOfBounds"
    using len by (simp add: vec_at_def radix_sort_def)
  show ?thesis
    using ne c n last cut by (simp add: ComputeFrequencyStats_def Let_def)
qed

text \<open>
  C9 at a failing input. The index of three seeds with the keys 5, 3, 5 has the two nonzero
  bucket sizes 1 and 2; with \<open>percentileCutoff = 0\<close>, which the range check accepts, the
  rank is \<open>floor(2 * (1 - 0)) = 2\<close>, one past the last of the two sorted frequencies, and
  the read \<open>freqs[cutoffId]\<close> is out of bounds. With \<open>percentileCutoff = 1/2\<close> the rank is 1
  and the statistics are \<open>(max, avg, median, cutoff) = (2, 3/2, 3/2, 2)\<close>.
\<close>

theorem ComputeFrequencyStats_cutoff_zero_out_of_bounds:
  "hash (SeedIndex_new Seed_DecodeKey ex_cache ex_seeds) = [(3, (0, 1)), (5, (1, 3))]
   \<and> \<lfloor>real_of_int 2 * (1 - 0 :: real)\<rfloor> = 2
   \<and> ComputeFrequencyStats (SeedIndex_new Seed_DecodeKey ex_cache ex_seeds) 0 = Inl OutOfBounds
   \<and> ComputeFrequencyStats (SeedIndex_new Seed_DecodeKey ex_cache ex_seeds) (1 / 2)
       = Inr (2, 3 / 2, 3 / 2, 2)"
  by (simp add: ex_index ComputeFrequencyStats_def Let_def radix_sort_def vec_at_def)

subsection \<open>The index cache: decimal numbers\<close>

text \<open>
  The recursive equations of the text functions are unfolded by hand, where a proof needs
  them.
\<close>

declare dec_nat.simps [simp del]
declare getlines.simps [simp del]
declare file_lines.simps [simp del]
declare P_offset_loop.simps [simp del]

lemma isdigit_digit_char: "d < 10 \<Longrightarrow> isdigit (digit_char d)"
  by (simp add: isdigit_def digit_char_def)

lemma digit_value_digit_char: "d < 10 \<Longrightarrow> digit_value (digit_char d) = d"
  by (simp add: digit_value_def digit_char_def)

lemma isdigit_not_space: "isdigit c \<Longrightarrow> \<not> isspace c"
  by (auto simp: isdigit_def isspace_def)

lemma isdigit_chars:
  "isdigit c \<Longrightarrow> c \<noteq> CHR ''-'' \<and> c \<noteq> CHR ''+'' \<and> c \<noteq> CHR '','' \<and> c \<noteq> CHR ''='' \<and> c \<noteq> NL \<and> c \<noteq> TAB"
  by (auto simp: isdigit_def)

lemma dec_nat_digits: "\<forall>c \<in> set (dec_nat n). isdigit c"
proof (induction n rule: dec_nat.induct)
  case (1 n)
  show ?case
  proof (cases "n < 10")
    case True
    then show ?thesis by (simp add: dec_nat.simps [of n] isdigit_digit_char)
  next
    case False
    with 1 show ?thesis by (simp add: dec_nat.simps [of n] isdigit_digit_char)
  qed
qed

lemma dec_nat_nonempty: "dec_nat n \<noteq> []"
  by (subst dec_nat.simps) simp

lemma digits_value_snoc: "digits_value (ds @ [c]) = 10 * digits_value ds + digit_value c"
  by (simp add: digits_value_def)

lemma digits_value_dec_nat: "digits_value (dec_nat n) = n"
proof (induction n rule: dec_nat.induct)
  case (1 n)
  show ?case
  proof (cases "n < 10")
    case True
    then show ?thesis
      by (simp add: dec_nat.simps [of n] digits_value_def digit_value_digit_char)
  next
    case False
    with 1 have "digits_value (dec_nat (n div 10)) = n div 10" by simp
    with False show ?thesis
      by (simp add: dec_nat.simps [of n] digits_value_snoc digit_value_digit_char)
  qed
qed

lemma takeWhile_digits:
  assumes "rest = [] \<or> \<not> isdigit (hd rest)"
  shows "takeWhile isdigit (dec_nat n @ rest) = dec_nat n"
proof -
  have "takeWhile isdigit rest = []" using assms by (cases rest) auto
  then show ?thesis using dec_nat_digits [of n] by (simp add: takeWhile_append2)
qed

lemma hd_dec_nat: "isdigit (hd (dec_nat n))"
  using dec_nat_digits [of n] dec_nat_nonempty [of n] by (cases "dec_nat n") auto

lemma scan_decimal_show_int:
  assumes "rest = [] \<or> \<not> isdigit (hd rest)"
  shows "scan_decimal (show_int i @ rest) = Some (i, rest)"
proof (cases "i < 0")
  case True
  have "scan_sign (dropWhile isspace (show_int i @ rest)) = (True, dec_nat (nat (- i)) @ rest)"
    using True by (simp add: show_int_def scan_sign_def isspace_def)
  then show ?thesis
    using True takeWhile_digits [OF assms, of "nat (- i)"] dec_nat_nonempty [of "nat (- i)"]
    by (simp add: scan_decimal_def digits_value_dec_nat)
next
  case False
  obtain c cs where d: "dec_nat (nat i) = c # cs"
    using dec_nat_nonempty [of "nat i"] by (cases "dec_nat (nat i)") auto
  then have c: "isdigit c" using hd_dec_nat [of "nat i"] by simp
  have "scan_sign (dropWhile isspace (show_int i @ rest)) = (False, dec_nat (nat i) @ rest)"
    using False d c isdigit_not_space [OF c] isdigit_chars [OF c]
    by (simp add: show_int_def scan_sign_def)
  then show ?thesis
    using False takeWhile_digits [OF assms, of "nat i"] dec_nat_nonempty [of "nat i"]
    by (simp add: scan_decimal_def digits_value_dec_nat)
qed

lemma scan_decimal_TAB: "scan_decimal (TAB # s) = scan_decimal s"
  by (simp add: scan_decimal_def isspace_def)

lemma show_int_chars:
  "\<forall>c \<in> set (show_int i). \<not> isspace c \<and> c \<noteq> CHR '','' \<and> c \<noteq> CHR ''=''"
  using dec_nat_digits isdigit_not_space isdigit_chars
  by (auto simp: show_int_def isspace_def)

lemma show_int_nonempty: "show_int i \<noteq> []"
  by (simp add: show_int_def dec_nat_nonempty)

lemma digit_char_values:
  "digit_char 0 = CHR ''0''" "digit_char 1 = CHR ''1''" "digit_char 2 = CHR ''2''"
  "digit_char 3 = CHR ''3''" "digit_char 4 = CHR ''4''" "digit_char 5 = CHR ''5''"
  "digit_char 6 = CHR ''6''" "digit_char 7 = CHR ''7''" "digit_char 8 = CHR ''8''"
  "digit_char 9 = CHR ''9''" "digit_char (Suc 0) = CHR ''1''"
  by (rule of_char_eqI [where ?'a = nat], simp add: digit_char_def)+

lemma show_bool_show_int: "show_bool b = show_int (if b then 1 else 0)"
  by (simp add: show_bool_def show_int_def dec_nat.simps digit_char_values)

lemma stoi_show_int:
  assumes "is_int32 i" "rest = [] \<or> \<not> isdigit (hd rest)"
  shows "stoi (show_int i @ rest) = Inr i"
  using assms by (simp add: stoi_def scan_decimal_show_int)

subsection \<open>The index cache: lines and tokens\<close>

lemma takeWhile_until: "d \<notin> set tok \<Longrightarrow> takeWhile (\<lambda>c. c \<noteq> d) (tok @ d # rest) = tok"
  by (induction tok) auto

lemma takeWhile_whole: "d \<notin> set tok \<Longrightarrow> takeWhile (\<lambda>c. c \<noteq> d) tok = tok"
  by (induction tok) auto

lemma getlines_Nil: "getlines d [] = []"
  by (simp add: getlines.simps)

lemma getlines_tok:
  assumes "d \<notin> set tok"
  shows "getlines d (tok @ d # rest) = tok # getlines d rest"
proof -
  have tw: "takeWhile (\<lambda>c. c \<noteq> d) (tok @ d # rest) = tok"
    using assms by (rule takeWhile_until)
  show ?thesis
    by (subst getlines.simps) (simp add: Let_def tw)
qed

lemma getlines_last:
  assumes "d \<notin> set tok" "tok \<noteq> []"
  shows "getlines d tok = [tok]"
proof -
  have tw: "takeWhile (\<lambda>c. c \<noteq> d) tok = tok"
    using assms(1) by (rule takeWhile_whole)
  show ?thesis
    by (subst getlines.simps) (simp add: Let_def getlines_Nil tw assms(2))
qed

lemma getlines_join:
  assumes "\<forall>x \<in> set xs. d \<notin> set x" "xs \<noteq> []" "last xs \<noteq> []"
  shows "getlines d (join d xs) = xs"
  using assms
proof (induction d xs rule: join.induct)
  case (1 d)
  then show ?case by simp
next
  case (2 d x)
  then show ?case by (simp add: getlines_last)
next
  case (3 d x y ys)
  then show ?case by (simp add: getlines_tok)
qed

lemma getlines_concat:
  assumes "\<forall>l \<in> set ls. NL \<notin> set l"
  shows "getlines NL (concat (map (\<lambda>l. l @ [NL]) ls)) = ls"
  using assms by (induction ls) (simp_all add: getlines_Nil getlines_tok)

lemma file_lines_concat:
  assumes "\<forall>l \<in> set ls. NL \<notin> set l"
  shows "file_lines (concat (map (\<lambda>l. l @ [NL]) ls)) = map (\<lambda>l. l @ [NL]) ls"
  using assms
proof (induction ls)
  case Nil
  then show ?case by (simp add: file_lines.simps)
next
  case (Cons l ls)
  have tw: "takeWhile (\<lambda>c. c \<noteq> NL) (l @ NL # concat (map (\<lambda>l. l @ [NL]) ls)) = l"
    using Cons.prems by (simp add: takeWhile_until)
  have ih: "file_lines (concat (map (\<lambda>l. l @ [NL]) ls)) = map (\<lambda>l. l @ [NL]) ls"
    using Cons by simp
  show ?case
    by (subst file_lines.simps) (simp add: Let_def tw ih)
qed

lemma token_ok_takeWhile:
  assumes "token_ok tok" "rest = [] \<or> isspace (hd rest)"
  shows "takeWhile (\<lambda>c. \<not> isspace c) (tok @ rest) = tok"
proof -
  have "takeWhile (\<lambda>c. \<not> isspace c) rest = []" using assms(2) by (cases rest) auto
  then show ?thesis using assms(1) by (simp add: token_ok_def takeWhile_append2)
qed

lemma token_ok_dropWhile:
  assumes "token_ok tok"
  shows "dropWhile isspace (tok @ rest) = tok @ rest"
  using assms by (cases tok) (auto simp: token_ok_def)

lemma isspace_TAB [simp]: "isspace TAB" "isspace NL" "isspace CHR '' ''"
  by (simp_all add: isspace_def)

lemma get_string_token:
  assumes "token_ok tok" "rest = [] \<or> isspace (hd rest)"
  shows "get_string \<lparr>buf = TAB # tok @ rest, failbit = False\<rparr>
       = (Some tok, \<lparr>buf = rest, failbit = False\<rparr>)"
  using assms token_ok_takeWhile [OF assms] token_ok_dropWhile [OF assms(1), of rest]
  by (simp add: get_string_def Let_def token_ok_def)

lemma sscanf_s_token:
  assumes "token_ok tok" "length tok < 2000" "rest = [] \<or> isspace (hd rest)"
  shows "sscanf_s (TAB # tok @ rest) = Inr (Some (tok, rest))"
  using assms token_ok_takeWhile [OF assms(1,3)] token_ok_dropWhile [OF assms(1), of rest]
  by (simp add: sscanf_s_def Let_def token_ok_def)

lemma dropWhile_show_int: "dropWhile isspace (show_int a @ rest) = show_int a @ rest"
  using show_int_chars [of a] show_int_nonempty [of a]
  by (cases "show_int a") auto

lemma get_int32_show:
  assumes "is_int32 a" "rest = [] \<or> \<not> isdigit (hd rest)"
  shows "get_int32 \<lparr>buf = TAB # show_int a @ rest, failbit = False\<rparr>
       = (Some a, \<lparr>buf = rest, failbit = False\<rparr>)"
  using assms show_int_nonempty [of a]
  by (simp add: get_int32_def get_int_def dropWhile_show_int scan_decimal_show_int is_int32_def
      Let_def)

lemma get_int64_show:
  assumes "is_int64 a" "rest = [] \<or> \<not> isdigit (hd rest)"
  shows "get_int64 \<lparr>buf = TAB # show_int a @ rest, failbit = False\<rparr>
       = (Some a, \<lparr>buf = rest, failbit = False\<rparr>)"
  using assms show_int_nonempty [of a]
  by (simp add: get_int64_def get_int_def dropWhile_show_int scan_decimal_show_int is_int64_def
      Let_def)

lemma not_isdigit_TAB [simp]: "\<not> isdigit TAB" "\<not> isdigit NL" "\<not> isdigit CHR '' ''"
  by (simp_all add: isdigit_def)

lemma get_int32_show_end:
  assumes "is_int32 a"
  shows "get_int32 \<lparr>buf = TAB # show_int a, failbit = False\<rparr>
       = (Some a, \<lparr>buf = [], failbit = False\<rparr>)"
  using get_int32_show [OF assms, of "[]"] by simp

lemma get_int64_show_end:
  assumes "is_int64 a"
  shows "get_int64 \<lparr>buf = TAB # show_int a, failbit = False\<rparr>
       = (Some a, \<lparr>buf = [], failbit = False\<rparr>)"
  using get_int64_show [OF assms, of "[]"] by simp

lemma get_string_token_end:
  assumes "token_ok tok"
  shows "get_string \<lparr>buf = TAB # tok, failbit = False\<rparr>
       = (Some tok, \<lparr>buf = [], failbit = False\<rparr>)"
  using get_string_token [OF assms, of "[]"] by simp

lemma get_char_letter:
  assumes "\<not> isspace c"
  shows "get_char \<lparr>buf = c # rest, failbit = False\<rparr> = (Some c, \<lparr>buf = rest, failbit = False\<rparr>)"
  using assms by (simp add: get_char_def)

lemma not_isspace_letters [simp]:
  "\<not> isspace CHR ''V''" "\<not> isspace CHR ''P''" "\<not> isspace CHR ''F''" "\<not> isspace CHR ''S''"
  "\<not> isspace CHR ''B''"
  by (simp_all add: isspace_def)

lemma LoadStream_line_V:
  assumes "token_ok (version c)"
  shows "LoadStream_line dflt (spec_V_line c) (cache, tok)
       = Inr (cache\<lparr>version := version c\<rparr>, Some CHR ''V'')"
  using assms
  by (simp add: LoadStream_line_def spec_V_line_def get_char_letter get_string_token_end
      assign_def)

lemma LoadStream_line_F:
  assumes "wf_FileLine fl"
  shows "LoadStream_line dflt (spec_F_line fl) (cache, tok)
       = Inr (cache\<lparr>fileLines := fileLines cache @ [fl]\<rparr>, Some CHR ''F'')"
proof -
  have "get_FileLine \<lparr>buf = TAB # show_int (SeedDBFileLine.fileId fl) @ TAB # filename fl @ TAB
          # show_int (numSequences fl) @ TAB # show_int (SeedDBFileLine.numBytes fl),
        failbit = False\<rparr> = fl"
    using assms
    by (simp add: get_FileLine_def wf_FileLine_def get_int32_show get_string_token
        get_int64_show_end assign_def)
  then show ?thesis
    by (simp add: LoadStream_line_def spec_F_line_def get_char_letter)
qed

lemma signed_take_bit_int32: "is_int32 x \<Longrightarrow> signed_take_bit 31 x = x"
  by (simp add: is_int32_def signed_take_bit_int_eq_self)

lemma LoadStream_line_S:
  assumes "wf_SeedsLine sl" "seqId sl = int (length (seedLines cache))"
  shows "LoadStream_line dflt (spec_S_line sl) (cache, tok)
       = Inr (cache\<lparr>seedLines := seedLines cache @ [sl]\<rparr>, Some CHR ''S'')"
proof -
  have "get_SeedsLine \<lparr>buf = TAB # show_int (seqId sl) @ TAB # header sl @ TAB
          # show_int (fileId sl) @ TAB # show_int (fileOffset sl) @ TAB
          # show_int (SeedDBSeedsLine.numBytes sl) @ TAB # show_int (numBases sl) @ TAB
          # show_int (numSeeds sl),
        failbit = False\<rparr> = sl"
    using assms(1)
    by (simp add: get_SeedsLine_def wf_SeedsLine_def get_int32_show get_string_token
        get_int64_show get_int32_show_end assign_def)
  moreover have "signed_take_bit 31 (int (length (seedLines cache))) = seqId sl"
    using assms by (simp add: wf_SeedsLine_def signed_take_bit_int32)
  ultimately show ?thesis
    by (simp add: LoadStream_line_def spec_S_line_def get_char_letter)
qed

lemma LoadStream_line_B:
  assumes "wf_BlockLine bl"
  shows "LoadStream_line dflt (spec_B_line bl) (cache, tok)
       = Inr (cache\<lparr>blockLines := blockLines cache @ [bl]\<rparr>, Some CHR ''B'')"
proof -
  have "get_BlockLine \<lparr>buf = TAB # show_int (blockId bl) @ TAB # show_int (startSeqId bl) @ TAB
          # show_int (endSeqId bl) @ TAB # show_int (numBytes bl),
        failbit = False\<rparr> = bl"
    using assms
    by (simp add: get_BlockLine_def wf_BlockLine_def get_int32_show
        get_int64_show_end assign_def)
  then show ?thesis
    by (simp add: LoadStream_line_def spec_B_line_def get_char_letter)
qed

subsection \<open>The index cache: the parameter line\<close>

lemma show_int_no_delims:
  "CHR '','' \<notin> set (show_int i)" "CHR ''='' \<notin> set (show_int i)" "NL \<notin> set (show_int i)"
  "TAB \<notin> set (show_int i)"
  using show_int_chars [of i] by (auto simp: isspace_def)


lemma stoi_show_int_end: "is_int32 i \<Longrightarrow> stoi (show_int i) = Inr i"
  using stoi_show_int [of i "[]"] by simp

lemma stoi_show_int_nl:
  assumes "is_int32 i" "nl = [] \<or> nl = [NL]"
  shows "stoi (show_int i @ nl) = Inr i"
  using assms stoi_show_int [of i nl] by auto

lemma is_int32_bool [simp]: "is_int32 (if b then 1 else 0)"
  by (simp add: is_int32_def)

text \<open>A parameter \<open>name=value\<close>, possibly followed by the newline that ends the line.\<close>

lemma Split_name_value:
  assumes "CHR ''='' \<notin> set nm" "nl = [] \<or> nl = [NL]"
  shows "Split (nm @ CHR ''='' # show_int v @ nl) CHR ''='' = [nm, show_int v @ nl]"
proof -
  have "CHR ''='' \<notin> set (show_int v @ nl)" "show_int v @ nl \<noteq> []"
    using assms(2) show_int_no_delims(2) [of v] show_int_nonempty [of v] by auto
  then show ?thesis
    using assms(1) by (simp add: Split_def getlines_tok getlines_last)
qed

lemma ParseSeedDBParams_param_name_value:
  assumes "CHR ''='' \<notin> set nm" "nl = [] \<or> nl = [NL]" "is_int32 v"
  shows "ParseSeedDBParams_param (nm @ CHR ''='' # show_int v @ nl) ret =
     (if nm = ''k'' then Inr (ret\<lparr>KmerSize := v\<rparr>)
      else if nm = ''w'' then Inr (ret\<lparr>MinimizerWindow := v\<rparr>)
      else if nm = ''hpc'' then Inr (ret\<lparr>UseHPC := (v \<noteq> 0)\<rparr>)
      else if nm = ''hpc_len'' then Inr (ret\<lparr>MaxHPCLen := v\<rparr>)
      else if nm = ''rc'' then Inr (ret\<lparr>UseRC := (v \<noteq> 0)\<rparr>)
      else Inr ret)"
  using assms
  by (simp add: ParseSeedDBParams_param_def Split_name_value stoi_show_int_nl Let_def)


text \<open>
  The parameter text of the serializer, behind a prefix \<open>pre\<close> (nothing, or one blank or
  tab) and before a possible newline: the parameters \<open>w\<close>, \<open>hpc\<close>, \<open>hpc_len\<close> and \<open>rc\<close> are
  read back; \<open>k\<close> is read back only when there is nothing before its key.
\<close>

lemma ParseSeedDBParams_text:
  assumes wf: "wf_Params ps" and nl: "nl = [] \<or> nl = [NL]"
    and pre: "pre = [] \<or> pre = [CHR '' ''] \<or> pre = [TAB]"
  shows "ParseSeedDBParams dflt (pre @ spec_params_text ps @ nl) =
     Inr (if pre = [] then ps else ps\<lparr>KmerSize := KmerSize dflt\<rparr>)"
proof -
  let ?k = "KmerSize ps" and ?w = "MinimizerWindow ps" and ?h = "if UseHPC ps then 1 else (0 :: int)"
  let ?l = "MaxHPCLen ps" and ?r = "if UseRC ps then 1 else (0 :: int)"
  let ?i1 = "pre @ ''k='' @ show_int ?k" and ?i2 = "''w='' @ show_int ?w"
  let ?i3 = "''hpc='' @ show_int ?h" and ?i4 = "''hpc_len='' @ show_int ?l"
  let ?i5 = "''rc='' @ show_int ?r @ nl"
  let ?items = "[?i1, ?i2, ?i3, ?i4, ?i5]"
  have int32: "is_int32 ?k" "is_int32 ?w" "is_int32 ?l"
    using wf by (simp_all add: wf_Params_def)
  have tx: "pre @ spec_params_text ps @ nl = join CHR '','' ?items"
    by (simp add: spec_params_text_def show_bool_show_int)
  have nocomma: "\<forall>x \<in> set ?items. CHR '','' \<notin> set x"
    using pre nl by (auto simp: show_int_no_delims)
  have "Split (join CHR '','' ?items) CHR '','' = ?items"
    unfolding Split_def by (rule getlines_join [OF nocomma]) simp_all
  then have split: "Split (pre @ spec_params_text ps @ nl) CHR '','' = ?items"
    by (simp only: tx)
  have p1: "ParseSeedDBParams_param ?i1 ret =
      (if pre = [] then Inr (ret\<lparr>KmerSize := ?k\<rparr>) else Inr ret)" for ret
    using ParseSeedDBParams_param_name_value [of "pre @ ''k''" "[]" ?k ret] pre int32
    by auto
  have p2: "ParseSeedDBParams_param ?i2 ret = Inr (ret\<lparr>MinimizerWindow := ?w\<rparr>)" for ret
    using ParseSeedDBParams_param_name_value [of "''w''" "[]" ?w ret] int32 by simp
  have p3: "ParseSeedDBParams_param ?i3 ret = Inr (ret\<lparr>UseHPC := UseHPC ps\<rparr>)" for ret
    using ParseSeedDBParams_param_name_value [of "''hpc''" "[]" ?h ret] by simp
  have p4: "ParseSeedDBParams_param ?i4 ret = Inr (ret\<lparr>MaxHPCLen := ?l\<rparr>)" for ret
    using ParseSeedDBParams_param_name_value [of "''hpc_len''" "[]" ?l ret] int32 by simp
  have p5: "ParseSeedDBParams_param ?i5 ret = Inr (ret\<lparr>UseRC := UseRC ps\<rparr>)" for ret
    using ParseSeedDBParams_param_name_value [of "''rc''" nl ?r ret] nl by simp
  have "for_loop ParseSeedDBParams_param ?items dflt =
      Inr (if pre = [] then ps else ps\<lparr>KmerSize := KmerSize dflt\<rparr>)"
    by (simp only: for_loop.simps p1 p2 p3 p4 p5 sum.case split: if_splits) simp
  then show ?thesis
    by (simp only: ParseSeedDBParams_def split)
qed

subsection \<open>The index cache: the serializer and the stream loader\<close>

lemma token_ok_show_int: "token_ok (show_int i)"
  using show_int_chars [of i] show_int_nonempty [of i] by (simp add: token_ok_def)

lemma token_ok_params: "token_ok (spec_params_text ps)"
proof -
  have "\<forall>c \<in> set (show_int i). \<not> isspace c" for i
    using show_int_chars [of i] by blast
  then show ?thesis
    by (auto simp: token_ok_def spec_params_text_def show_bool_show_int isspace_def)
qed

lemma LoadStream_line_P:
  assumes "wf_Params (seedParams c)"
  shows "LoadStream_line dflt (spec_P_line c) (cache, tok)
       = Inr (cache\<lparr>seedParams := seedParams c\<rparr>, Some CHR ''P'')"
proof -
  have "ParseSeedDBParams dflt (spec_params_text (seedParams c)) = Inr (seedParams c)"
    using ParseSeedDBParams_text [OF assms, of "[]" "[]" dflt] by simp
  then show ?thesis
    by (simp add: LoadStream_line_def spec_P_line_def get_char_letter
        get_string_token_end [OF token_ok_params] assign_def)
qed

lemma foldl_emit_FileLine: "foldl emit_FileLine os fls = os @ concat (map (\<lambda>fl. spec_F_line fl @ [NL]) fls)"
  by (induction fls arbitrary: os) (simp_all add: emit_FileLine_def spec_F_line_def)

lemma foldl_emit_SeedsLine: "foldl emit_SeedsLine os sls = os @ concat (map (\<lambda>sl. spec_S_line sl @ [NL]) sls)"
  by (induction sls arbitrary: os) (simp_all add: emit_SeedsLine_def spec_S_line_def)

lemma foldl_emit_BlockLine: "foldl emit_BlockLine os bls = os @ concat (map (\<lambda>bl. spec_B_line bl @ [NL]) bls)"
  by (induction bls arbitrary: os) (simp_all add: emit_BlockLine_def spec_B_line_def)

lemma emit_is_spec_text: "emit_SeedDBIndexCache [] c = spec_index_text c"
  by (simp add: emit_SeedDBIndexCache_def spec_index_text_def Let_def foldl_emit_FileLine
      foldl_emit_SeedsLine foldl_emit_BlockLine spec_V_line_def spec_P_line_def
      spec_params_text_def map_concat comp_def)

lemma token_ok_no_NL: "token_ok s \<Longrightarrow> NL \<notin> set s"
  by (auto simp: token_ok_def)

lemma spec_lines_no_NL:
  "token_ok (version c) \<Longrightarrow> NL \<notin> set (spec_V_line c)"
  "NL \<notin> set (spec_P_line c)"
  "wf_FileLine fl \<Longrightarrow> NL \<notin> set (spec_F_line fl)"
  "wf_SeedsLine sl \<Longrightarrow> NL \<notin> set (spec_S_line sl)"
  "NL \<notin> set (spec_B_line bl)"
  using token_ok_no_NL [OF token_ok_params]
  by (auto simp: spec_V_line_def spec_P_line_def spec_F_line_def spec_S_line_def spec_B_line_def
      show_int_no_delims wf_FileLine_def wf_SeedsLine_def dest: token_ok_no_NL)

lemma for_loop_F_lines:
  assumes "list_all wf_FileLine fls"
  shows "for_loop (LoadStream_line dflt) (map spec_F_line fls) (cache, tok) =
     Inr (cache\<lparr>fileLines := fileLines cache @ fls\<rparr>, if fls = [] then tok else Some CHR ''F'')"
  using assms
proof (induction fls arbitrary: cache tok)
  case Nil
  then show ?case by simp
next
  case (Cons fl fls)
  then show ?case by (simp add: LoadStream_line_F)
qed

lemma for_loop_B_lines:
  assumes "list_all wf_BlockLine bls"
  shows "for_loop (LoadStream_line dflt) (map spec_B_line bls) (cache, tok) =
     Inr (cache\<lparr>blockLines := blockLines cache @ bls\<rparr>, if bls = [] then tok else Some CHR ''B'')"
  using assms
proof (induction bls arbitrary: cache tok)
  case Nil
  then show ?case by simp
next
  case (Cons bl bls)
  then show ?case by (simp add: LoadStream_line_B)
qed

lemma for_loop_S_lines:
  assumes "list_all wf_SeedsLine sls"
    and "\<forall>i < length sls. seqId (sls ! i) = int (length (seedLines cache) + i)"
  shows "for_loop (LoadStream_line dflt) (map spec_S_line sls) (cache, tok) =
     Inr (cache\<lparr>seedLines := seedLines cache @ sls\<rparr>, if sls = [] then tok else Some CHR ''S'')"
  using assms
proof (induction sls arbitrary: cache tok)
  case Nil
  then show ?case by simp
next
  case (Cons sl sls)
  from Cons.prems(2) have "seqId ((sl # sls) ! 0) = int (length (seedLines cache) + 0)"
    by blast
  then have hd: "seqId sl = int (length (seedLines cache))" by simp
  have wf: "wf_SeedsLine sl" "list_all wf_SeedsLine sls" using Cons.prems(1) by simp_all
  let ?cache = "cache\<lparr>seedLines := seedLines cache @ [sl]\<rparr>"
  have tl: "\<forall>i < length sls. seqId (sls ! i) = int (length (seedLines ?cache) + i)"
  proof (intro allI impI)
    fix i assume "i < length sls"
    then have "Suc i < length (sl # sls)" by simp
    with Cons.prems(2) have "seqId ((sl # sls) ! Suc i) = int (length (seedLines cache) + Suc i)"
      by blast
    then show "seqId (sls ! i) = int (length (seedLines ?cache) + i)" by simp
  qed
  have "for_loop (LoadStream_line dflt) (map spec_S_line sls) (?cache, Some CHR ''S'') =
     Inr (?cache\<lparr>seedLines := seedLines ?cache @ sls\<rparr>,
          if sls = [] then Some CHR ''S'' else Some CHR ''S'')"
    by (rule Cons.IH [OF wf(2) tl])
  then show ?case
    using LoadStream_line_S [OF wf(1) hd, of dflt tok] by simp
qed

text \<open>The round trip, for every cache whose text can be read back.\<close>

lemma load_spec_index_text:
  assumes c: "canonical_cache c"
  shows "LoadSeedDBIndexCache_stream dfltVersion dflt (spec_index_text c) fn =
     (if seedLines c = [] then Inl EmptyIndex else Inr (c\<lparr>indexFilename := fn\<rparr>))"
proof -
  let ?lines = "[spec_V_line c, spec_P_line c] @ map spec_F_line (fileLines c)
          @ map spec_S_line (seedLines c) @ map spec_B_line (blockLines c)"
  let ?c0 = "\<lparr>indexFilename = fn, version = dfltVersion, seedParams = dflt,
                   fileLines = [], seedLines = [], blockLines = []\<rparr>"
  from c have v: "token_ok (version c)" and p: "wf_Params (seedParams c)"
    and f: "list_all wf_FileLine (fileLines c)" and s: "list_all wf_SeedsLine (seedLines c)"
    and b: "list_all wf_BlockLine (blockLines c)"
    and ord: "\<forall>i < length (seedLines c). seqId (seedLines c ! i) = int i"
    by (simp_all add: canonical_cache_def)
  have "\<forall>l \<in> set ?lines. NL \<notin> set l"
    using v f s spec_lines_no_NL by (auto simp: list_all_iff)
  then have lines: "getlines NL (spec_index_text c) = ?lines"
    unfolding spec_index_text_def by (rule getlines_concat)
  let ?c5 = "\<lparr>indexFilename = fn, version = version c, seedParams = seedParams c,
              fileLines = fileLines c, seedLines = seedLines c, blockLines = blockLines c\<rparr>"
  have "\<exists>t. for_loop (LoadStream_line dflt) ?lines (?c0, None) = Inr (?c5, t)"
    using ord
    by (simp add: for_loop_append LoadStream_line_V [OF v] LoadStream_line_P [OF p]
        for_loop_F_lines [OF f] for_loop_S_lines [OF s] for_loop_B_lines [OF b])
  then obtain t where loop: "for_loop (LoadStream_line dflt) ?lines (?c0, None) = Inr (?c5, t)"
    by blast
  have c5: "?c5 = c\<lparr>indexFilename := fn\<rparr>" by simp
  have "LoadSeedDBIndexCache_stream dfltVersion dflt (spec_index_text c) fn =
      (if seedLines c = [] then Inl EmptyIndex else Inr ?c5)"
    unfolding LoadSeedDBIndexCache_stream_def Let_def lines loop by simp
  then show ?thesis by (simp only: c5)
qed

text \<open>The stream loader never returns a cache without \<open>S\<close> records.\<close>

lemma LoadSeedDBIndexCache_stream_nonempty:
  assumes "LoadSeedDBIndexCache_stream dfltVersion dflt is fn = Inr c"
  shows "seedLines c \<noteq> []"
  using assms
  by (auto simp: LoadSeedDBIndexCache_stream_def Let_def split: sum.splits if_splits)

lemma ex_S6_canonical: "canonical_cache ex_index_S6"
  by (simp add: canonical_cache_def ex_index_S6_def ex_params_def token_ok_def isspace_def
      wf_Params_def wf_FileLine_def wf_SeedsLine_def wf_BlockLine_def is_int32_def is_int64_def
      All_less_Suc numeral_3_eq_3)

lemma ex_ws_text: "emit_SeedDBIndexCache [] ex_index_ws =
   ''V'' @ [TAB] @ ''0.1.0'' @ [NL] @ ''P'' @ [TAB] @ ''k=30,w=80,hpc=0,hpc_len=10,rc=1'' @ [NL]
   @ ''S'' @ [TAB] @ ''0'' @ [TAB] @ ''read 1'' @ [TAB] @ ''0'' @ [TAB] @ ''0'' @ [TAB] @ ''32''
   @ [TAB] @ ''100'' @ [TAB] @ ''2'' @ [NL]"
  by (simp add: emit_SeedDBIndexCache_def ex_index_ws_def ex_params_def show_int_def
      show_bool_def dec_nat.simps digit_char_values emit_SeedsLine_def)

text \<open>
  Claim C2. The serializer writes the \<open>V\<close> line, one \<open>P\<close> line with the keys in the order
  \<open>k,w,hpc,hpc_len,rc\<close>, then all \<open>F\<close>, all \<open>S\<close> and all \<open>B\<close> lines, tab-separated
  (\<^const>\<open>spec_index_text\<close> is that layout, written from the text of the specification).
  The stream loader reads the emitted text back to the same tables when the version, the
  file names and the headers are non-empty and free of whitespace, and the sequence ids
  are the ordinals of their lines, with at least one \<open>S\<close> record.
\<close>

theorem emit_load_roundtrip:
  "emit_SeedDBIndexCache [] c = spec_index_text c \<and>
   (canonical_cache c \<and> seedLines c \<noteq> [] \<longrightarrow>
      LoadSeedDBIndexCache_stream dfltVersion dflt (emit_SeedDBIndexCache [] c) fn =
        Inr (c\<lparr>indexFilename := fn\<rparr>))"
  by (simp add: emit_is_spec_text load_spec_index_text)

theorem emit_load_roundtrip_witness:
  "canonical_cache ex_index_S6 \<and> seedLines ex_index_S6 \<noteq> [] \<and>
   emit_SeedDBIndexCache [] ex_index_S6 = spec_index_text ex_index_S6 \<and>
   LoadSeedDBIndexCache_stream ''unknown'' ex_params_file
       (emit_SeedDBIndexCache [] ex_index_S6) ''x.seeddb'' = Inr ex_index_S6"
proof -
  have 1: "canonical_cache ex_index_S6" by (rule ex_S6_canonical)
  have 2: "seedLines ex_index_S6 \<noteq> []" by (simp add: ex_index_S6_def)
  have 3: "ex_index_S6\<lparr>indexFilename := ''x.seeddb''\<rparr> = ex_index_S6"
    by (simp add: ex_index_S6_def)
  have r: "emit_SeedDBIndexCache [] ex_index_S6 = spec_index_text ex_index_S6 \<and>
      LoadSeedDBIndexCache_stream ''unknown'' ex_params_file
        (emit_SeedDBIndexCache [] ex_index_S6) ''x.seeddb'' =
        Inr (ex_index_S6\<lparr>indexFilename := ''x.seeddb''\<rparr>)"
    using emit_load_roundtrip [where c = ex_index_S6 and dfltVersion = "''unknown''"
        and dflt = ex_params_file and fn = "''x.seeddb''"] 1 2
    by blast
  show ?thesis
    using 1 2 conjunct1 [OF r] conjunct2 [OF r, unfolded 3] by (intro conjI)
qed

text \<open>
  A header with a blank in it is cut at the blank when it is read back, and the fields
  after it are shifted by one.
\<close>

theorem emit_load_whitespace_header:
  "seedLines ex_index_ws \<noteq> [] \<and>
   LoadSeedDBIndexCache_stream ''unknown'' ex_params
       (emit_SeedDBIndexCache [] ex_index_ws) ''x.seeddb'' =
     Inr (ex_index_ws\<lparr>seedLines :=
       [\<lparr>seqId = 0, header = ''read'', fileId = 1, fileOffset = 0,
         SeedDBSeedsLine.numBytes = 0, numBases = 32, numSeeds = 100\<rparr>]\<rparr>) \<and>
   ex_index_ws\<lparr>seedLines :=
       [\<lparr>seqId = 0, header = ''read'', fileId = 1, fileOffset = 0,
         SeedDBSeedsLine.numBytes = 0, numBases = 32, numSeeds = 100\<rparr>]\<rparr> \<noteq> ex_index_ws"
proof -
  let ?V = "CHR ''V'' # TAB # ''0.1.0''"
  let ?P = "CHR ''P'' # TAB # ''k=30,w=80,hpc=0,hpc_len=10,rc=1''"
  let ?S = "CHR ''S'' # TAB # CHR ''0'' # TAB # CHR ''r'' # CHR ''e'' # CHR ''a'' # CHR ''d'' #
      CHR '' '' # CHR ''1'' # TAB # CHR ''0'' # TAB # CHR ''0'' # TAB # CHR ''3'' # CHR ''2'' #
      TAB # CHR ''1'' # CHR ''0'' # CHR ''0'' # TAB # ''2''"
  have tx: "emit_SeedDBIndexCache [] ex_index_ws = concat (map (\<lambda>l. l @ [NL]) [?V, ?P, ?S])"
    by (simp add: ex_ws_text)
  have lines: "getlines NL (emit_SeedDBIndexCache [] ex_index_ws) = [?V, ?P, ?S]"
    unfolding tx by (rule getlines_concat) simp
  have pw: "wf_Params ex_params" by (simp add: wf_Params_def ex_params_def is_int32_def)
  have ptx: "''k=30,w=80,hpc=0,hpc_len=10,rc=1'' = spec_params_text ex_params"
    by (simp add: spec_params_text_def ex_params_def show_int_def show_bool_def dec_nat.simps
        digit_char_values)
  have V: "LoadStream_line ex_params ?V (c, t) = Inr (c\<lparr>version := ''0.1.0''\<rparr>, Some CHR ''V'')"
    for c t
    using LoadStream_line_V [of ex_index_ws ex_params c t]
    by (simp add: token_ok_def isspace_def spec_V_line_def ex_index_ws_def)
  have P: "LoadStream_line ex_params ?P (c, t) = Inr (c\<lparr>seedParams := ex_params\<rparr>, Some CHR ''P'')"
    for c t
    using LoadStream_line_P [of ex_index_ws ex_params c t] pw
    by (simp add: ptx spec_P_line_def ex_index_ws_def)
  have S: "LoadStream_line ex_params ?S (c, t) =
      Inr (c\<lparr>seedLines := seedLines c @
        [\<lparr>seqId = 0, header = ''read'', fileId = 1, fileOffset = 0,
          SeedDBSeedsLine.numBytes = 0, numBases = 32, numSeeds = 100\<rparr>]\<rparr>, Some CHR ''S'')"
    if "seedLines c = []" for c t
    using that
    by (simp add: LoadStream_line_def get_char_def get_SeedsLine_def get_int32_def get_int64_def
        get_int_def get_string_def assign_def scan_decimal_def scan_sign_def isspace_def
        isdigit_def digits_value_def digit_value_def Let_def is_int32_def is_int64_def
        SeedDBSeedsLine_default_def)
  have load: "LoadSeedDBIndexCache_stream ''unknown'' ex_params
       (emit_SeedDBIndexCache [] ex_index_ws) ''x.seeddb'' =
     Inr (ex_index_ws\<lparr>seedLines :=
       [\<lparr>seqId = 0, header = ''read'', fileId = 1, fileOffset = 0,
         SeedDBSeedsLine.numBytes = 0, numBases = 32, numSeeds = 100\<rparr>]\<rparr>)"
    unfolding LoadSeedDBIndexCache_stream_def Let_def lines
    by (simp add: V P S ex_index_ws_def)
  show ?thesis
    using load by (simp add: ex_index_ws_def)
qed

subsection \<open>The index cache: the loader that reads a \<open>FILE*\<close>\<close>

lemma sscanf_d_show:
  assumes "is_int32 a" "rest = [] \<or> \<not> isdigit (hd rest)"
  shows "sscanf_d (TAB # show_int a @ rest) = Some (a, rest)"
proof -
  have "clamp_int64 a = a" using assms(1) by (simp add: clamp_int64_def is_int32_def)
  moreover have "signed_take_bit 31 a = a"
    using assms(1) by (rule signed_take_bit_int32)
  ultimately show ?thesis
    using assms(2) by (simp add: sscanf_d_def scan_decimal_TAB scan_decimal_show_int)
qed

lemma sscanf_lld_show:
  assumes "is_int64 a" "rest = [] \<or> \<not> isdigit (hd rest)"
  shows "sscanf_lld (TAB # show_int a @ rest) = Some (a, rest)"
proof -
  have "clamp_int64 a = a" using assms(1) by (simp add: clamp_int64_def is_int64_def)
  then show ?thesis
    using assms(2) by (simp add: sscanf_lld_def scan_decimal_TAB scan_decimal_show_int)
qed

text \<open>The loop of the \<open>P\<close> case stops where it starts: the index 1 is neither 32 nor 9.\<close>

lemma P_offset_loop_1: "P_offset_loop lineLen 1 = 1" "P_offset_loop lineLen (Suc 0) = Suc 0"
  by (subst P_offset_loop.simps, simp)+

lemma LoadFILE_line_P_general:
  assumes "0 < lineLen"
  shows "LoadFILE_line dflt reserve_ok lineLen (CHR ''P'' # rest) (cache, t, b) =
     (case ParseSeedDBParams dflt rest of
        Inl e \<Rightarrow> Inl e
      | Inr ps \<Rightarrow> Inr (cache\<lparr>seedParams := ps\<rparr>, t, b))"
  using assms by (simp add: LoadFILE_line_def P_offset_loop_1)

lemma LoadFILE_line_P:
  assumes "0 < lineLen" "wf_Params ps" "sep = CHR '' '' \<or> sep = TAB" "nl = [] \<or> nl = [NL]"
  shows "LoadFILE_line dflt reserve_ok lineLen (CHR ''P'' # sep # spec_params_text ps @ nl)
       (cache, t, b) =
     Inr (cache\<lparr>seedParams := ps\<lparr>KmerSize := KmerSize dflt\<rparr>\<rparr>, t, b)"
proof -
  have "ParseSeedDBParams dflt ([sep] @ spec_params_text ps @ nl) =
      Inr (if [sep] = [] then ps else ps\<lparr>KmerSize := KmerSize dflt\<rparr>)"
    by (rule ParseSeedDBParams_text [OF assms(2) assms(4)]) (use assms(3) in simp)
  then show ?thesis
    by (simp add: LoadFILE_line_P_general [OF assms(1)])
qed

lemma LoadFILE_line_V:
  assumes "0 < lineLen" "token_ok (version c)" "length (version c) < 2000"
  shows "LoadFILE_line dflt reserve_ok lineLen (spec_V_line c @ [NL]) (cache, t, b) =
     Inr (cache\<lparr>version := version c\<rparr>, t, Some (version c))"
  using assms
  by (simp add: LoadFILE_line_def spec_V_line_def sscanf_s_token)

lemma LoadFILE_line_F:
  assumes "0 < lineLen" "wf_FileLine fl" "length (filename fl) < 2000"
    and "0 \<le> t + numSequences fl" "is_int32 (t + numSequences fl)"
    and "reserve_ok (nat (t + numSequences fl))"
  shows "LoadFILE_line dflt reserve_ok lineLen (spec_F_line fl @ [NL]) (cache, t, b) =
     Inr (cache\<lparr>fileLines := fileLines cache @ [fl]\<rparr>, t + numSequences fl, Some (filename fl))"
proof -
  have "sscanf_FileLine (TAB # show_int (SeedDBFileLine.fileId fl) @ TAB # filename fl @ TAB
          # show_int (numSequences fl) @ TAB # show_int (SeedDBFileLine.numBytes fl) @ [NL])
      = Inr (Some fl)"
    using assms(2,3)
    by (simp add: sscanf_FileLine_def wf_FileLine_def sscanf_d_show sscanf_s_token
        sscanf_lld_show)
  then show ?thesis
    using assms(1,4,5,6)
    by (simp add: LoadFILE_line_def spec_F_line_def reserve_def Let_def)
qed

lemma LoadFILE_line_S:
  assumes "0 < lineLen" "wf_SeedsLine sl" "length (header sl) < 2000"
    and "seqId sl = int (length (seedLines cache))"
  shows "LoadFILE_line dflt reserve_ok lineLen (spec_S_line sl @ [NL]) (cache, t, b) =
     Inr (cache\<lparr>seedLines := seedLines cache @ [sl]\<rparr>, t, Some (header sl))"
proof -
  have "sscanf_SeedsLine (TAB # show_int (seqId sl) @ TAB # header sl @ TAB
          # show_int (fileId sl) @ TAB # show_int (fileOffset sl) @ TAB
          # show_int (SeedDBSeedsLine.numBytes sl) @ TAB # show_int (numBases sl) @ TAB
          # show_int (numSeeds sl) @ [NL])
      = Inr (Some sl)"
    using assms(2,3)
    by (simp add: sscanf_SeedsLine_def wf_SeedsLine_def sscanf_d_show sscanf_s_token
        sscanf_lld_show)
  moreover have "signed_take_bit 31 (int (length (seedLines cache))) = seqId sl"
    using assms(2,4) by (simp add: wf_SeedsLine_def signed_take_bit_int32)
  ultimately show ?thesis
    using assms(1) by (simp add: LoadFILE_line_def spec_S_line_def)
qed

lemma LoadFILE_line_B:
  assumes "0 < lineLen" "wf_BlockLine bl"
  shows "LoadFILE_line dflt reserve_ok lineLen (spec_B_line bl @ [NL]) (cache, t, b) =
     Inr (cache\<lparr>blockLines := blockLines cache @ [bl]\<rparr>, t, b)"
  using assms
  by (simp add: LoadFILE_line_def spec_B_line_def sscanf_BlockLine_def wf_BlockLine_def
      sscanf_d_show sscanf_lld_show)

lemma for_loop_FILE_F:
  assumes "list_all wf_FileLine fls" "list_all (\<lambda>fl. length (filename fl) < 2000) fls"
    and "totals_ok reserve_ok t fls" "\<forall>l. 0 < bufsize l"
  shows "\<exists>t' b'. for_loop (\<lambda>line. LoadFILE_line dflt reserve_ok (bufsize line) line)
           (map (\<lambda>fl. spec_F_line fl @ [NL]) fls) (cache, t, b) =
     Inr (cache\<lparr>fileLines := fileLines cache @ fls\<rparr>, t', b')"
  using assms
proof (induction fls arbitrary: cache t b)
  case Nil
  then show ?case by simp
next
  case (Cons fl fls)
  let ?cache = "cache\<lparr>fileLines := fileLines cache @ [fl]\<rparr>"
  have step: "LoadFILE_line dflt reserve_ok (bufsize (spec_F_line fl @ [NL]))
      (spec_F_line fl @ [NL]) (cache, t, b) =
     Inr (?cache, t + numSequences fl, Some (filename fl))"
    using Cons.prems by (intro LoadFILE_line_F) simp_all
  have "\<exists>t' b'. for_loop (\<lambda>line. LoadFILE_line dflt reserve_ok (bufsize line) line)
           (map (\<lambda>fl. spec_F_line fl @ [NL]) fls) (?cache, t + numSequences fl, Some (filename fl)) =
     Inr (?cache\<lparr>fileLines := fileLines ?cache @ fls\<rparr>, t', b')"
    using Cons.prems by (intro Cons.IH) simp_all
  then show ?case using step by simp
qed

lemma for_loop_FILE_B:
  assumes "list_all wf_BlockLine bls" "\<forall>l. 0 < bufsize l"
  shows "for_loop (\<lambda>line. LoadFILE_line dflt reserve_ok (bufsize line) line)
           (map (\<lambda>bl. spec_B_line bl @ [NL]) bls) (cache, t, b) =
     Inr (cache\<lparr>blockLines := blockLines cache @ bls\<rparr>, t, b)"
  using assms
  by (induction bls arbitrary: cache) (simp_all add: LoadFILE_line_B)

lemma for_loop_FILE_S:
  assumes "list_all wf_SeedsLine sls" "list_all (\<lambda>sl. length (header sl) < 2000) sls"
    and "\<forall>l. 0 < bufsize l"
    and "\<forall>i < length sls. seqId (sls ! i) = int (length (seedLines cache) + i)"
  shows "\<exists>b'. for_loop (\<lambda>line. LoadFILE_line dflt reserve_ok (bufsize line) line)
           (map (\<lambda>sl. spec_S_line sl @ [NL]) sls) (cache, t, b) =
     Inr (cache\<lparr>seedLines := seedLines cache @ sls\<rparr>, t, b')"
  using assms
proof (induction sls arbitrary: cache b)
  case Nil
  then show ?case by simp
next
  case (Cons sl sls)
  from Cons.prems(4) have "seqId ((sl # sls) ! 0) = int (length (seedLines cache) + 0)"
    by blast
  then have hd: "seqId sl = int (length (seedLines cache))" by simp
  have wf: "wf_SeedsLine sl" "list_all wf_SeedsLine sls" using Cons.prems(1) by simp_all
  have ln: "length (header sl) < 2000" "list_all (\<lambda>sl. length (header sl) < 2000) sls"
    using Cons.prems(2) by simp_all
  let ?cache = "cache\<lparr>seedLines := seedLines cache @ [sl]\<rparr>"
  have tl: "\<forall>i < length sls. seqId (sls ! i) = int (length (seedLines ?cache) + i)"
  proof (intro allI impI)
    fix i assume "i < length sls"
    then have "Suc i < length (sl # sls)" by simp
    with Cons.prems(4) have "seqId ((sl # sls) ! Suc i) = int (length (seedLines cache) + Suc i)"
      by blast
    then show "seqId (sls ! i) = int (length (seedLines ?cache) + i)" by simp
  qed
  have "\<exists>b'. for_loop (\<lambda>line. LoadFILE_line dflt reserve_ok (bufsize line) line)
           (map (\<lambda>sl. spec_S_line sl @ [NL]) sls) (?cache, t, Some (header sl)) =
     Inr (?cache\<lparr>seedLines := seedLines ?cache @ sls\<rparr>, t, b')"
    by (rule Cons.IH [OF wf(2) ln(2) Cons.prems(3) tl])
  then show ?case
    using LoadFILE_line_S [OF _ wf(1) ln(1) hd, of "bufsize (spec_S_line sl @ [NL])" dflt
        reserve_ok t b] Cons.prems(3)
    by simp
qed

text \<open>
  The loader that reads a \<open>FILE*\<close>, on the text of the serializer: it returns the tables
  of the cache, with the \<open>KmerSize\<close> of a default-constructed cache, and it returns them
  also when there is no \<open>S\<close> record.
\<close>

lemma load_FILE_spec_index_text:
  assumes c: "canonical_cache c" and fb: "fits_buff c"
    and tot: "totals_ok reserve_ok 0 (fileLines c)" and buf: "\<forall>l. 0 < bufsize l"
  shows "LoadSeedDBIndexCache_FILE dfltVersion dflt reserve_ok bufsize (spec_index_text c) fn =
     Inr (c\<lparr>indexFilename := fn, seedParams := (seedParams c)\<lparr>KmerSize := KmerSize dflt\<rparr>\<rparr>)"
proof -
  let ?body = "\<lambda>line. LoadFILE_line dflt reserve_ok (bufsize line) line"
  let ?lines = "[spec_V_line c, spec_P_line c] @ map spec_F_line (fileLines c)
          @ map spec_S_line (seedLines c) @ map spec_B_line (blockLines c)"
  let ?c0 = "\<lparr>indexFilename = fn, version = dfltVersion, seedParams = dflt,
                   fileLines = [], seedLines = [], blockLines = []\<rparr>"
  from c have v: "token_ok (version c)" and p: "wf_Params (seedParams c)"
    and f: "list_all wf_FileLine (fileLines c)" and s: "list_all wf_SeedsLine (seedLines c)"
    and bl: "list_all wf_BlockLine (blockLines c)"
    and ord: "\<forall>i < length (seedLines c). seqId (seedLines c ! i) = int i"
    by (simp_all add: canonical_cache_def)
  from fb have lv: "length (version c) < 2000"
    and lf: "list_all (\<lambda>fl. length (filename fl) < 2000) (fileLines c)"
    and ls: "list_all (\<lambda>sl. length (header sl) < 2000) (seedLines c)"
    by (simp_all add: fits_buff_def)
  have "\<forall>l \<in> set ?lines. NL \<notin> set l"
    using v f s spec_lines_no_NL by (auto simp: list_all_iff)
  then have lines: "file_lines (spec_index_text c) = map (\<lambda>l. l @ [NL]) ?lines"
    unfolding spec_index_text_def by (rule file_lines_concat)
  let ?c1 = "?c0\<lparr>version := version c\<rparr>"
  let ?c2 = "?c1\<lparr>seedParams := (seedParams c)\<lparr>KmerSize := KmerSize dflt\<rparr>\<rparr>"
  let ?c3 = "?c2\<lparr>fileLines := fileLines ?c2 @ fileLines c\<rparr>"
  let ?c4 = "?c3\<lparr>seedLines := seedLines ?c3 @ seedLines c\<rparr>"
  let ?c5 = "?c4\<lparr>blockLines := blockLines ?c4 @ blockLines c\<rparr>"
  have vl: "?body (spec_V_line c @ [NL]) (?c0, 0, None) = Inr (?c1, 0, Some (version c))"
    using buf by (intro LoadFILE_line_V v lv) simp
  have pl: "?body (spec_P_line c @ [NL]) (?c1, 0, Some (version c)) =
      Inr (?c2, 0, Some (version c))"
    using LoadFILE_line_P [of "bufsize (spec_P_line c @ [NL])" "seedParams c" TAB "[NL]" dflt
        reserve_ok ?c1 0 "Some (version c)"] buf p
    by (simp add: spec_P_line_def)
  obtain t3 b3 where fl: "for_loop ?body (map (\<lambda>fl. spec_F_line fl @ [NL]) (fileLines c))
      (?c2, 0, Some (version c)) = Inr (?c3, t3, b3)"
    using for_loop_FILE_F [OF f lf tot buf, of dflt ?c2 "Some (version c)"] by blast
  have "\<forall>i < length (seedLines c). seqId (seedLines c ! i) = int (length (seedLines ?c3) + i)"
    using ord by simp
  from for_loop_FILE_S [OF s ls buf this, of dflt reserve_ok t3 b3]
  obtain b4 where sl: "for_loop ?body (map (\<lambda>sl. spec_S_line sl @ [NL]) (seedLines c))
      (?c3, t3, b3) = Inr (?c4, t3, b4)"
    by blast
  have bll: "for_loop ?body (map (\<lambda>bl. spec_B_line bl @ [NL]) (blockLines c)) (?c4, t3, b4) =
      Inr (?c5, t3, b4)"
    by (rule for_loop_FILE_B [OF bl buf])
  have "for_loop ?body (map (\<lambda>l. l @ [NL]) ?lines) (?c0, 0, None) = Inr (?c5, t3, b4)"
    by (simp only: map_append list.map for_loop_append for_loop.simps append.simps vl pl
        map_map comp_def fl sl bll sum.case)
  moreover have "?c5 = c\<lparr>indexFilename := fn,
      seedParams := (seedParams c)\<lparr>KmerSize := KmerSize dflt\<rparr>\<rparr>"
    by simp
  ultimately show ?thesis
    unfolding LoadSeedDBIndexCache_FILE_def Let_def lines by simp
qed






lemma ex_noS_canonical: "canonical_cache ex_index_noS"
  by (simp add: canonical_cache_def ex_index_noS_def ex_params_def token_ok_def isspace_def
      wf_Params_def wf_FileLine_def wf_BlockLine_def is_int32_def is_int64_def)

lemma ex_noS_FILE_ok:
  "fits_buff ex_index_noS" "totals_ok ex_reserve_ok 0 (fileLines ex_index_noS)"
  "\<forall>l. 0 < ex_bufsize l"
  by (simp_all add: fits_buff_def ex_index_noS_def ex_reserve_ok_def is_int32_def ex_bufsize_def)

lemma ex_noS_text: "emit_SeedDBIndexCache [] ex_index_noS =
   ''V'' @ [TAB] @ ''0.1.0'' @ [NL] @ ''P'' @ [TAB] @ ''k=30,w=80,hpc=0,hpc_len=10,rc=1'' @ [NL]
   @ ''F'' @ [TAB] @ ''0'' @ [TAB] @ ''x.0.seeds'' @ [TAB] @ ''0'' @ [TAB] @ ''0'' @ [NL]
   @ ''B'' @ [TAB] @ ''0'' @ [TAB] @ ''0'' @ [TAB] @ ''0'' @ [TAB] @ ''0'' @ [NL]"
  by (simp add: emit_SeedDBIndexCache_def ex_index_noS_def ex_params_def show_int_def
      show_bool_def dec_nat.simps digit_char_values emit_FileLine_def emit_BlockLine_def)

text \<open>
  Claim C8. The stream loader answers a text without \<open>S\<close> records with \<open>EmptyIndex\<close>. The
  loader that reads a \<open>FILE*\<close> has no test of the table after its loop: on the same text,
  which it reads without an error, it returns a cache whose table of \<open>S\<close> records is empty.
\<close>

theorem LoadSeedDBIndexCache_FILE_accepts_no_S_records:
  "emit_SeedDBIndexCache [] ex_index_noS =
     ''V'' @ [TAB] @ ''0.1.0'' @ [NL] @
     ''P'' @ [TAB] @ ''k=30,w=80,hpc=0,hpc_len=10,rc=1'' @ [NL] @
     ''F'' @ [TAB] @ ''0'' @ [TAB] @ ''x.0.seeds'' @ [TAB] @ ''0'' @ [TAB] @ ''0'' @ [NL] @
     ''B'' @ [TAB] @ ''0'' @ [TAB] @ ''0'' @ [TAB] @ ''0'' @ [TAB] @ ''0'' @ [NL] \<and>
   LoadSeedDBIndexCache_stream ''unknown'' ex_params
     (emit_SeedDBIndexCache [] ex_index_noS) ''x.seeddb'' = Inl EmptyIndex \<and>
   LoadSeedDBIndexCache_FILE ''unknown'' ex_params ex_reserve_ok ex_bufsize
     (emit_SeedDBIndexCache [] ex_index_noS) ''x.seeddb'' = Inr ex_index_noS \<and>
   seedLines ex_index_noS = []"
proof -
  have 1: "seedLines ex_index_noS = []" by (simp add: ex_index_noS_def)
  have 2: "ex_index_noS\<lparr>indexFilename := ''x.seeddb'',
        seedParams := (seedParams ex_index_noS)\<lparr>KmerSize := KmerSize ex_params\<rparr>\<rparr> = ex_index_noS"
    by (simp add: ex_index_noS_def)
  have 4: "LoadSeedDBIndexCache_stream ''unknown'' ex_params
     (emit_SeedDBIndexCache [] ex_index_noS) ''x.seeddb'' = Inl EmptyIndex"
    using load_spec_index_text [OF ex_noS_canonical, of "''unknown''" ex_params "''x.seeddb''"] 1
    by (simp add: emit_is_spec_text)
  have 5: "LoadSeedDBIndexCache_FILE ''unknown'' ex_params ex_reserve_ok ex_bufsize
     (emit_SeedDBIndexCache [] ex_index_noS) ''x.seeddb'' = Inr ex_index_noS"
    using load_FILE_spec_index_text [OF ex_noS_canonical ex_noS_FILE_ok,
        of "''unknown''" ex_params "''x.seeddb''"]
    by (simp only: emit_is_spec_text 2)
  show ?thesis using 1 4 5 ex_noS_text by simp
qed

end
